(* ===== verification/Prelude.thy ===== *)
theory Prelude
  imports Main "HOL-Library.Word" "HOL-Library.List_Lexorder" "HOL-Library.Char_ord"
begin

text \<open>
  What every component of the model shares: byte strings, hexadecimal and decimal rendering
  (\<^verbatim>\<open>hex.EncodeToString\<close>, \<^verbatim>\<open>%x\<close> and \<^verbatim>\<open>strconv.FormatInt\<close> of the Go standard library),
  \<^verbatim>\<open>strings.CutPrefix\<close>, and the collections of facts that the component proofs use.

  A Go \<^verbatim>\<open>string\<close> or \<^verbatim>\<open>[]byte\<close> is a \<open>string\<close> of the model: a list of characters, each of them one
  byte. A Go \<^verbatim>\<open>[16]byte\<close> that is read byte by byte is a list of \<open>8 word\<close>.
\<close>

section \<open>Collections of facts\<close>

named_theorems key_defs \<open>definitions of the Redis key builders\<close>
named_theorems wire_simps \<open>how rendered text looks: lengths and characters\<close>

section \<open>Byte strings\<close>

type_synonym bytes = string
type_synonym byte = "8 word"

abbreviation code :: "char \<Rightarrow> nat" where
  "code c \<equiv> of_char c"

subsection \<open>Prefixes\<close>

text \<open>\<^verbatim>\<open>strings.CutPrefix\<close>: the rest of the string after the prefix, when it is there.\<close>

definition cut_prefix :: "string \<Rightarrow> string \<Rightarrow> string option" where
  "cut_prefix s p = (if take (length p) s = p then Some (drop (length p) s) else None)"

lemma cut_prefix_append [simp]: "cut_prefix (p @ s) p = Some s"
  by (simp add: cut_prefix_def)

lemma cut_prefix_Some_iff: "cut_prefix s p = Some r \<longleftrightarrow> s = p @ r"
  by (auto simp: cut_prefix_def) (metis append_take_drop_id)

lemma cut_prefix_None_iff: "cut_prefix s p = None \<longleftrightarrow> (\<nexists>r. s = p @ r)"
  by (metis cut_prefix_Some_iff not_None_eq)

subsection \<open>Hexadecimal\<close>

definition hex_digit :: "nat \<Rightarrow> char" where
  "hex_digit n = ''0123456789abcdef'' ! (n mod 16)"

definition hex_byte :: "byte \<Rightarrow> string" where
  "hex_byte b = [hex_digit (unat b div 16), hex_digit (unat b)]"

definition hex_encode :: "byte list \<Rightarrow> string" where
  "hex_encode bs = concat (map hex_byte bs)"

definition hex_chars :: "char set" where
  "hex_chars = set ''0123456789abcdef''"

lemma hex_encode_Nil [simp]: "hex_encode [] = []"
  by (simp add: hex_encode_def)

lemma hex_encode_Cons: "hex_encode (b # bs) = hex_byte b @ hex_encode bs"
  by (simp add: hex_encode_def)

lemma hex_encode_append [simp]: "hex_encode (xs @ ys) = hex_encode xs @ hex_encode ys"
  by (simp add: hex_encode_def)

lemma length_hex_encode [simp, wire_simps]: "length (hex_encode bs) = 2 * length bs"
  by (induction bs) (simp_all add: hex_encode_Cons hex_byte_def)

lemma hex_digit_inj: "m < 16 \<Longrightarrow> n < 16 \<Longrightarrow> hex_digit m = hex_digit n \<longleftrightarrow> m = n"
  unfolding hex_digit_def
  by (simp add: nth_eq_iff_index_eq)

lemma hex_digit_mod: "hex_digit (n mod 16) = hex_digit n"
  by (simp add: hex_digit_def)

lemma hex_digit_in: "hex_digit n \<in> hex_chars"
proof -
  have "n mod 16 < length ''0123456789abcdef''" by simp
  then show ?thesis
    unfolding hex_digit_def hex_chars_def by (rule nth_mem)
qed

lemma set_hex_encode [wire_simps]: "set (hex_encode bs) \<subseteq> hex_chars"
  by (induction bs) (auto simp: hex_encode_Cons hex_byte_def hex_digit_in)

lemma hex_byte_inj: "hex_byte a = hex_byte b \<longleftrightarrow> a = b"
proof
  assume eq: "hex_byte a = hex_byte b"
  have lt: "unat x div 16 < 16" for x :: byte
    using unsigned_less [of x, where ?'a = nat] by simp
  have "unat a div 16 = unat b div 16"
    using eq hex_digit_inj [OF lt lt, of a b] by (simp add: hex_byte_def)
  moreover have "unat a mod 16 = unat b mod 16"
    using eq hex_digit_inj [of "unat a mod 16" "unat b mod 16"]
    by (simp add: hex_byte_def hex_digit_mod)
  ultimately have "unat a = unat b"
    by (metis div_mult_mod_eq)
  then show "a = b" by (rule word_unat_eq_iff [THEN iffD2])
qed simp

lemma hex_encode_inj: "hex_encode xs = hex_encode ys \<longleftrightarrow> xs = ys"
proof
  show "hex_encode xs = hex_encode ys \<Longrightarrow> xs = ys"
  proof (induction xs arbitrary: ys)
    case Nil
    then show ?case by (cases ys) (simp_all add: hex_encode_Cons hex_byte_def)
  next
    case (Cons x xs)
    then show ?case
    proof (cases ys)
      case (Cons y zs)
      with Cons.prems have "hex_byte x = hex_byte y" and "hex_encode xs = hex_encode zs"
        by (auto simp: hex_encode_Cons hex_byte_def)
      with Cons.IH Cons show ?thesis by (simp add: hex_byte_inj)
    qed (simp add: hex_encode_Cons hex_byte_def)
  qed
qed simp

subsection \<open>Decimal\<close>

definition digit_char :: "nat \<Rightarrow> char" where
  "digit_char n = ''0123456789'' ! (n mod 10)"

fun dec_nat :: "nat \<Rightarrow> string" where
  "dec_nat n = (if n < 10 then [digit_char n] else dec_nat (n div 10) @ [digit_char n])"

declare dec_nat.simps [simp del]

text \<open>\<^verbatim>\<open>strconv.FormatInt(n, 10)\<close> and \<^verbatim>\<open>%d\<close>.\<close>

definition dec_int :: "int \<Rightarrow> string" where
  "dec_int n = (if n < 0 then CHR ''-'' # dec_nat (nat (- n)) else dec_nat (nat n))"

definition digit_val :: "char \<Rightarrow> nat" where
  "digit_val c = code c - 48"

definition dec_val :: "string \<Rightarrow> nat" where
  "dec_val s = foldl (\<lambda>a c. 10 * a + digit_val c) 0 s"

lemma digit_val_digit_char: "digit_val (digit_char n) = n mod 10"
proof -
  have "\<forall>m < 10. digit_val (''0123456789'' ! m) = m"
    by (simp add: digit_val_def numeral_eq_Suc All_less_Suc)
  then show ?thesis by (simp add: digit_char_def)
qed

lemma dec_val_dec_nat [simp]: "dec_val (dec_nat n) = n"
proof (induction n rule: dec_nat.induct)
  case (1 n)
  show ?case
  proof (cases "n < 10")
    case True
    then show ?thesis
      by (subst dec_nat.simps) (simp add: dec_val_def digit_val_digit_char)
  next
    case False
    have "dec_val (dec_nat (n div 10) @ [digit_char n])
        = 10 * dec_val (dec_nat (n div 10)) + n mod 10"
      by (simp add: dec_val_def digit_val_digit_char)
    with 1 False show ?thesis
      by (subst dec_nat.simps) simp
  qed
qed

lemma dec_nat_inj: "dec_nat m = dec_nat n \<longleftrightarrow> m = n"
  by (metis dec_val_dec_nat)

definition dec_chars :: "char set" where
  "dec_chars = set ''0123456789''"

lemma digit_char_in: "digit_char n \<in> dec_chars"
proof -
  have "n mod 10 < length ''0123456789''" by simp
  then show ?thesis unfolding digit_char_def dec_chars_def by (rule nth_mem)
qed

lemma set_dec_nat [wire_simps]: "set (dec_nat n) \<subseteq> dec_chars"
proof (induction n rule: dec_nat.induct)
  case (1 n)
  then show ?case
    by (subst dec_nat.simps) (simp add: digit_char_in)
qed

lemma dec_nat_not_minus: "CHR ''-'' \<notin> set (dec_nat n)"
proof -
  have "CHR ''-'' \<notin> dec_chars" by (simp add: dec_chars_def)
  with set_dec_nat [of n] show ?thesis by blast
qed

lemma dec_int_inj: "dec_int m = dec_int n \<longleftrightarrow> m = n"
proof
  assume eq: "dec_int m = dec_int n"
  have no: "dec_nat k \<noteq> CHR ''-'' # s" for k s
    using dec_nat_not_minus [of k] by auto
  show "m = n"
    using eq no no [symmetric] by (auto simp: dec_int_def dec_nat_inj split: if_splits)
qed simp

end
