(* ===== verification/Json_Text.thy ===== *)
theory Json_Text
  imports Prelude
begin

text \<open>
  Text level of the part of Go's \<^verbatim>\<open>encoding/json\<close> that the program uses: the string and number
  literals of the scanner, \<^verbatim>\<open>unquoteBytes\<close> and \<^verbatim>\<open>appendString\<close> (with HTML escaping), and the treatment
  of bytes that are not well-formed UTF-8. The facts at the end say that the scanner accepts every
  escaped string (\<open>scan_string_escape\<close>) and that unquoting gives it back (\<open>unquote_escape_id\<close>).

  A number of a decoded document is a \<^verbatim>\<open>float64\<close>; the model keeps the text \<^verbatim>\<open>Marshal\<close> prints for it.
  The function from a literal to that text (\<^verbatim>\<open>strconv.ParseFloat\<close> followed by the shortest
  formatting, or no value when the literal is out of range) is the parameter \<open>f64\<close>; what
  the proofs rely on of it is \<open>number_codec\<close>.
\<close>

section \<open>Characters\<close>

abbreviation DQ :: char where "DQ \<equiv> CHR 0x22"
abbreviation BSL :: char where "BSL \<equiv> CHR 0x5C"

definition is_ws :: "char \<Rightarrow> bool" where
  "is_ws c \<longleftrightarrow> c = CHR 0x20 \<or> c = CHR 0x09 \<or> c = CHR 0x0A \<or> c = CHR 0x0D"

definition is_digit :: "char \<Rightarrow> bool" where
  "is_digit c \<longleftrightarrow> 48 \<le> code c \<and> code c \<le> 57"

definition hex_val :: "char \<Rightarrow> nat option" where
  "hex_val c =
    (if 48 \<le> code c \<and> code c \<le> 57 then Some (code c - 48)
     else if 97 \<le> code c \<and> code c \<le> 102 then Some (code c - 87)
     else if 65 \<le> code c \<and> code c \<le> 70 then Some (code c - 55)
     else None)"

definition hex4 :: "char \<Rightarrow> char \<Rightarrow> char \<Rightarrow> char \<Rightarrow> nat option" where
  "hex4 a b c d =
    (case (hex_val a, hex_val b, hex_val c, hex_val d) of
      (Some w, Some x, Some y, Some z) \<Rightarrow> Some (w * 4096 + x * 256 + y * 16 + z)
    | _ \<Rightarrow> None)"

fun skip_ws :: "string \<Rightarrow> string" where
  "skip_ws [] = []"
| "skip_ws (c # r) = (if is_ws c then skip_ws r else c # r)"

section \<open>UTF-8\<close>

text \<open>
  The length of the well-formed UTF-8 sequence a string starts with, 0 when there is none
  (\<^verbatim>\<open>utf8.DecodeRune\<close> returns \<^verbatim>\<open>RuneError\<close> with size 1 there).
\<close>

definition is_cont :: "char \<Rightarrow> bool" where
  "is_cont c \<longleftrightarrow> 128 \<le> code c \<and> code c \<le> 191"

definition snd_lo :: "nat \<Rightarrow> nat" where
  "snd_lo x = (if x = 224 then 160 else if x = 240 then 144 else 128)"

definition snd_hi :: "nat \<Rightarrow> nat" where
  "snd_hi x = (if x = 237 then 159 else if x = 244 then 143 else 191)"

definition utf8_len :: "string \<Rightarrow> nat" where
  "utf8_len s =
    (case s of [] \<Rightarrow> 0
     | a # r \<Rightarrow>
       let x = code a in
       if x < 128 then 1
       else if 194 \<le> x \<and> x \<le> 223 then
         (case r of b # _ \<Rightarrow> if is_cont b then 2 else 0 | _ \<Rightarrow> 0)
       else if 224 \<le> x \<and> x \<le> 239 then
         (case r of b # c # _ \<Rightarrow>
            if snd_lo x \<le> code b \<and> code b \<le> snd_hi x \<and> is_cont c then 3 else 0
          | _ \<Rightarrow> 0)
       else if 240 \<le> x \<and> x \<le> 244 then
         (case r of b # c # d # _ \<Rightarrow>
            if snd_lo x \<le> code b \<and> code b \<le> snd_hi x \<and> is_cont c \<and> is_cont d then 4 else 0
          | _ \<Rightarrow> 0)
       else 0)"

definition replacement :: string where
  "replacement = [CHR 0xEF, CHR 0xBF, CHR 0xBD]"

text \<open>\<^verbatim>\<open>utf8.AppendRune\<close>.\<close>

definition encode_rune :: "nat \<Rightarrow> string" where
  "encode_rune r =
    (if r < 128 then [char_of r]
     else if r < 2048 then [char_of (192 + r div 64), char_of (128 + r mod 64)]
     else if 55296 \<le> r \<and> r < 57344 then replacement
     else if r < 65536 then
       [char_of (224 + r div 4096), char_of (128 + r div 64 mod 64), char_of (128 + r mod 64)]
     else if r < 1114112 then
       [char_of (240 + r div 262144), char_of (128 + r div 4096 mod 64),
        char_of (128 + r div 64 mod 64), char_of (128 + r mod 64)]
     else replacement)"

function utf8_ok :: "string \<Rightarrow> bool" where
  "utf8_ok [] = True"
| "utf8_ok (c # r) =
    (utf8_len (c # r) \<noteq> 0 \<and> utf8_ok (drop (utf8_len (c # r) - 1) r))"
  by pat_completeness auto
termination by (relation "measure length") auto

section \<open>Strings: scanning, unquoting, quoting\<close>

definition prepend :: "string \<Rightarrow> (string \<times> string) option \<Rightarrow> (string \<times> string) option" where
  "prepend p x = map_option (\<lambda>(u, t). (p @ u, t)) x"

text \<open>The four hexadecimal digits of a \<^verbatim>\<open>\u\<close> escape, and what follows them.\<close>

definition read_u :: "string \<Rightarrow> (nat \<times> string) option" where
  "read_u s =
    (case s of h1 # h2 # h3 # h4 # t \<Rightarrow> map_option (\<lambda>u. (u, t)) (hex4 h1 h2 h3 h4) | _ \<Rightarrow> None)"

lemma read_u_shorter [termination_simp]: "read_u s = Some (u, t) \<Longrightarrow> length t < length s"
  by (auto simp: read_u_def split: list.splits)

text \<open>
  The scanner inside a string literal, after the opening quote: the raw text up to the closing
  quote, and what follows it.
\<close>

fun scan_string :: "string \<Rightarrow> (string \<times> string) option" where
  "scan_string [] = None"
| "scan_string (c # r) =
    (if c = DQ then Some ([], r)
     else if c = BSL then
       (case r of [] \<Rightarrow> None
        | e # r1 \<Rightarrow>
          if e = CHR ''u'' then
            (case read_u r1 of None \<Rightarrow> None
             | Some (_, r2) \<Rightarrow> prepend (c # e # take 4 r1) (scan_string r2))
          else if e \<in> set (''bfnrt/'' @ [BSL, DQ]) then prepend [c, e] (scan_string r1)
          else None)
     else if code c < 32 then None
     else prepend [c] (scan_string r))"

definition unescape :: "char \<Rightarrow> char" where
  "unescape e =
    (if e = CHR ''b'' then CHR 0x08 else if e = CHR ''f'' then CHR 0x0C
     else if e = CHR ''n'' then CHR 0x0A else if e = CHR ''r'' then CHR 0x0D
     else if e = CHR ''t'' then CHR 0x09 else e)"

text \<open>
  The rune of a \<^verbatim>\<open>\u\<close> escape: a surrogate pair written as two escapes is combined
  (\<^verbatim>\<open>utf16.DecodeRune\<close>), a lone surrogate is U+FFFD and consumes one escape only.
\<close>

definition read_rune :: "string \<Rightarrow> (nat \<times> string) option" where
  "read_rune s =
    (case read_u s of None \<Rightarrow> None
     | Some (u, t) \<Rightarrow>
       if 55296 \<le> u \<and> u < 57344 then
         (case cut_prefix t (BSL # ''u'') of None \<Rightarrow> Some (65533, t)
          | Some t' \<Rightarrow>
            (case read_u t' of None \<Rightarrow> Some (65533, t)
             | Some (w, t'') \<Rightarrow>
               if u < 56320 \<and> 56320 \<le> w \<and> w < 57344
               then Some ((u - 55296) * 1024 + (w - 56320) + 65536, t'')
               else Some (65533, t)))
       else Some (u, t))"

lemma read_rune_shorter [termination_simp]: "read_rune s = Some (u, t) \<Longrightarrow> length t < length s"
  by (fastforce simp: read_rune_def cut_prefix_Some_iff split: option.splits if_splits
      dest: read_u_shorter)

text \<open>
  \<^verbatim>\<open>unquoteBytes\<close> on raw text the scanner has accepted: escapes resolved and every byte that is not
  well-formed UTF-8 replaced by U+FFFD. The branches that the scanner excludes stop, as the Go
  code does.
\<close>

fun unquote :: "string \<Rightarrow> string" where
  "unquote [] = []"
| "unquote (c # r) =
    (if c = BSL then
       (case r of [] \<Rightarrow> []
        | e # r1 \<Rightarrow>
          if e = CHR ''u'' then
            (case read_rune r1 of None \<Rightarrow> [] | Some (u, r2) \<Rightarrow> encode_rune u @ unquote r2)
          else if e \<in> set (''bfnrt/'' @ [BSL, DQ, CHR 0x27]) then unescape e # unquote r1
          else [])
     else if utf8_len (c # r) = 0 then replacement @ unquote r
     else c # take (utf8_len (c # r) - 1) r @ unquote (drop (utf8_len (c # r) - 1) r))"

definition low_hex :: "nat \<Rightarrow> string" where
  "low_hex n = [hex_digit (n div 16), hex_digit n]"

text \<open>\<^verbatim>\<open>appendString\<close> with HTML escaping, the encoding of \<^verbatim>\<open>Marshal\<close> and of an \<^verbatim>\<open>Encoder\<close>.\<close>

definition escape_ascii :: "char \<Rightarrow> string" where
  "escape_ascii c =
    (if c = BSL \<or> c = DQ then [BSL, c]
     else if c = CHR 0x08 then BSL # ''b'' else if c = CHR 0x0C then BSL # ''f''
     else if c = CHR 0x0A then BSL # ''n'' else if c = CHR 0x0D then BSL # ''r''
     else if c = CHR 0x09 then BSL # ''t''
     else if code c < 32 \<or> c = CHR ''<'' \<or> c = CHR ''>'' \<or> c = CHR ''&'' then
       BSL # ''u00'' @ low_hex (code c)
     else [c])"

function escape :: "string \<Rightarrow> string" where
  "escape [] = []"
| "escape (c # r) =
    (if code c < 128 then escape_ascii c @ escape r
     else if utf8_len (c # r) = 0 then BSL # ''ufffd'' @ escape r
     else if take 3 (c # r) = [CHR 0xE2, CHR 0x80, CHR 0xA8] then BSL # ''u2028'' @ escape (drop 2 r)
     else if take 3 (c # r) = [CHR 0xE2, CHR 0x80, CHR 0xA9] then BSL # ''u2029'' @ escape (drop 2 r)
     else c # take (utf8_len (c # r) - 1) r @ escape (drop (utf8_len (c # r) - 1) r))"
  by pat_completeness auto
termination by (relation "measure length") auto

definition quote :: "string \<Rightarrow> string" where
  "quote s = DQ # escape s @ [DQ]"

section \<open>Numbers\<close>

fun span_digits :: "string \<Rightarrow> string \<times> string" where
  "span_digits [] = ([], [])"
| "span_digits (c # r) =
    (if is_digit c then (let (ds, t) = span_digits r in (c # ds, t)) else ([], c # r))"

definition scan_digits :: "string \<Rightarrow> (string \<times> string) option" where
  "scan_digits s = (case span_digits s of ([], _) \<Rightarrow> None | (ds, t) \<Rightarrow> Some (ds, t))"

definition scan_int :: "string \<Rightarrow> (string \<times> string) option" where
  "scan_int s =
    (case s of [] \<Rightarrow> None
     | c # r \<Rightarrow> if c = CHR ''0'' then Some ([c], r) else scan_digits s)"

definition scan_frac :: "string \<Rightarrow> (string \<times> string) option" where
  "scan_frac s =
    (case s of c # r \<Rightarrow> if c = CHR ''.'' then prepend [c] (scan_digits r) else Some ([], s)
     | [] \<Rightarrow> Some ([], s))"

definition scan_sign :: "char list \<Rightarrow> string \<Rightarrow> string \<times> string" where
  "scan_sign cs s = (case s of c # r \<Rightarrow> if c \<in> set cs then ([c], r) else ([], s) | [] \<Rightarrow> ([], s))"

definition scan_exp :: "string \<Rightarrow> (string \<times> string) option" where
  "scan_exp s =
    (case s of c # r \<Rightarrow>
       if c = CHR ''e'' \<or> c = CHR ''E''
       then (case scan_sign ''+-'' r of (sg, t) \<Rightarrow> prepend (c # sg) (scan_digits t))
       else Some ([], s)
     | [] \<Rightarrow> Some ([], s))"

text \<open>A number literal of the JSON grammar and what follows it.\<close>

definition scan_number :: "string \<Rightarrow> (string \<times> string) option" where
  "scan_number s =
    (case scan_sign ''-'' s of (sg, r) \<Rightarrow>
     (case scan_int r of None \<Rightarrow> None
      | Some (i, r1) \<Rightarrow>
       (case scan_frac r1 of None \<Rightarrow> None
        | Some (fr, r2) \<Rightarrow> prepend (sg @ i @ fr) (scan_exp r2))))"

definition is_number :: "string \<Rightarrow> bool" where
  "is_number t \<longleftrightarrow> scan_number t = Some (t, [])"

text \<open>
  What the proofs use of the parameter \<open>f64\<close>: the text printed for a \<^verbatim>\<open>float64\<close> is a number literal
  that denotes the same \<^verbatim>\<open>float64\<close>, so it is printed as itself.
\<close>

definition number_codec :: "(string \<Rightarrow> string option) \<Rightarrow> bool" where
  "number_codec f64 \<longleftrightarrow> (\<forall>t u. f64 t = Some u \<longrightarrow> f64 u = Some u \<and> is_number u)"


section \<open>UTF-8 facts\<close>

lemma utf8_len_le: "utf8_len s \<le> length s"
  by (auto simp: utf8_len_def Let_def split: list.splits)

lemma utf8_len_append:
  assumes "utf8_len p = length p" and "p \<noteq> []"
  shows "utf8_len (p @ t) = length p"
proof (cases p)
  case (Cons a r)
  consider "r = []" | b where "r = [b]" | b c where "r = [b, c]" | b c d where "r = [b, c, d]"
    | "length r > 3"
    by (metis One_nat_def Suc_lessI length_0_conv length_Suc_conv less_2_cases neq0_conv numeral_2_eq_2 numeral_3_eq_3)
  then show ?thesis
    using assms Cons by cases (auto simp: utf8_len_def Let_def split: list.splits if_splits)
qed (use assms in simp)

lemma utf8_len_take:
  assumes "utf8_len s \<noteq> 0"
  shows "utf8_len (take (utf8_len s) s) = utf8_len s"
  using assms
  by (auto simp: utf8_len_def Let_def split: list.splits if_splits)


lemma length_take_utf8 [simp]: "length (take (utf8_len s) s) = utf8_len s"
  by (simp add: utf8_len_le min_absorb2)

text \<open>A chunk is a non-empty string that is exactly one well-formed UTF-8 sequence.\<close>

definition utf8_chunk :: "string \<Rightarrow> bool" where
  "utf8_chunk p \<longleftrightarrow> p \<noteq> [] \<and> utf8_len p = length p"

lemma utf8_chunk_take: "utf8_len s \<noteq> 0 \<Longrightarrow> utf8_chunk (take (utf8_len s) s)"
  using utf8_len_le [of s] by (cases s) (auto simp: utf8_chunk_def utf8_len_take min_absorb2)

lemma utf8_len_chunk: "utf8_chunk p \<Longrightarrow> utf8_len (p @ t) = length p"
  by (simp add: utf8_chunk_def utf8_len_append)

lemma utf8_ok_chunk: "utf8_chunk p \<Longrightarrow> utf8_ok (p @ t) = utf8_ok t"
proof -
  assume p: "utf8_chunk p"
  then obtain a r where [simp]: "p = a # r" by (cases p) (auto simp: utf8_chunk_def)
  have "utf8_len (a # r @ t) = Suc (length r)"
    using utf8_len_chunk [OF p, of t] by simp
  then show ?thesis by simp
qed

lemma utf8_len_ascii: "code c < 128 \<Longrightarrow> utf8_len (c # r) = 1"
  by (simp add: utf8_len_def)

lemma utf8_chunk_ascii: "code c < 128 \<Longrightarrow> utf8_chunk [c]"
  by (simp add: utf8_chunk_def utf8_len_ascii)

lemma utf8_chunk_replacement: "utf8_chunk replacement"
  by (simp add: utf8_chunk_def utf8_len_def replacement_def is_cont_def snd_lo_def snd_hi_def)

lemma utf8_chunk_encode_rune: "utf8_chunk (encode_rune r)"
proof -
  have m: "x mod 64 < (64::nat)" for x by simp
  consider "r < 128" | "128 \<le> r" "r < 2048" | "2048 \<le> r" "r < 65536" "\<not> (55296 \<le> r \<and> r < 57344)"
    | "65536 \<le> r" "r < 1114112" | "55296 \<le> r \<and> r < 57344 \<or> 1114112 \<le> r"
    by linarith
  then show ?thesis
  proof cases
    case 1
    then show ?thesis
      by (simp add: encode_rune_def utf8_chunk_ascii)
  next
    case 2
    then have "2 \<le> r div 64" "r div 64 < 32" by auto
    with 2 show ?thesis
      by (simp add: encode_rune_def utf8_chunk_def utf8_len_def is_cont_def) 
  next
    case 3
    define a b where "a = r div 4096" and "b = r div 64 mod 64"
    have r: "r = 4096 * a + 64 * b + r mod 64"
      using mod_mult2_eq [of r 64 64] mult_div_mod_eq [of 4096 r] by (simp add: a_def b_def)
    have b: "b < 64" by (simp add: b_def)
    have "a = 0 \<longrightarrow> 32 \<le> b" and "a = 13 \<longrightarrow> b < 32" and "a < 16"
      using r b m [of r] 3 by linarith+
    with 3 b show ?thesis
      by (auto simp: encode_rune_def utf8_chunk_def utf8_len_def is_cont_def snd_lo_def snd_hi_def
          a_def [symmetric] b_def [symmetric])
  next
    case 4
    define a b where "a = r div 262144" and "b = r div 4096 mod 64"
    have r: "r = 262144 * a + 4096 * b + r mod 4096"
      using mod_mult2_eq [of r 4096 64] mult_div_mod_eq [of 262144 r] by (simp add: a_def b_def)
    have b: "b < 64" and q: "r mod 4096 < 4096" by (simp_all add: b_def)
    have "a = 0 \<longrightarrow> 16 \<le> b" and "a = 4 \<longrightarrow> b < 16" and "a < 5"
      using r b q 4 by linarith+
    with 4 b m [of "r div 64"] m [of r] show ?thesis
      by (auto simp: encode_rune_def utf8_chunk_def utf8_len_def is_cont_def snd_lo_def snd_hi_def
          a_def [symmetric] b_def [symmetric])
  next
    case 5
    then show ?thesis
      by (auto simp: encode_rune_def utf8_chunk_replacement)
  qed
qed


section \<open>Escaping and unquoting\<close>

text \<open>What \<open>Marshal\<close> followed by \<open>Unmarshal\<close> does to a string: bytes that are not well-formed UTF-8
  become U+FFFD, everything else stays.\<close>

function utf8_fix :: "string \<Rightarrow> string" where
  "utf8_fix [] = []"
| "utf8_fix (c # r) =
    (if utf8_len (c # r) = 0 then replacement @ utf8_fix r
     else c # take (utf8_len (c # r) - 1) r @ utf8_fix (drop (utf8_len (c # r) - 1) r))"
  by pat_completeness auto
termination by (relation "measure length") auto

lemma utf8_fix_id: "utf8_ok s \<Longrightarrow> utf8_fix s = s"
  by (induction s rule: utf8_ok.induct) auto

lemma utf8_ok_fix: "utf8_ok (utf8_fix s)"
proof (induction s rule: utf8_fix.induct)
  case (2 c r)
  show ?case
  proof (cases "utf8_len (c # r) = 0")
    case True
    with 2 show ?thesis by (simp add: utf8_ok_chunk utf8_chunk_replacement)
  next
    case False
    then obtain k where k: "utf8_len (c # r) = Suc k" by (cases "utf8_len (c # r)") auto
    have "utf8_chunk (c # take k r)"
      using utf8_chunk_take [OF False] by (simp add: k)
    then show ?thesis
      using 2(2) [OF False] utf8_ok_chunk [of "c # take k r"] by (simp add: k)
  qed
qed simp

lemma utf8_ok_unescape:
  "e \<in> set (''bfnrt/'' @ [BSL, DQ, CHR 0x27]) \<Longrightarrow> utf8_ok (unescape e # t) = utf8_ok t"
proof -
  have "\<forall>e \<in> set (''bfnrt/'' @ [BSL, DQ, CHR 0x27]). code (unescape e) < 128"
    by (simp add: unescape_def)
  moreover assume "e \<in> set (''bfnrt/'' @ [BSL, DQ, CHR 0x27])"
  ultimately have "code (unescape e) < 128" by (rule bspec)
  from utf8_ok_chunk [OF utf8_chunk_ascii, OF this] show ?thesis by simp
qed

lemma utf8_ok_unquote: "utf8_ok (unquote s)"
proof (induction s rule: unquote.induct)
  case (2 c r)
  show ?case
  proof (cases "c = BSL")
    case True
    note chunks = utf8_ok_chunk [OF utf8_chunk_encode_rune] utf8_ok_unescape
    show ?thesis
    proof (cases r)
      case (Cons e r1)
      with True 2 show ?thesis
        by (auto simp: chunks split: option.split simp del: utf8_ok.simps(2))
    qed (use True in simp)
  next
    case False
    show ?thesis
    proof (cases "utf8_len (c # r) = 0")
      case True
      with False 2 show ?thesis
        by (simp add: utf8_ok_chunk utf8_chunk_replacement)
    next
      case Tr: False
      then obtain k where k: "utf8_len (c # r) = Suc k" by (cases "utf8_len (c # r)") auto
      have "utf8_chunk (c # take k r)"
        using utf8_chunk_take [OF Tr] by (simp add: k)
      then show ?thesis
        using False Tr 2 utf8_ok_chunk [of "c # take k r"] by (simp add: k)
    qed
  qed
qed simp

declare unquote.simps(2) [simp del]

lemma hex_val_digit: "hex_val (hex_digit n) = Some (n mod 16)"
proof -
  have "\<forall>m < 16. hex_val (''0123456789abcdef'' ! m) = Some m"
    by (simp add: hex_val_def numeral_eq_Suc All_less_Suc)
  then show ?thesis by (simp add: hex_digit_def)
qed

lemma unquote_chunk:
  assumes "utf8_chunk (c # p)" and "c \<noteq> BSL"
  shows "unquote ((c # p) @ t) = (c # p) @ unquote t"
  using utf8_len_chunk [OF assms(1), of t] assms(2) by (simp add: unquote.simps)

lemma unquote_ascii: "code c < 128 \<Longrightarrow> c \<noteq> BSL \<Longrightarrow> unquote (c # t) = c # unquote t"
  using unquote_chunk [of c "[]" t] by (simp add: utf8_chunk_ascii)

lemma unquote_u:
  assumes "read_u s = Some (u, t)" and "\<not> (55296 \<le> u \<and> u < 57344)"
  shows "unquote (BSL # CHR ''u'' # s) = encode_rune u @ unquote t"
  using assms by (simp add: unquote.simps read_rune_def del: not_less not_le de_Morgan_conj)

lemma unquote_u00:
  assumes "code c < 128"
  shows "unquote (BSL # ''u00'' @ low_hex (code c) @ t) = c # unquote t"
proof -
  have "code c div 16 mod 16 * 16 + code c mod 16 = code c" using assms by simp
  then have "read_u (''00'' @ low_hex (code c) @ t) = Some (code c, t)"
    using hex_val_digit [of 0] by (simp add: read_u_def low_hex_def hex4_def hex_val_digit hex_digit_def [of 0])
  from unquote_u [OF this] assms show ?thesis
    by (simp add: encode_rune_def)
qed

lemma unquote_bsl:
  "e \<in> set (''bfnrt/'' @ [BSL, DQ]) \<Longrightarrow> unquote (BSL # e # t) = unescape e # unquote t"
  by (auto simp: unquote.simps)

lemma unquote_escape_ascii:
  assumes "code c < 128"
  shows "unquote (escape_ascii c @ t) = c # unquote t"
proof -
  let ?S = "{BSL, DQ, CHR 0x08, CHR 0x0C, CHR 0x0A, CHR 0x0D, CHR 0x09}"
  let ?H = "code c < 32 \<or> c = CHR ''<'' \<or> c = CHR ''>'' \<or> c = CHR ''&''"
  show ?thesis
  proof (cases "c \<in> ?S")
    case True
    then show ?thesis
      by (auto simp: escape_ascii_def unquote_bsl unescape_def)
  next
    case S: False
    show ?thesis
    proof (cases ?H)
      case True
      with S have "escape_ascii c = BSL # ''u00'' @ low_hex (code c)"
        by (simp add: escape_ascii_def)
      then show ?thesis
        using unquote_u00 [OF assms, of t] by simp
    next
      case False
      with S have "escape_ascii c = [c]" and "c \<noteq> BSL"
        by (simp_all add: escape_ascii_def)
      then show ?thesis
        using unquote_ascii [OF assms] by simp
    qed
  qed
qed

text \<open>Unquoting what \<open>escape\<close> wrote gives the string back, up to invalid UTF-8.\<close>

lemma unquote_ufffd: "unquote (BSL # ''ufffd'' @ t) = replacement @ unquote t"
  using unquote_u [of "''fffd'' @ t" 65533 t]
  by (simp add: read_u_def hex4_def hex_val_def encode_rune_def replacement_def char_of_def bit_Suc_0_iff)

lemma unquote_u2028:
  "unquote (BSL # ''u2028'' @ t) = [CHR 0xE2, CHR 0x80, CHR 0xA8] @ unquote t"
  "unquote (BSL # ''u2029'' @ t) = [CHR 0xE2, CHR 0x80, CHR 0xA9] @ unquote t"
  using unquote_u [of "''2028'' @ t" 8232 t] unquote_u [of "''2029'' @ t" 8233 t]
  by (simp_all add: read_u_def hex4_def hex_val_def encode_rune_def char_of_def bit_Suc_0_iff)

lemma take3_utf8_len:
  assumes "take 3 (c # r) = [CHR 0xE2, CHR 0x80, x]" and "is_cont x"
  shows "utf8_len (c # r) = 3" and "c = CHR 0xE2" and "take 2 r = [CHR 0x80, x]"
proof -
  show c: "c = CHR 0xE2" and t: "take 2 r = [CHR 0x80, x]"
    using assms(1) by (simp_all add: eval_nat_numeral)
  have "c # r = (c # take 2 r) @ drop 2 r" by simp
  moreover have "utf8_chunk (c # take 2 r)"
    using assms(2) by (simp add: c t utf8_chunk_def utf8_len_def snd_lo_def snd_hi_def)
  ultimately show "utf8_len (c # r) = 3"
    using utf8_len_chunk [of "c # take 2 r" "drop 2 r"] t by simp
qed

lemma unquote_escape: "unquote (escape s) = utf8_fix s"
proof (induction s rule: escape.induct)
  case (2 c r)
  show ?case
  proof (cases "code c < 128")
    case True
    with 2 show ?thesis
      by (simp add: unquote_escape_ascii utf8_len_ascii)
  next
    case big: False
    then have "c \<noteq> BSL" by auto
    consider "utf8_len (c # r) = 0"
      | "take 3 (c # r) = [CHR 0xE2, CHR 0x80, CHR 0xA8]"
      | "take 3 (c # r) = [CHR 0xE2, CHR 0x80, CHR 0xA9]"
      | k where "utf8_len (c # r) = Suc k" "take 3 (c # r) \<noteq> [CHR 0xE2, CHR 0x80, CHR 0xA8]"
        "take 3 (c # r) \<noteq> [CHR 0xE2, CHR 0x80, CHR 0xA9]"
      by (cases "utf8_len (c # r)") auto
    then show ?thesis
    proof cases
      case 1
      with big 2 show ?thesis by (simp add: unquote_ufffd [simplified])
    next
      case t: 2
      with take3_utf8_len [OF t] big "2.IH" show ?thesis
        by (simp add: unquote_u2028 [simplified] is_cont_def)
    next
      case t: 3
      with take3_utf8_len [OF t] big "2.IH" show ?thesis
        by (simp add: unquote_u2028 [simplified] is_cont_def)
    next
      case (4 k)
      then have "utf8_chunk (c # take k r)"
        using utf8_chunk_take [of "c # r"] by simp
      from unquote_chunk [OF this \<open>c \<noteq> BSL\<close>] 4 big "2.IH" show ?thesis by auto
    qed
  qed
qed simp

lemma unquote_escape_id: "utf8_ok s \<Longrightarrow> unquote (escape s) = s"
  by (simp add: unquote_escape utf8_fix_id)


section \<open>Scanning\<close>

lemma prepend_prepend [simp]: "prepend p (prepend q x) = prepend (p @ q) x"
  by (cases x) (auto simp: prepend_def)

lemma prepend_Some [simp]: "prepend p (Some (u, t)) = Some (p @ u, t)"
  by (simp add: prepend_def)

lemma prepend_None [simp]: "prepend p None = None"
  by (simp add: prepend_def)

lemma prepend_Nil [simp]: "prepend [] x = x"
  by (cases x) (auto simp: prepend_def)

lemma prepend_eq_Some: "prepend p x = Some (u, t) \<longleftrightarrow> (\<exists>v. x = Some (v, t) \<and> u = p @ v)"
  by (cases x) (auto simp: prepend_def)

lemma scan_string_shorter: "scan_string s = Some (u, t) \<Longrightarrow> length t < length s"
proof (induction s arbitrary: u rule: scan_string.induct)
  case (2 c r)
  then show ?case
    by (fastforce simp: prepend_eq_Some split: if_splits list.splits option.splits
        dest: read_u_shorter)
qed simp

lemma scan_string_plain:
  "\<forall>c \<in> set p. 32 \<le> code c \<and> c \<noteq> DQ \<and> c \<noteq> BSL \<Longrightarrow> scan_string (p @ x) = prepend p (scan_string x)"
  by (induction p) auto

lemma scan_string_u:
  assumes "length h = 4" and "read_u h \<noteq> None"
  shows "scan_string (BSL # CHR ''u'' # h @ x) = prepend (BSL # CHR ''u'' # h) (scan_string x)"
proof -
  have "\<exists>u. read_u (h @ x) = Some (u, x)"
    using assms by (auto simp: read_u_def split: list.splits)
  with assms show ?thesis by auto
qed

lemma scan_string_escape_ascii:
  assumes "code c < 128"
  shows "scan_string (escape_ascii c @ x) = prepend (escape_ascii c) (scan_string x)"
proof -
  let ?S = "{BSL, DQ, CHR 0x08, CHR 0x0C, CHR 0x0A, CHR 0x0D, CHR 0x09}"
  let ?H = "code c < 32 \<or> c = CHR ''<'' \<or> c = CHR ''>'' \<or> c = CHR ''&''"
  show ?thesis
  proof (cases "c \<in> ?S")
    case True
    then show ?thesis
      by (auto simp: escape_ascii_def)
  next
    case S: False
    show ?thesis
    proof (cases ?H)
      case True
      with S have "escape_ascii c = BSL # CHR ''u'' # (''00'' @ low_hex (code c))"
        by (simp add: escape_ascii_def)
      moreover have "read_u (''00'' @ low_hex (code c)) \<noteq> None"
        using hex_val_digit [of 0]
        by (simp add: read_u_def low_hex_def hex4_def hex_val_digit hex_digit_def [of 0])
      ultimately show ?thesis
        using scan_string_u [of "''00'' @ low_hex (code c)" x] by (simp add: low_hex_def)
    next
      case False
      with S have "escape_ascii c = [c]" and "c \<noteq> BSL" "c \<noteq> DQ" "32 \<le> code c"
        by (simp_all add: escape_ascii_def)
      then show ?thesis by simp
    qed
  qed
qed

lemma utf8_chunk_high:
  assumes "utf8_chunk (c # p)" and "\<not> code c < 128" and "b \<in> set (c # p)"
  shows "128 \<le> code b"
  using assms
  by (auto simp: utf8_chunk_def utf8_len_def is_cont_def snd_lo_def snd_hi_def Let_def
      split: list.splits if_splits)

lemma scan_string_u_literals:
  "scan_string (BSL # CHR ''u'' # CHR ''f'' # CHR ''f'' # CHR ''f'' # CHR ''d'' # x)
    = prepend (BSL # ''ufffd'') (scan_string x)"
  "scan_string (BSL # CHR ''u'' # CHR ''2'' # CHR ''0'' # CHR ''2'' # CHR ''8'' # x)
    = prepend (BSL # ''u2028'') (scan_string x)"
  "scan_string (BSL # CHR ''u'' # CHR ''2'' # CHR ''0'' # CHR ''2'' # CHR ''9'' # x)
    = prepend (BSL # ''u2029'') (scan_string x)"
  by (simp_all add: read_u_def hex4_def hex_val_def)

lemma scan_string_escape: "scan_string (escape s @ DQ # x) = Some (escape s, x)"
proof (induction s rule: escape.induct)
  case (2 c r)
  show ?case
  proof (cases "code c < 128")
    case True
    with 2 show ?thesis
      by (simp add: scan_string_escape_ascii)
  next
    case big: False
    show ?thesis
    proof (cases "utf8_len (c # r)")
      case 0
      with big 2 show ?thesis by (simp add: scan_string_u_literals del: scan_string.simps)
    next
      case (Suc k)
      have chunk: "utf8_chunk (c # take k r)"
        using utf8_chunk_take [of "c # r"] Suc by simp
      have "\<forall>b \<in> set (c # take k r). 32 \<le> code b \<and> b \<noteq> DQ \<and> b \<noteq> BSL"
        using utf8_chunk_high [OF chunk big] by fastforce
      from scan_string_plain [OF this] big 2 Suc show ?thesis
        by (auto simp add: scan_string_u_literals simp del: scan_string.simps)
    qed
  qed
qed simp


end
