(* ===== verification/Json_Value.thy ===== *)
theory Json_Value
  imports Json_Text
begin

text \<open>
  JSON documents: Go's \<^verbatim>\<open>any\<close> as \<^verbatim>\<open>Unmarshal\<close> builds it and \<^verbatim>\<open>Marshal\<close> prints it. A
  \<^verbatim>\<open>map[string]any\<close> is an association list sorted by key, without duplicate keys, so equal maps
  are equal lists, and printing it in order is the key order of \<^verbatim>\<open>Marshal\<close>.

  The parser takes a fuel, which bounds its recursion, and the nesting depth that is still allowed
  (the scanner's \<^verbatim>\<open>maxNestingDepth\<close>). \<open>parse_fuel\<close> shows that the fuel the entry points
  give is enough: more of it never changes a result. \<open>json_parse_print\<close> and \<open>json_parse_ok\<close> are the
  two halves of the round trip.
\<close>

section \<open>Values\<close>

datatype json =
    JNull
  | JBool bool
  | JNum string
  | JStr string
  | JArr "json list"
  | JObj "(string \<times> json) list"

subsection \<open>Maps in key order\<close>

fun map_put :: "string \<Rightarrow> 'v \<Rightarrow> (string \<times> 'v) list \<Rightarrow> (string \<times> 'v) list" where
  "map_put k v [] = [(k, v)]"
| "map_put k v (e # m) =
    (if fst e < k then e # map_put k v m
     else if fst e = k then (k, v) # m
     else (k, v) # e # m)"

definition map_puts :: "(string \<times> 'v) list \<Rightarrow> (string \<times> 'v) list \<Rightarrow> (string \<times> 'v) list" where
  "map_puts m kvs = foldl (\<lambda>a (k, v). map_put k v a) m kvs"

abbreviation ordered :: "(string \<times> 'v) list \<Rightarrow> bool" where
  "ordered m \<equiv> sorted_wrt (<) (map fst m)"

section \<open>Parsing\<close>

text \<open>The key of an object member and its colon; what follows starts with the member's value.\<close>

definition scan_key :: "string \<Rightarrow> (string \<times> string) option" where
  "scan_key s =
    (case cut_prefix s [DQ] of None \<Rightarrow> None
     | Some s1 \<Rightarrow>
       (case scan_string s1 of None \<Rightarrow> None
        | Some (k, s2) \<Rightarrow>
          map_option (\<lambda>s3. (unquote k, skip_ws s3)) (cut_prefix (skip_ws s2) '':'')))"

fun parse_value :: "(string \<Rightarrow> string option) \<Rightarrow> nat \<Rightarrow> nat \<Rightarrow> string \<Rightarrow> (json \<times> string) option"
  and parse_elems :: "(string \<Rightarrow> string option) \<Rightarrow> nat \<Rightarrow> nat \<Rightarrow> string \<Rightarrow> (json list \<times> string) option"
  and parse_members ::
    "(string \<Rightarrow> string option) \<Rightarrow> nat \<Rightarrow> nat \<Rightarrow> string \<Rightarrow> ((string \<times> json) list \<times> string) option" where
  "parse_value f64 0 d s = None"
| "parse_value f64 (Suc n) d s =
    (case s of [] \<Rightarrow> None
     | c # r \<Rightarrow>
       if c = CHR ''{'' then
         (if d = 0 then None
          else (case cut_prefix (skip_ws r) ''}'' of
              Some t \<Rightarrow> Some (JObj [], t)
            | None \<Rightarrow> map_option (\<lambda>(kvs, t). (JObj (map_puts [] kvs), t))
                (parse_members f64 n (d - 1) (skip_ws r))))
       else if c = CHR ''['' then
         (if d = 0 then None
          else (case cut_prefix (skip_ws r) '']'' of
              Some t \<Rightarrow> Some (JArr [], t)
            | None \<Rightarrow> map_option (\<lambda>(vs, t). (JArr vs, t)) (parse_elems f64 n (d - 1) (skip_ws r))))
       else if c = DQ then map_option (\<lambda>(u, t). (JStr (unquote u), t)) (scan_string r)
       else if c = CHR ''t'' then map_option (\<lambda>t. (JBool True, t)) (cut_prefix s ''true'')
       else if c = CHR ''f'' then map_option (\<lambda>t. (JBool False, t)) (cut_prefix s ''false'')
       else if c = CHR ''n'' then map_option (\<lambda>t. (JNull, t)) (cut_prefix s ''null'')
       else (case scan_number s of None \<Rightarrow> None
             | Some (lit, t) \<Rightarrow> map_option (\<lambda>u. (JNum u, t)) (f64 lit)))"
| "parse_elems f64 0 d s = None"
| "parse_elems f64 (Suc n) d s =
    (case parse_value f64 n d s of None \<Rightarrow> None
     | Some (v, r) \<Rightarrow>
       (case skip_ws r of [] \<Rightarrow> None
        | c # t \<Rightarrow>
          if c = CHR '']'' then Some ([v], t)
          else if c = CHR '','' then
            map_option (\<lambda>(vs, t'). (v # vs, t')) (parse_elems f64 n d (skip_ws t))
          else None))"
| "parse_members f64 0 d s = None"
| "parse_members f64 (Suc n) d s =
    (case scan_key s of None \<Rightarrow> None
     | Some (k, s3) \<Rightarrow>
       (case parse_value f64 n d s3 of None \<Rightarrow> None
        | Some (v, r) \<Rightarrow>
          (case skip_ws r of [] \<Rightarrow> None
           | c # t \<Rightarrow>
             if c = CHR ''}'' then Some ([(k, v)], t)
             else if c = CHR '','' then
               map_option (\<lambda>(kvs, t'). ((k, v) # kvs, t')) (parse_members f64 n d (skip_ws t))
             else None)))"

definition max_depth :: nat where
  "max_depth = 10000"

definition fuel_for :: "string \<Rightarrow> nat" where
  "fuel_for s = 2 * length s + 1"

text \<open>A value at the front of the input, as a \<^verbatim>\<open>Decoder\<close> reads it: what follows is left alone.\<close>

definition json_prefix :: "(string \<Rightarrow> string option) \<Rightarrow> string \<Rightarrow> (json \<times> string) option" where
  "json_prefix f64 s = parse_value f64 (fuel_for s) max_depth (skip_ws s)"

text \<open>A whole document, as \<^verbatim>\<open>Unmarshal\<close> reads it: only white space may follow the value.\<close>

definition json_parse :: "(string \<Rightarrow> string option) \<Rightarrow> string \<Rightarrow> json option" where
  "json_parse f64 s =
    (case json_prefix f64 s of None \<Rightarrow> None
     | Some (v, r) \<Rightarrow> if skip_ws r = [] then Some v else None)"

section \<open>Printing\<close>

fun commas :: "string list \<Rightarrow> string" where
  "commas [] = []"
| "commas [x] = x"
| "commas (x # y # ys) = x @ CHR '','' # commas (y # ys)"

fun json_print :: "json \<Rightarrow> string" where
  "json_print JNull = ''null''"
| "json_print (JBool b) = (if b then ''true'' else ''false'')"
| "json_print (JNum t) = t"
| "json_print (JStr s) = quote s"
| "json_print (JArr vs) = CHR ''['' # commas (map json_print vs) @ '']''"
| "json_print (JObj kvs) =
    CHR ''{'' # commas (map (\<lambda>(k, v). quote k @ CHR '':'' # json_print v) kvs) @ ''}''"

text \<open>
  The documents \<^verbatim>\<open>Unmarshal\<close> can build within a nesting depth: ordered maps, well-formed UTF-8, and
  numbers in the form \<^verbatim>\<open>Marshal\<close> prints.
\<close>

fun json_ok :: "(string \<Rightarrow> string option) \<Rightarrow> nat \<Rightarrow> json \<Rightarrow> bool" where
  "json_ok f64 d JNull \<longleftrightarrow> True"
| "json_ok f64 d (JBool b) \<longleftrightarrow> True"
| "json_ok f64 d (JNum t) \<longleftrightarrow> f64 t = Some t \<and> is_number t"
| "json_ok f64 d (JStr s) \<longleftrightarrow> utf8_ok s"
| "json_ok f64 d (JArr vs) \<longleftrightarrow> d \<noteq> 0 \<and> (\<forall>v \<in> set vs. json_ok f64 (d - 1) v)"
| "json_ok f64 d (JObj kvs) \<longleftrightarrow>
    d \<noteq> 0 \<and> ordered kvs \<and> (\<forall>(k, v) \<in> set kvs. utf8_ok k \<and> json_ok f64 (d - 1) v)"

section \<open>Maps in key order\<close>

lemma set_map_put: "set (map_put k v m) \<subseteq> insert (k, v) (set m)"
  by (induction m) auto

lemma fst_set_map_put: "fst ` set (map_put k v m) = insert k (fst ` set m)"
  by (induction m) auto

lemma ordered_map_put: "ordered m \<Longrightarrow> ordered (map_put k v m)"
  by (induction m) (auto simp: fst_set_map_put)

lemma map_of_map_put: "ordered m \<Longrightarrow> map_of (map_put k v m) = (map_of m)(k \<mapsto> v)"
proof (induction m)
  case (Cons e m)
  then show ?case by (cases e) (auto simp: fun_eq_iff)
qed simp

lemma map_puts_Nil [simp]: "map_puts m [] = m"
  by (simp add: map_puts_def)

lemma map_puts_Cons [simp]: "map_puts m (e # kvs) = map_puts (map_put (fst e) (snd e) m) kvs"
  by (simp add: map_puts_def split_beta)

lemma ordered_map_puts: "ordered m \<Longrightarrow> ordered (map_puts m kvs)"
  by (induction kvs arbitrary: m) (auto simp: ordered_map_put)

lemma set_map_puts: "set (map_puts m kvs) \<subseteq> set m \<union> set kvs"
proof (induction kvs arbitrary: m)
  case (Cons e kvs)
  then show ?case using set_map_put [of "fst e" "snd e" m] by fastforce
qed simp

lemma map_of_map_puts: "ordered m \<Longrightarrow> map_of (map_puts m kvs) = map_of m ++ map_of (rev kvs)"
  by (induction kvs arbitrary: m) (auto simp: ordered_map_put map_of_map_put map_add_def split: option.splits)

lemma map_put_last: "\<forall>e \<in> set m. fst e < k \<Longrightarrow> map_put k v m = m @ [(k, v)]"
  by (induction m) auto

lemma map_puts_append: "ordered (m @ kvs) \<Longrightarrow> map_puts m kvs = m @ kvs"
proof (induction kvs arbitrary: m)
  case (Cons e kvs)
  then have "\<forall>x \<in> set m. fst x < fst e"
    by (auto simp: sorted_wrt_append)
  then have "map_put (fst e) (snd e) m = m @ [e]"
    by (simp add: map_put_last)
  with Cons show ?case by simp
qed simp

lemma map_puts_ordered: "ordered kvs \<Longrightarrow> map_puts [] kvs = kvs"
  using map_puts_append [of "[]" kvs] by simp

lemma ordered_distinct: "ordered m \<Longrightarrow> distinct (map fst m)"
  using strict_sorted_iff by blast

lemma ordered_ext:
  assumes "ordered xs" and "ordered ys" and "map_of xs = map_of ys"
  shows "xs = ys"
proof -
  have set: "set xs = set ys"
    using map_of_inject_set [OF ordered_distinct ordered_distinct] assms by blast
  note d = ordered_distinct [OF assms(1)] ordered_distinct [OF assms(2)]
  have "inj_on fst (set xs \<union> set ys)"
    using d(1) set by (simp add: distinct_map)
  moreover have "sorted (map fst xs)" and "sorted (map fst ys)"
    using assms strict_sorted_iff by blast+
  ultimately show ?thesis
    using d set by (intro map_sorted_distinct_set_unique [of fst xs ys])
qed

section \<open>Progress of the parser\<close>

lemma length_skip_ws: "length (skip_ws s) \<le> length s"
  by (induction s) auto

lemma skip_ws_idem [simp]: "skip_ws (skip_ws s) = skip_ws s"
  by (induction s) auto

lemma cut_prefix_shorter: "cut_prefix s p = Some t \<Longrightarrow> length s = length p + length t"
  by (auto simp: cut_prefix_Some_iff)

lemma span_digits_shorter: "span_digits s = (ds, t) \<Longrightarrow> length s = length ds + length t"
  by (induction s arbitrary: ds) (auto split: if_splits prod.splits)

lemma scan_digits_shorter: "scan_digits s = Some (ds, t) \<Longrightarrow> length t < length s"
  by (auto simp: scan_digits_def dest!: span_digits_shorter split: prod.splits list.splits)

lemma scan_int_shorter: "scan_int s = Some (ds, t) \<Longrightarrow> length t < length s"
  by (auto simp: scan_int_def dest: scan_digits_shorter split: list.splits if_splits)

lemma scan_frac_shorter: "scan_frac s = Some (ds, t) \<Longrightarrow> length t \<le> length s"
  by (auto simp: scan_frac_def prepend_eq_Some dest!: scan_digits_shorter split: list.splits if_splits)

lemma scan_sign_shorter: "scan_sign cs s = (sg, t) \<Longrightarrow> length t \<le> length s"
  by (auto simp: scan_sign_def split: list.splits if_splits)

lemma scan_exp_shorter: "scan_exp s = Some (ds, t) \<Longrightarrow> length t \<le> length s"
  by (auto simp: scan_exp_def prepend_eq_Some dest!: scan_digits_shorter scan_sign_shorter
      split: list.splits if_splits prod.splits)

lemma scan_number_shorter: "scan_number s = Some (l, t) \<Longrightarrow> length t < length s"
  by (fastforce simp: scan_number_def prepend_eq_Some split: prod.splits option.splits
      dest: scan_sign_shorter scan_int_shorter scan_frac_shorter scan_exp_shorter)

lemma scan_key_shorter: "scan_key s = Some (k, t) \<Longrightarrow> length t < length s"
proof -
  assume "scan_key s = Some (k, t)"
  then obtain u s2 s3 where "s = DQ # u" and "\<exists>k'. scan_string u = Some (k', s2)"
    and "cut_prefix (skip_ws s2) '':'' = Some s3" and "t = skip_ws s3"
    by (auto simp: scan_key_def cut_prefix_Some_iff split: option.splits)
  then show ?thesis
    using scan_string_shorter cut_prefix_shorter [of "skip_ws s2"] length_skip_ws [of s2]
      length_skip_ws [of s3] by fastforce
qed

lemma parse_shorter:
  "parse_value f n d s = Some (v, t) \<Longrightarrow> length t < length s"
  "parse_elems f n d s = Some (vs, t) \<Longrightarrow> length t < length s"
  "parse_members f n d s = Some (kvs, t) \<Longrightarrow> length t < length s"
proof (induction f n d s and f n d s and f n d s arbitrary: v t and vs t and kvs t
    rule: parse_value_parse_elems_parse_members.induct)
  case (2 f n d s)
  from "2.prems" obtain c r where s: "s = c # r" by (cases s) auto
  show ?case
    using "2.prems" "2.IH" [OF s] length_skip_ws [of r]
    by (fastforce simp: s split: if_splits option.splits
        dest: cut_prefix_shorter scan_string_shorter scan_number_shorter)
next
  case (4 f n d s)
  from "4.prems" obtain v r where v: "parse_value f n d s = Some (v, r)"
    by (auto split: option.splits)
  with "4.prems" obtain c t1 where t1: "skip_ws r = c # t1"
    by (auto split: list.splits)
  have "length r < length s" using "4.IH"(1) [OF v] .
  with t1 length_skip_ws [of r] have "length t1 < length s" by simp
  with "4.prems" "4.IH"(2) [OF v refl t1] length_skip_ws [of t1] show ?case
    by (fastforce simp: v t1 split: if_splits)
next
  case (6 f n d s)
  from "6.prems" obtain k s3 where k: "scan_key s = Some (k, s3)"
    by (auto split: option.splits)
  with "6.prems" obtain v r where v: "parse_value f n d s3 = Some (v, r)"
    by (auto split: option.splits)
  with k "6.prems" obtain c t1 where t1: "skip_ws r = c # t1"
    by (auto split: list.splits)
  have "length r < length s" using "6.IH"(1) [OF k refl v] scan_key_shorter [OF k] by simp
  with length_skip_ws [of r] t1 have "length t1 < length s" by simp
  with "6.prems" "6.IH"(2) [OF k refl v refl t1] length_skip_ws [of t1] show ?case
    by (fastforce simp: k v t1 split: if_splits)
qed simp_all

section \<open>Enough fuel\<close>

text \<open>
  Every recursive call of the parser works on what is left of the input, so twice the length of
  the input bounds the recursion: with at least that much fuel the result is the same.
\<close>

lemma parse_fuel:
  "2 * length s < n \<Longrightarrow> 2 * length s < m \<Longrightarrow> parse_value f n d s = parse_value f m d s"
  "2 * length s + 1 < n \<Longrightarrow> 2 * length s + 1 < m \<Longrightarrow> parse_elems f n d s = parse_elems f m d s"
  "2 * length s + 1 < n \<Longrightarrow> 2 * length s + 1 < m \<Longrightarrow> parse_members f n d s = parse_members f m d s"
proof (induction f n d s and f n d s and f n d s arbitrary: m and m and m
    rule: parse_value_parse_elems_parse_members.induct)
  case (2 f n d s)
  from "2.prems" obtain m' where m: "m = Suc m'" by (cases m) auto
  show ?case
  proof (cases s)
    case (Cons c r)
    have b: "2 * length (skip_ws r) + 1 < n" "2 * length (skip_ws r) + 1 < m'"
      using "2.prems" length_skip_ws [of r] by (simp_all add: Cons m)
    show ?thesis
      using "2.IH"(1) [OF Cons _ _ _ b] "2.IH"(2) [OF Cons _ _ _ _ b]
      by (simp add: Cons m split: option.split)
  qed (simp add: m)
next
  case (4 f n d s)
  from "4.prems" obtain m' where m: "m = Suc m'" by (cases m) auto
  have v: "parse_value f n d s = parse_value f m' d s"
    using "4.IH"(1) [of m'] "4.prems" m by simp
  show ?case
  proof (cases "parse_value f m' d s")
    case (Some vr)
    obtain w r where vr: "vr = (w, r)" by (cases vr)
    note v' = v [unfolded Some vr]
    show ?thesis
    proof (cases "skip_ws r")
      case (Cons c t)
      have "length t < length s"
        using parse_shorter(1) [OF v'] length_skip_ws [of r] Cons by simp
      then have b: "2 * length (skip_ws t) + 1 < n" "2 * length (skip_ws t) + 1 < m'"
        using "4.prems" length_skip_ws [of t] m by simp_all
      show ?thesis
        using "4.IH"(2) [OF v' refl Cons _ _ b] v' Some by (simp add: vr m Cons)
    qed (use v' Some in \<open>simp add: vr m\<close>)
  qed (use v in \<open>simp add: m\<close>)
next
  case (6 f n d s)
  from "6.prems" obtain m' where m: "m = Suc m'" by (cases m) auto
  show ?case
  proof (cases "scan_key s")
    case k0: (Some ks)
    obtain k s3 where k: "scan_key s = Some (k, s3)" using k0 by (cases ks) auto
    have v: "parse_value f n d s3 = parse_value f m' d s3"
      using "6.IH"(1) [OF k refl, of m'] "6.prems" m scan_key_shorter [OF k] by simp
    show ?thesis
    proof (cases "parse_value f m' d s3")
      case (Some vr)
      obtain w r where vr: "vr = (w, r)" by (cases vr)
      note v' = v [unfolded Some vr]
      show ?thesis
      proof (cases "skip_ws r")
        case (Cons c t)
        have "length t < length s"
          using parse_shorter(1) [OF v'] scan_key_shorter [OF k] length_skip_ws [of r] Cons by simp
        then have b: "2 * length (skip_ws t) + 1 < n" "2 * length (skip_ws t) + 1 < m'"
          using "6.prems" length_skip_ws [of t] m by simp_all
        show ?thesis
          using "6.IH"(2) [OF k refl v' refl Cons _ _ b] v' Some k by (simp add: vr m Cons)
      qed (use v' Some k in \<open>simp add: vr m\<close>)
    qed (use v k in \<open>simp add: m\<close>)
  qed (simp add: m)
qed simp_all

section \<open>Parsing what was printed\<close>

text \<open>What may follow a value inside a document, or its end.\<close>

definition delim :: "string \<Rightarrow> bool" where
  "delim x \<longleftrightarrow> (case x of [] \<Rightarrow> True | c # _ \<Rightarrow> is_ws c \<or> c \<in> {CHR '','', CHR '']'', CHR ''}''})"

lemma delim_Cons: "delim (c # x) \<longleftrightarrow> is_ws c \<or> c \<in> {CHR '','', CHR '']'', CHR ''}''}"
  by (simp add: delim_def)

lemma delim_no_number:
  assumes "delim (c # x)"
  shows "\<not> is_digit c" "c \<notin> set ''+-.eE0''"
proof -
  have "c \<in> {CHR 0x20, CHR 0x09, CHR 0x0A, CHR 0x0D, CHR '','', CHR '']'', CHR ''}''}"
    using assms by (auto simp: delim_Cons is_ws_def)
  then show "\<not> is_digit c" "c \<notin> set ''+-.eE0''"
    by (auto simp: is_digit_def)
qed

abbreviation more :: "string \<Rightarrow> 'a \<times> string \<Rightarrow> 'a \<times> string" where
  "more x \<equiv> map_prod id (\<lambda>t. t @ x)"

lemma map_option_more_prepend [simp]:
  "map_option (more x) (prepend p y) = prepend p (map_option (more x) y)"
  by (cases y) (auto simp: prepend_def)

lemma more_Nil [simp]: "map_prod id (\<lambda>t. t) = id"
  by auto

lemma span_digits_append: "delim x \<Longrightarrow> span_digits (s @ x) = more x (span_digits s)"
proof (induction s)
  case Nil
  then show ?case by (cases x) (auto dest: delim_no_number)
qed (auto split: prod.split)

lemma scan_digits_append: "delim x \<Longrightarrow> scan_digits (s @ x) = map_option (more x) (scan_digits s)"
  by (auto simp: scan_digits_def span_digits_append split: prod.split list.split)

lemma scan_int_append: "delim x \<Longrightarrow> scan_int (s @ x) = map_option (more x) (scan_int s)"
  using scan_digits_append [of x "[]"] scan_digits_append [of x s]
  by (cases s; cases x) (auto simp: scan_int_def scan_digits_def dest: delim_no_number)

lemma scan_frac_append: "delim x \<Longrightarrow> scan_frac (s @ x) = map_option (more x) (scan_frac s)"
  by (cases s; cases x) (auto simp: scan_frac_def scan_digits_append option.map_id dest: delim_no_number)

lemma scan_sign_append: "delim x \<Longrightarrow> set cs \<subseteq> set ''+-'' \<Longrightarrow> scan_sign cs (s @ x) = more x (scan_sign cs s)"
  using delim_no_number(2) by (cases s; cases x) (fastforce simp: scan_sign_def)+

lemma scan_exp_append: "delim x \<Longrightarrow> scan_exp (s @ x) = map_option (more x) (scan_exp s)"
proof (cases s)
  case Nil
  then show "delim x \<Longrightarrow> ?thesis" by (cases x) (auto simp: scan_exp_def dest: delim_no_number)
next
  case (Cons c r)
  assume x: "delim x"
  show ?thesis
    using scan_sign_append [OF x, of "''+-''" r] scan_digits_append [OF x]
    by (auto simp: Cons scan_exp_def split: prod.split)
qed

lemma scan_number_append: "delim x \<Longrightarrow> scan_number (s @ x) = map_option (more x) (scan_number s)"
  by (auto simp: scan_number_def scan_sign_append scan_int_append scan_frac_append scan_exp_append
      split: prod.split option.split)

lemma is_number_append: "is_number t \<Longrightarrow> delim x \<Longrightarrow> scan_number (t @ x) = Some (t, x)"
  by (simp add: is_number_def scan_number_append)

lemma is_number_start:
  assumes "is_number t"
  obtains c r where "t = c # r" and "c = CHR ''-'' \<or> is_digit c"
proof -
  have int: "\<exists>c r. s = c # r \<and> is_digit c" if "scan_int s = Some (u, v)" for s u v
    using that by (auto simp: scan_int_def scan_digits_def is_digit_def split: list.splits if_splits prod.splits)
  show ?thesis
  proof (cases t)
    case (Cons c r)
    then show ?thesis
      using assms int [of t] that
      by (fastforce simp: is_number_def scan_number_def scan_sign_def split: if_splits option.splits)
  qed (use assms in \<open>simp add: is_number_def scan_number_def scan_sign_def scan_int_def\<close>)
qed


lemma json_print_start:
  assumes "json_ok f d v"
  obtains c r where "json_print v = c # r" and "\<not> is_ws c" and "c \<notin> {CHR '']'', CHR ''}'', CHR '',''}"
proof -
  have "\<exists>c r. json_print v = c # r \<and> \<not> is_ws c \<and> c \<notin> {CHR '']'', CHR ''}'', CHR '',''}"
  proof (cases v)
    case (JNum t)
    then have "is_number t" using assms by simp
    then obtain c r where "t = c # r" "c = CHR ''-'' \<or> is_digit c" by (rule is_number_start)
    then show ?thesis using JNum by (auto simp: is_ws_def is_digit_def)
  qed (auto simp: is_ws_def quote_def)
  then show ?thesis using that by blast
qed

lemma skip_ws_print: "json_ok f d v \<Longrightarrow> skip_ws (json_print v @ r) = json_print v @ r"
  by (erule json_print_start) simp

lemma scan_key_print:
  assumes "utf8_ok k" and "skip_ws r = r"
  shows "scan_key (quote k @ CHR '':'' # r) = Some (k, r)"
proof -
  have "cut_prefix (CHR '':'' # r) '':'' = Some r"
    using cut_prefix_append [of "'':''" r] by simp
  then show ?thesis
    using assms cut_prefix_append [of "[DQ]" "escape k @ DQ # CHR '':'' # r"]
    by (simp add: scan_key_def quote_def scan_string_escape unquote_escape_id is_ws_def)
qed

definition reads :: "(string \<Rightarrow> string option) \<Rightarrow> nat \<Rightarrow> json \<Rightarrow> bool" where
  "reads f d v \<longleftrightarrow> (\<forall>rest n. delim rest \<longrightarrow> 2 * length (json_print v @ rest) < n \<longrightarrow>
     parse_value f n d (json_print v @ rest) = Some (v, rest))"

lemma readsD: "reads f d v \<Longrightarrow> delim rest \<Longrightarrow> 2 * length (json_print v @ rest) < n \<Longrightarrow>
  parse_value f n d (json_print v @ rest) = Some (v, rest)"
  unfolding reads_def by blast

lemma parse_elems_print:
  assumes "\<And>v. v \<in> set vs \<Longrightarrow> reads f d v" and "\<And>v. v \<in> set vs \<Longrightarrow> json_ok f d v" and "vs \<noteq> []"
    and "2 * length (commas (map json_print vs) @ CHR '']'' # rest) + 1 < n"
  shows "parse_elems f n d (commas (map json_print vs) @ CHR '']'' # rest) = Some (vs, rest)"
  using assms
proof (induction vs arbitrary: n rule: induct_list012)
  case (2 v)
  then obtain m where n: "n = Suc m" by (cases n) auto
  have "parse_value f m d (json_print v @ CHR '']'' # rest) = Some (v, CHR '']'' # rest)"
    using "2.prems" n by (intro readsD) (auto simp: delim_Cons)
  then show ?case by (simp add: n is_ws_def)
next
  case (3 v w vs)
  then obtain m where n: "n = Suc m" by (cases n) auto
  let ?r = "commas (map json_print (w # vs)) @ CHR '']'' # rest"
  have v: "parse_value f m d (json_print v @ CHR '','' # ?r) = Some (v, CHR '','' # ?r)"
    using "3.prems" n by (intro readsD) (auto simp: delim_Cons)
  have "parse_elems f m d ?r = Some (w # vs, rest)"
    using "3.prems" n by (intro "3.IH"(2)) auto
  moreover have "skip_ws ?r = ?r"
    using skip_ws_print [of f d w] "3.prems"(2) [of w] by (cases vs) auto
  ultimately show ?case using v by (simp add: n is_ws_def)
qed simp

abbreviation print_member :: "string \<times> json \<Rightarrow> string" where
  "print_member e \<equiv> (case e of (k, v) \<Rightarrow> quote k @ CHR '':'' # json_print v)"

lemma parse_members_print:
  assumes "\<And>k v. (k, v) \<in> set kvs \<Longrightarrow> reads f d v"
    and "\<And>k v. (k, v) \<in> set kvs \<Longrightarrow> utf8_ok k \<and> json_ok f d v" and "kvs \<noteq> []"
    and "2 * length (commas (map print_member kvs) @ CHR ''}'' # rest) + 1 < n"
  shows "parse_members f n d (commas (map print_member kvs) @ CHR ''}'' # rest) = Some (kvs, rest)"
  using assms
proof (induction kvs arbitrary: n rule: induct_list012)
  case (2 e)
  obtain k v where e: "e = (k, v)" by (cases e)
  from 2 obtain m where n: "n = Suc m" by (cases n) auto
  have "parse_value f m d (json_print v @ CHR ''}'' # rest) = Some (v, CHR ''}'' # rest)"
    using "2.prems" n e by (intro readsD) (auto simp: delim_Cons)
  moreover have "scan_key (quote k @ CHR '':'' # json_print v @ CHR ''}'' # rest)
      = Some (k, json_print v @ CHR ''}'' # rest)"
    using "2.prems"(2) [of k v] e by (intro scan_key_print skip_ws_print) auto
  ultimately show ?case by (simp add: n e is_ws_def)
next
  case (3 e e' kvs)
  obtain k v where e: "e = (k, v)" by (cases e)
  from 3 obtain m where n: "n = Suc m" by (cases n) auto
  let ?r = "commas (map print_member (e' # kvs)) @ CHR ''}'' # rest"
  have v: "parse_value f m d (json_print v @ CHR '','' # ?r) = Some (v, CHR '','' # ?r)"
    using "3.prems" n e by (intro readsD) (auto simp: delim_Cons)
  have k: "scan_key (quote k @ CHR '':'' # json_print v @ CHR '','' # ?r)
      = Some (k, json_print v @ CHR '','' # ?r)"
    using "3.prems"(2) [of k v] e by (intro scan_key_print skip_ws_print) auto
  have "parse_members f m d ?r = Some (e' # kvs, rest)"
    using "3.prems" n e by (intro "3.IH"(2)) auto
  moreover have "skip_ws ?r = ?r"
    by (cases kvs; cases e') (simp_all add: quote_def is_ws_def)
  ultimately show ?case using v k by (simp add: n e is_ws_def)
qed simp


lemma json_reads: "json_ok f d v \<Longrightarrow> reads f d v"
proof (induction v arbitrary: d)
  case (JNum t)
  then obtain c r where t: "t = c # r" "c = CHR ''-'' \<or> is_digit c"
    using is_number_start by auto
  then have "c \<notin> {CHR ''{'', CHR ''['', DQ, CHR ''t'', CHR ''f'', CHR ''n''}"
    by (auto simp: is_digit_def)
  then have "parse_value f (Suc m) d (t @ x) = Some (JNum t, x)" if "delim x" for x m
    using JNum t(1) is_number_append [of t, OF _ that] by simp
  then show ?case
    unfolding reads_def by (metis json_print.simps(3) less_nat_zero_code not0_implies_Suc)
next
  case (JStr u)
  then have "parse_value f (Suc m) d (json_print (JStr u) @ x) = Some (JStr u, x)" for x m
    by (simp add: quote_def scan_string_escape unquote_escape_id)
  then show ?case
    unfolding reads_def by (metis less_nat_zero_code not0_implies_Suc)
next
  case (JArr vs)
  have "parse_value f n d (json_print (JArr vs) @ rest) = Some (JArr vs, rest)"
    if x: "delim rest" "2 * length (json_print (JArr vs) @ rest) < n" for rest n
  proof (cases "vs = []")
    case True
    then show ?thesis using that JArr.prems cut_prefix_append [of "'']''" rest]
      by (cases n) (auto simp: is_ws_def)
  next
    case False
    obtain m where n: "n = Suc m" using x by (cases n) auto
    let ?s = "commas (map json_print vs) @ CHR '']'' # rest"
    have elems: "parse_elems f m (d - 1) ?s = Some (vs, rest)"
      using JArr x n False by (intro parse_elems_print) auto
    from False obtain v vs' where vs: "vs = v # vs'" by (cases vs) auto
    have "json_ok f (d - 1) v" using JArr.prems by (simp add: vs)
    then obtain c r where c: "json_print v = c # r" "\<not> is_ws c" "c \<noteq> CHR '']''"
      by (rule json_print_start) simp
    then obtain r' where s: "?s = c # r'" by (cases vs') (auto simp: vs)
    have "skip_ws ?s = ?s" and "cut_prefix ?s '']'' = None"
      using c(2,3) unfolding s by (auto simp: cut_prefix_None_iff)
    then show ?thesis using elems JArr.prems by (simp add: n)
  qed
  then show ?case by (simp add: reads_def)
next
  case (JObj kvs)
  have "parse_value f n d (json_print (JObj kvs) @ rest) = Some (JObj kvs, rest)"
    if x: "delim rest" "2 * length (json_print (JObj kvs) @ rest) < n" for rest n
  proof (cases "kvs = []")
    case True
    then show ?thesis using that JObj.prems cut_prefix_append [of "''}''" rest]
      by (cases n) (auto simp: is_ws_def)
  next
    case False
    obtain m where n: "n = Suc m" using x by (cases n) auto
    let ?s = "commas (map print_member kvs) @ CHR ''}'' # rest"
    have members: "parse_members f m (d - 1) ?s = Some (kvs, rest)"
      using JObj x n False by (intro parse_members_print) (auto intro: JObj.IH)
    obtain r' where s: "?s = DQ # r'" using False
      by (cases "map print_member kvs" rule: commas.cases) (auto simp: quote_def)
    have "skip_ws ?s = ?s" and "cut_prefix ?s ''}'' = None"
      unfolding s by (auto simp: cut_prefix_None_iff is_ws_def)
    then show ?thesis using members JObj.prems by (simp add: n map_puts_ordered)
  qed
  then show ?case by (simp add: reads_def)
next
  case JNull
  have "parse_value f (Suc m) d (json_print JNull @ x) = Some (JNull, x)" for x m
    using cut_prefix_append [of "''null''" x] by simp
  then show ?case
    unfolding reads_def by (metis less_nat_zero_code not0_implies_Suc)
next
  case (JBool b)
  have "parse_value f (Suc m) d (json_print (JBool b) @ x) = Some (JBool b, x)" for x m
    using cut_prefix_append [of "''true''" x] cut_prefix_append [of "''false''" x]
    by (cases b) simp_all
  then show ?case
    unfolding reads_def by (metis less_nat_zero_code not0_implies_Suc)
qed

lemma json_prefix_print:
  assumes "json_ok f max_depth v" and "delim rest"
  shows "json_prefix f (json_print v @ rest) = Some (v, rest)"
  using readsD [OF json_reads [OF assms(1)] assms(2)] skip_ws_print [OF assms(1)]
  unfolding json_prefix_def fuel_for_def by (metis less_add_one)

lemma json_parse_print: "json_ok f max_depth v \<Longrightarrow> json_parse f (json_print v) = Some v"
  using json_prefix_print [of f v "[]"] by (simp add: json_parse_def delim_def)

section \<open>What the parser builds\<close>

lemma scan_key_utf8: "scan_key s = Some (k, r) \<Longrightarrow> utf8_ok k"
  by (auto simp: scan_key_def utf8_ok_unquote split: option.splits)

lemma parse_json_ok:
  assumes "number_codec f"
  shows "parse_value f n d s = Some (v, t) \<Longrightarrow> json_ok f d v"
    and "parse_elems f n d s = Some (vs, t) \<Longrightarrow> \<forall>v \<in> set vs. json_ok f d v"
    and "parse_members f n d s = Some (kvs, t) \<Longrightarrow> \<forall>(k, v) \<in> set kvs. utf8_ok k \<and> json_ok f d v"
  using assms
proof (induction f n d s and f n d s and f n d s arbitrary: v t and vs t and kvs t
    rule: parse_value_parse_elems_parse_members.induct)
  case (2 f n d s)
  from "2.prems" obtain c r where s: "s = c # r" by (cases s) auto
  have o: "ordered (map_puts [] kvs)" for kvs :: "(string \<times> json) list"
    by (simp add: ordered_map_puts)
  have m: "\<forall>(k, v) \<in> set (map_puts [] kvs). utf8_ok k \<and> json_ok f (d - 1) v"
    if "\<forall>(k, v) \<in> set kvs. utf8_ok k \<and> json_ok f (d - 1) v" for kvs
    using that set_map_puts [of "[]" kvs] by fastforce
  show ?case
    using "2.prems" "2.IH" [OF s]
    by (auto simp: s o utf8_ok_unquote number_codec_def split: if_splits option.splits)
      (use m in fastforce)+
next
  case (4 f n d s)
  from "4.prems" obtain v r where v: "parse_value f n d s = Some (v, r)"
    by (auto split: option.splits)
  with "4.prems" obtain c t1 where t1: "skip_ws r = c # t1"
    by (auto split: list.splits)
  from "4.prems" "4.IH"(1) [OF v] "4.IH"(2) [OF v refl t1] show ?case
    by (fastforce simp: v t1 split: if_splits)
next
  case (6 f n d s)
  from "6.prems" obtain k s3 where k: "scan_key s = Some (k, s3)"
    by (auto split: option.splits)
  with "6.prems" obtain v r where v: "parse_value f n d s3 = Some (v, r)"
    by (auto split: option.splits)
  with k "6.prems" obtain c t1 where t1: "skip_ws r = c # t1"
    by (auto split: list.splits)
  from "6.prems" "6.IH"(1) [OF k refl v] "6.IH"(2) [OF k refl v refl t1] scan_key_utf8 [OF k] show ?case
    by (fastforce simp: k v t1 split: if_splits)
qed simp_all

lemma json_parse_ok: "number_codec f \<Longrightarrow> json_parse f s = Some v \<Longrightarrow> json_ok f max_depth v"
  by (auto simp: json_parse_def json_prefix_def dest: parse_json_ok(1) split: option.splits if_splits)

lemma json_parse_reprint:
  "number_codec f \<Longrightarrow> json_parse f s = Some v \<Longrightarrow> json_parse f (json_print v) = Some v"
  by (blast intro: json_parse_print json_parse_ok)

text \<open>
  The equations of the parser and of its entry points, for evaluating it on a concrete text; they
  are not in the simpset, where they would unfold on every symbolic one.
\<close>

declare parse_value.simps [simp del] parse_elems.simps [simp del] parse_members.simps [simp del]

lemmas parse_eval = parse_value.simps parse_elems.simps parse_members.simps
  json_prefix_def json_parse_def fuel_for_def scan_key_def cut_prefix_def is_ws_def

end
