(* ===== verification/Json_Struct.thy ===== *)
theory Json_Struct
  imports Json_Value
begin

text \<open>
  Decoding into Go structs and printing them: the parts of \<^verbatim>\<open>encoding/json\<close> that depend on the
  target type. A decoder takes the raw text of a value and the old value of the target and gives the
  new value, or \<open>None\<close> when \<^verbatim>\<open>Unmarshal\<close> returns an error (every caller drops the target then).

  \<^item> Struct fields are matched case-insensitively (\<open>fold_name\<close>), a later duplicate decodes over an
    earlier one, unknown members are skipped, and \<^verbatim>\<open>null\<close> leaves a struct, string, bool or integer
    as it was.
  \<^item> A \<^verbatim>\<open>RawMessage\<close> keeps the raw text; \<open>[]\<close> is the nil message.
  \<^item> A slice is its backing array and how much of it is visible: decoding over a slice decodes over
    the elements that are there.
\<close>

section \<open>Raw members and elements\<close>

text \<open>The text between two positions of the input, given as the rest at each of them.\<close>

definition raw_between :: "string \<Rightarrow> string \<Rightarrow> string" where
  "raw_between s r = take (length s - length r) s"

fun split_members :: "nat \<Rightarrow> string \<Rightarrow> (string \<times> string) list option" where
  "split_members 0 s = None"
| "split_members (Suc n) s =
    (case scan_key s of None \<Rightarrow> None
     | Some (k, s3) \<Rightarrow>
       (case parse_value Some (fuel_for s3) max_depth s3 of None \<Rightarrow> None
        | Some (v, r) \<Rightarrow>
          (case skip_ws r of [] \<Rightarrow> None
           | c # t \<Rightarrow>
             if c = CHR ''}'' then Some [(k, raw_between s3 r)]
             else map_option ((#) (k, raw_between s3 r)) (split_members n (skip_ws t)))))"

fun split_elems :: "nat \<Rightarrow> string \<Rightarrow> string list option" where
  "split_elems 0 s = None"
| "split_elems (Suc n) s =
    (case parse_value Some (fuel_for s) max_depth s of None \<Rightarrow> None
     | Some (v, r) \<Rightarrow>
       (case skip_ws r of [] \<Rightarrow> None
        | c # t \<Rightarrow>
          if c = CHR '']'' then Some [raw_between s r]
          else map_option ((#) (raw_between s r)) (split_elems n (skip_ws t))))"

text \<open>
  The members of an object and the elements of an array, when the value is one. The text has passed
  the syntax check (\<^verbatim>\<open>checkValid\<close>) before, so \<open>None\<close> means that the value is of another kind.
\<close>

definition raw_members :: "string \<Rightarrow> (string \<times> string) list option" where
  "raw_members s =
    (case cut_prefix s ''{'' of None \<Rightarrow> None
     | Some r \<Rightarrow>
       if cut_prefix (skip_ws r) ''}'' \<noteq> None then Some []
       else split_members (length s) (skip_ws r))"

definition raw_elems :: "string \<Rightarrow> string list option" where
  "raw_elems s =
    (case cut_prefix s ''['' of None \<Rightarrow> None
     | Some r \<Rightarrow>
       if cut_prefix (skip_ws r) '']'' \<noteq> None then Some []
       else split_elems (length s) (skip_ws r))"

section \<open>Decoders\<close>

type_synonym 'a decoder = "string \<Rightarrow> 'a \<Rightarrow> 'a option"

definition is_null :: "string \<Rightarrow> bool" where
  "is_null s \<longleftrightarrow> s = ''null''"

definition upper :: "char \<Rightarrow> char" where
  "upper c = (if 97 \<le> code c \<and> code c \<le> 122 then char_of (code c - 32) else c)"

text \<open>
  \<^verbatim>\<open>foldName\<close>, up to characters that fold to no ASCII letter: besides the ASCII letters, the long s
  (U+017F) and the Kelvin sign (U+212A) fold to letters of ASCII.
\<close>

fun fold_name :: "string \<Rightarrow> string" where
  "fold_name [] = []"
| "fold_name (c # r) =
    (if c = CHR 0xC5 \<and> take 1 r = [CHR 0xBF] then CHR ''S'' # fold_name (drop 1 r)
     else if c = CHR 0xE2 \<and> take 2 r = [CHR 0x84, CHR 0xAA] then CHR ''K'' # fold_name (drop 2 r)
     else upper c # fold_name r)"

definition dec_string :: "string decoder" where
  "dec_string s old =
    (if is_null s then Some old
     else case cut_prefix s [DQ] of None \<Rightarrow> None | Some r \<Rightarrow> map_option (unquote \<circ> fst) (scan_string r))"

definition dec_bool :: "bool decoder" where
  "dec_bool s old =
    (if is_null s then Some old else if s = ''true'' then Some True
     else if s = ''false'' then Some False else None)"

definition dec_value :: "string \<Rightarrow> int" where
  "dec_value s = foldl (\<lambda>a c. 10 * a + int (digit_val c)) 0 s"

definition int_literal :: "string \<Rightarrow> int option" where
  "int_literal s =
    (case s of [] \<Rightarrow> None
     | c # r \<Rightarrow>
       if c = CHR ''-'' then (if r \<noteq> [] \<and> list_all is_digit r then Some (- dec_value r) else None)
       else if list_all is_digit s then Some (dec_value s) else None)"

text \<open>Signed integers of the width of the target: a literal out of its range is an error.\<close>

definition dec_word :: "('w::len) word decoder" where
  "dec_word s old =
    (if is_null s then Some old
     else case int_literal s of None \<Rightarrow> None
     | Some i \<Rightarrow>
       if - (2 ^ (LENGTH('w) - 1)) \<le> i \<and> i < 2 ^ (LENGTH('w) - 1) then Some (word_of_int i) else None)"

definition dec_raw :: "string decoder" where
  "dec_raw s old = Some s"

definition dec_ptr :: "'a decoder \<Rightarrow> 'a \<Rightarrow> 'a option decoder" where
  "dec_ptr d zero s old =
    (if is_null s then Some None
     else map_option Some (d s (case old of None \<Rightarrow> zero | Some x \<Rightarrow> x)))"

text \<open>A \<^verbatim>\<open>map[string]any\<close>: \<open>None\<close> is the nil map; an object adds its members to the map.\<close>

type_synonym json_map = "(string \<times> json) list option"

definition dec_map :: "(string \<Rightarrow> string option) \<Rightarrow> json_map decoder" where
  "dec_map f64 s old =
    (if is_null s then Some None
     else case json_parse f64 s of
       Some (JObj kvs) \<Rightarrow> Some (Some (map_puts (case old of None \<Rightarrow> [] | Some m \<Rightarrow> m) kvs))
     | _ \<Rightarrow> None)"

definition dec_struct :: "(string \<Rightarrow> string \<Rightarrow> 's \<Rightarrow> 's option) \<Rightarrow> 's decoder" where
  "dec_struct field s old =
    (if is_null s then Some old
     else case raw_members s of None \<Rightarrow> None
     | Some kvs \<Rightarrow> foldl (\<lambda>a (k, raw). case a of None \<Rightarrow> None | Some x \<Rightarrow> field (fold_name k) raw x)
         (Some old) kvs)"

text \<open>A slice: the backing array, and the visible length (\<open>None\<close> for a nil slice).\<close>

record 'a slice =
  backing :: "'a list"
  visible :: "nat option"

definition nil_slice :: "'a slice" where
  "nil_slice = \<lparr>backing = [], visible = None\<rparr>"

definition slice_list :: "'a slice \<Rightarrow> 'a list" where
  "slice_list x = (case visible x of None \<Rightarrow> [] | Some n \<Rightarrow> take n (backing x))"

definition to_slice :: "'a list \<Rightarrow> 'a slice" where
  "to_slice xs = \<lparr>backing = xs, visible = Some (length xs)\<rparr>"

fun dec_elems :: "'a decoder \<Rightarrow> 'a \<Rightarrow> string list \<Rightarrow> 'a list \<Rightarrow> 'a list option" where
  "dec_elems d zero [] old = Some old"
| "dec_elems d zero (s # ss) old =
    (case d s (case old of [] \<Rightarrow> zero | x # _ \<Rightarrow> x) of None \<Rightarrow> None
     | Some y \<Rightarrow> map_option ((#) y) (dec_elems d zero ss (tl old)))"

definition dec_slice :: "'a decoder \<Rightarrow> 'a \<Rightarrow> 'a slice decoder" where
  "dec_slice d zero s old =
    (if is_null s then Some nil_slice
     else case raw_elems s of None \<Rightarrow> None
     | Some [] \<Rightarrow> Some \<lparr>backing = [], visible = Some 0\<rparr>
     | Some ss \<Rightarrow> map_option (\<lambda>b. \<lparr>backing = b, visible = Some (length ss)\<rparr>)
         (dec_elems d zero ss (backing old)))"

section \<open>Entry points\<close>

text \<open>
  \<^verbatim>\<open>Unmarshal\<close> checks the syntax of the whole input, then decodes the value; a \<^verbatim>\<open>Decoder\<close> reads the
  first value of its input.
\<close>

definition decode :: "'a decoder \<Rightarrow> 'a \<Rightarrow> string \<Rightarrow> 'a option" where
  "decode d zero s =
    (case json_prefix Some s of None \<Rightarrow> None
     | Some (v, r) \<Rightarrow> d (raw_between (skip_ws s) r) zero)"

definition unmarshal :: "'a decoder \<Rightarrow> 'a \<Rightarrow> string \<Rightarrow> 'a option" where
  "unmarshal d zero s = (if json_parse Some s = None then None else decode d zero s)"

section \<open>Printing structs\<close>

text \<open>
  \<^verbatim>\<open>appendCompact\<close> with HTML escaping: white space outside strings is dropped, and \<^verbatim>\<open><\<close>, \<^verbatim>\<open>>\<close>, \<^verbatim>\<open>&\<close>,
  U+2028 and U+2029 are escaped. The flag says whether the text starts inside a string.
\<close>

fun compact :: "bool \<Rightarrow> string \<Rightarrow> string" where
  "compact q [] = []"
| "compact q (c # r) =
    (if c = CHR ''<'' \<or> c = CHR ''>'' \<or> c = CHR ''&'' then
       BSL # ''u00'' @ low_hex (code c) @ compact q r
     else if c = CHR 0xE2 \<and> take 2 r = [CHR 0x80, CHR 0xA8] then BSL # ''u2028'' @ compact q (drop 2 r)
     else if c = CHR 0xE2 \<and> take 2 r = [CHR 0x80, CHR 0xA9] then BSL # ''u2029'' @ compact q (drop 2 r)
     else if q \<and> c = BSL then c # take 1 r @ compact q (drop 1 r)
     else if c = DQ then c # compact (\<not> q) r
     else if \<not> q \<and> is_ws c then compact q r
     else c # compact q r)"

definition raw_text :: "string \<Rightarrow> string" where
  "raw_text r = (if r = [] then ''null'' else compact False r)"

text \<open>A raw message that \<^verbatim>\<open>Marshal\<close> accepts: nil, or JSON.\<close>

definition raw_ok :: "string \<Rightarrow> bool" where
  "raw_ok r \<longleftrightarrow> r = [] \<or> json_parse Some r \<noteq> None"

definition object_text :: "(string \<times> string) list \<Rightarrow> string" where
  "object_text ms = CHR ''{'' # commas (map (\<lambda>(k, t). quote k @ CHR '':'' # t) ms) @ ''}''"

definition array_text :: "string list \<Rightarrow> string" where
  "array_text ts = CHR ''['' # commas ts @ '']''"

definition bool_text :: "bool \<Rightarrow> string" where
  "bool_text b = (if b then ''true'' else ''false'')"

definition slice_text :: "('a \<Rightarrow> string) \<Rightarrow> 'a slice \<Rightarrow> string" where
  "slice_text f x =
    (case visible x of None \<Rightarrow> ''null'' | Some n \<Rightarrow> array_text (map f (take n (backing x))))"

text \<open>A member that is left out when its value is empty (\<^verbatim>\<open>omitempty\<close>).\<close>

definition optional :: "bool \<Rightarrow> string \<Rightarrow> string \<Rightarrow> (string \<times> string) list" where
  "optional present k t = (if present then [(k, t)] else [])"

end
