(* ===== verification/Json_Raw.thy ===== *)
theory Json_Raw
  imports Json_Struct
begin

text \<open>
  Raw messages: pieces of a JSON document that are kept as text. \<open>raw_at f d s v\<close> says that \<open>s\<close> is one
  JSON value, without surrounding white space, that nests at most \<open>d\<close> deep and denotes \<open>v\<close>;
  \<open>raw_value d s\<close> leaves the value open. The scanner looks at most one character past a value
  (\<open>parse_value_swap\<close>) and more fuel or depth change no result (\<open>parse_mono\<close>), so the members that decoding
  cuts out of a document are values again (\<open>members_raw_value\<close>), and an object whose members are printed from
  raw values is read back member by member (\<open>dec_struct_raw\<close>). \<open>dec_struct_keeps\<close> carries an invariant of
  a struct through its decoder.
\<close>

section \<open>One character of lookahead\<close>

text \<open>\<open>y\<close> may stand where \<open>t\<close> stood: it ends the value, or it starts with the same character.\<close>

definition same_head :: "string \<Rightarrow> string \<Rightarrow> bool" where
  "same_head y t \<longleftrightarrow> delim y \<or> (y \<noteq> [] \<and> t \<noteq> [] \<and> hd y = hd t)"

lemma delim_Nil [simp]: "delim []"
  by (simp add: delim_def)

lemma same_head_Nil [simp]: "same_head [] t"
  by (simp add: same_head_def)

lemma delim_same_head: "delim y \<Longrightarrow> same_head y t"
  by (simp add: same_head_def)

lemma delim_stop:
  assumes "delim y"
  shows "span_digits y = ([], y)" and "scan_frac y = Some ([], y)" and "scan_exp y = Some ([], y)"
  using span_digits_append [OF assms, of "[]"] scan_frac_append [OF assms, of "[]"] scan_exp_append [OF assms, of "[]"]
  by (simp_all add: scan_frac_def scan_exp_def)

lemma same_head_Cons [simp]: "same_head (c # y) (c # t)"
  by (simp add: same_head_def)

text \<open>What may be seen at the end of a number.\<close>

lemma same_head_Cons_iff: "same_head (b # y) t \<longleftrightarrow> delim (b # y) \<or> (\<exists>u. t = b # u)"
  by (cases t) (auto simp: same_head_def)

lemma same_head_append: "same_head y t \<Longrightarrow> same_head (x @ y) (x @ t)"
  by (cases x) (auto simp: same_head_def)

text \<open>A scanner that has read \<open>x\<close> reads the same before any \<open>y\<close> that starts like what followed.\<close>

definition local_scan :: "(string \<Rightarrow> ('a \<times> string) option) \<Rightarrow> bool" where
  "local_scan f \<longleftrightarrow> (\<forall>s v t. f s = Some (v, t) \<longrightarrow> (\<exists>x. s = x @ t \<and> (\<forall>y. same_head y t \<longrightarrow> f (x @ y) = Some (v, y))))"

lemma local_scanE:
  assumes "local_scan f" and "f s = Some (v, t)"
  obtains x where "s = x @ t" and "\<And>y. same_head y t \<Longrightarrow> f (x @ y) = Some (v, y)"
  using assms unfolding local_scan_def by blast

lemma span_digits_swap:
  "span_digits s = (ds, t) \<Longrightarrow> s = ds @ t \<and> (\<forall>y. same_head y t \<longrightarrow> span_digits (ds @ y) = (ds, y))"
proof (induction s arbitrary: ds)
  case Nil
  then show ?case by (auto simp: same_head_def delim_stop)
next
  case (Cons c r)
  show ?case
  proof (cases "is_digit c")
    case True
    then obtain ds' where ds: "span_digits r = (ds', t)" "ds = c # ds'"
      using Cons.prems by (auto split: prod.splits)
    then show ?thesis using Cons.IH [OF ds(1)] True by auto
  next
    case False
    then have "ds = []" "t = c # r" using Cons.prems by simp_all
    then show ?thesis using False by (auto simp: same_head_def neq_Nil_conv delim_stop)
  qed
qed

lemma local_scan_digits: "local_scan scan_digits"
  unfolding local_scan_def
proof (intro allI impI)
  fix s v t
  assume "scan_digits s = Some (v, t)"
  then have "span_digits s = (v, t)" "v \<noteq> []" by (auto simp: scan_digits_def split: prod.splits list.splits)
  with span_digits_swap [OF this(1)] show "\<exists>x. s = x @ t \<and> (\<forall>y. same_head y t \<longrightarrow> scan_digits (x @ y) = Some (v, y))"
    by (intro exI [of _ v]) (auto simp: scan_digits_def split: list.split)
qed

lemma local_scan_int: "local_scan scan_int"
  unfolding local_scan_def
proof (intro allI impI)
  fix s v t
  assume a: "scan_int s = Some (v, t)"
  then obtain c r where s: "s = c # r" by (cases s) (auto simp: scan_int_def)
  show "\<exists>x. s = x @ t \<and> (\<forall>y. same_head y t \<longrightarrow> scan_int (x @ y) = Some (v, y))"
  proof (cases "c = CHR ''0''")
    case True
    then show ?thesis using a s by (intro exI [of _ "[c]"]) (auto simp: scan_int_def)
  next
    case False
    then have d: "scan_digits s = Some (v, t)" using a s by (simp add: scan_int_def)
    obtain x where x: "s = x @ t" "\<And>y. same_head y t \<Longrightarrow> scan_digits (x @ y) = Some (v, y)"
      using local_scanE [OF local_scan_digits d] by blast
    have "x \<noteq> []" using x(1) scan_digits_shorter [OF d] by auto
    then obtain x' where "x = c # x'" using x(1) s by (cases x) auto
    then show ?thesis using x False by (intro exI [of _ x]) (auto simp: scan_int_def)
  qed
qed

lemma local_scan_frac: "local_scan scan_frac"
  unfolding local_scan_def
proof (intro allI impI)
  fix s v t
  assume a: "scan_frac s = Some (v, t)"
  show "\<exists>x. s = x @ t \<and> (\<forall>y. same_head y t \<longrightarrow> scan_frac (x @ y) = Some (v, y))"
  proof (cases "\<exists>r. s = CHR ''.'' # r")
    case True
    then obtain r where s: "s = CHR ''.'' # r" by blast
    then obtain w where w: "scan_digits r = Some (w, t)" "v = CHR ''.'' # w"
      using a by (auto simp: scan_frac_def prepend_eq_Some)
    obtain x where "r = x @ t" "\<And>y. same_head y t \<Longrightarrow> scan_digits (x @ y) = Some (w, y)"
      using local_scanE [OF local_scan_digits w(1)] by blast
    then show ?thesis using s w(2) by (intro exI [of _ "CHR ''.'' # x"]) (auto simp: scan_frac_def)
  next
    case False
    then have "v = []" "t = s" using a by (auto simp: scan_frac_def split: list.splits if_splits)
    have "scan_frac y = Some ([], y)" if "y \<noteq> []" "s \<noteq> []" "hd y = hd s" for y
      using that False by (auto simp: scan_frac_def neq_Nil_conv)
    with \<open>v = []\<close> \<open>t = s\<close> show ?thesis by (intro exI [of _ "[]"]) (auto simp: same_head_def delim_stop)
  qed
qed

lemma scan_sign_swap:
  "scan_sign cs s = (sg, t) \<Longrightarrow> s = sg @ t \<and> (\<forall>y. y \<noteq> [] \<and> t \<noteq> [] \<and> hd y = hd t \<longrightarrow> scan_sign cs (sg @ y) = (sg, y))"
  by (cases s) (auto simp: scan_sign_def split: if_splits list.split)

lemma local_scan_exp: "local_scan scan_exp"
  unfolding local_scan_def
proof (intro allI impI)
  fix s v t
  assume a: "scan_exp s = Some (v, t)"
  show "\<exists>x. s = x @ t \<and> (\<forall>y. same_head y t \<longrightarrow> scan_exp (x @ y) = Some (v, y))"
  proof (cases "\<exists>c r. s = c # r \<and> (c = CHR ''e'' \<or> c = CHR ''E'')")
    case True
    then obtain c r where s: "s = c # r" "c = CHR ''e'' \<or> c = CHR ''E''" by blast
    obtain sg u where sg: "scan_sign ''+-'' r = (sg, u)" by (cases "scan_sign ''+-'' r")
    obtain w where w: "scan_digits u = Some (w, t)" "v = c # sg @ w"
      using a s sg by (auto simp: scan_exp_def prepend_eq_Some)
    obtain x where x: "u = x @ t" "\<And>y. same_head y t \<Longrightarrow> scan_digits (x @ y) = Some (w, y)"
      using local_scanE [OF local_scan_digits w(1)] by blast
    have ne: "x \<noteq> []" using x(1) scan_digits_shorter [OF w(1)] by auto
    have "scan_sign ''+-'' (sg @ x @ y) = (sg, x @ y)" for y
      using scan_sign_swap [OF sg] ne x(1) by (cases x) auto
    then show ?thesis
      using s w(2) x scan_sign_swap [OF sg] by (intro exI [of _ "c # sg @ x"]) (auto simp: scan_exp_def)
  next
    case False
    then have "v = []" "t = s" using a by (auto simp: scan_exp_def split: list.splits if_splits)
    have "scan_exp y = Some ([], y)" if "y \<noteq> []" "s \<noteq> []" "hd y = hd s" for y
      using that False by (auto simp: scan_exp_def neq_Nil_conv)
    with \<open>v = []\<close> \<open>t = s\<close> show ?thesis by (intro exI [of _ "[]"]) (auto simp: same_head_def delim_stop)
  qed
qed

lemma local_scan_number: "local_scan scan_number"
  unfolding local_scan_def
proof (intro allI impI)
  fix s v t
  assume a: "scan_number s = Some (v, t)"
  obtain sg r where sg: "scan_sign ''-'' s = (sg, r)" by (cases "scan_sign ''-'' s")
  from a sg obtain i r1 fr r2 e where i: "scan_int r = Some (i, r1)" and f: "scan_frac r1 = Some (fr, r2)"
    and e: "scan_exp r2 = Some (e, t)" and v: "v = (sg @ i @ fr) @ e"
    by (auto simp: scan_number_def prepend_eq_Some split: option.splits)
  obtain xi where xi: "r = xi @ r1" "\<And>y. same_head y r1 \<Longrightarrow> scan_int (xi @ y) = Some (i, y)"
    using local_scanE [OF local_scan_int i] by blast
  obtain xf where xf: "r1 = xf @ r2" "\<And>y. same_head y r2 \<Longrightarrow> scan_frac (xf @ y) = Some (fr, y)"
    using local_scanE [OF local_scan_frac f] by blast
  obtain xe where xe: "r2 = xe @ t" "\<And>y. same_head y t \<Longrightarrow> scan_exp (xe @ y) = Some (e, y)"
    using local_scanE [OF local_scan_exp e] by blast
  have "xi \<noteq> []" using xi(1) scan_int_shorter [OF i] by auto
  then have "scan_sign ''-'' (sg @ xi @ z) = (sg, xi @ z)" for z
    using scan_sign_swap [OF sg] xi(1) by (cases xi) auto
  moreover have "scan_int (xi @ xf @ xe @ y) = Some (i, xf @ xe @ y)" if "same_head y t" for y
    using that xf(1) xe(1) same_head_append [of y t "xf @ xe"] by (intro xi(2)) simp
  moreover have "scan_frac (xf @ xe @ y) = Some (fr, xe @ y)" if "same_head y t" for y
    using that xe(1) same_head_append [of y t xe] by (intro xf(2)) simp
  ultimately show "\<exists>x. s = x @ t \<and> (\<forall>y. same_head y t \<longrightarrow> scan_number (x @ y) = Some (v, y))"
    using scan_sign_swap [OF sg] xi(1) xf(1) xe v
    by (intro exI [of _ "sg @ xi @ xf @ xe"]) (auto simp: scan_number_def)
qed

text \<open>A string ends with its quote: what follows does not matter.\<close>

lemma scan_string_swap: "scan_string s = Some (u, t) \<Longrightarrow> s = u @ DQ # t \<and> (\<forall>y. scan_string (u @ DQ # y) = Some (u, y))"
proof (induction s arbitrary: u rule: scan_string.induct)
  case (2 c r)
  consider "c = DQ" | (u) r1 w r2 where "c = BSL" "r = CHR ''u'' # r1" "read_u r1 = Some (w, r2)"
    | (esc) e r1 where "c = BSL" "r = e # r1" "e \<noteq> CHR ''u''" "e \<in> set (''bfnrt/'' @ [BSL, DQ])"
    | (plain) "c \<noteq> DQ" "c \<noteq> BSL" "\<not> code c < 32"
    using "2.prems" by (auto split: if_splits list.splits option.splits)
  then show ?case
  proof cases
    case 1
    then show ?thesis using "2.prems" by simp
  next
    case u
    then obtain h1 h2 h3 h4 where r1: "r1 = h1 # h2 # h3 # h4 # r2"
      by (auto simp: read_u_def split: list.splits)
    have ru: "read_u (h1 # h2 # h3 # h4 # z) = Some (w, z)" for z
      using u(3) r1 by (auto simp: read_u_def)
    from "2.prems" u obtain u' where u': "scan_string r2 = Some (u', t)" "u = [c, CHR ''u'', h1, h2, h3, h4] @ u'"
      by (auto simp: prepend_eq_Some r1)
    have "r2 = u' @ DQ # t \<and> (\<forall>y. scan_string (u' @ DQ # y) = Some (u', y))"
      using "2.IH"(1) [OF _ u(1) u(2) refl u(3) refl] u(1) u'(1) by simp
    then show ?thesis using u u'(2) r1 ru by (auto simp del: read_u_def)
  next
    case esc
    then obtain u' where u': "scan_string r1 = Some (u', t)" "u = [c, e] @ u'"
      using "2.prems" by (auto simp: prepend_eq_Some)
    have "r1 = u' @ DQ # t \<and> (\<forall>y. scan_string (u' @ DQ # y) = Some (u', y))"
      using "2.IH"(2) [OF _ esc(1,2,3,4)] esc(1) u'(1) by simp
    then show ?thesis using esc u'(2) by auto
  next
    case plain
    then obtain u' where u': "scan_string r = Some (u', t)" "u = c # u'"
      using "2.prems" by (auto simp: prepend_eq_Some)
    have "r = u' @ DQ # t \<and> (\<forall>y. scan_string (u' @ DQ # y) = Some (u', y))"
      using "2.IH"(3) [OF plain] u'(1) by simp
    then show ?thesis using plain u'(2) by auto
  qed
qed simp

section \<open>One character of lookahead: values\<close>

lemma cut_prefix_char: "cut_prefix (c # r) [b] = (if c = b then Some r else None)"
  by (auto simp: cut_prefix_Some_iff cut_prefix_None_iff)

lemma skip_all_ws: "list_all is_ws w \<Longrightarrow> skip_ws (w @ y) = skip_ws y"
  by (induction w) auto

lemma skip_ws_split: "\<exists>w. s = w @ skip_ws s \<and> list_all is_ws w"
proof (induction s)
  case (Cons c s)
  then obtain w where "s = w @ skip_ws s" "list_all is_ws w" by blast
  then show ?case by (cases "is_ws c") (auto intro: exI [of _ "c # w"] exI [of _ "[]"])
qed simp

lemma skip_ws_head: "skip_ws s = c # r \<Longrightarrow> \<not> is_ws c"
  by (induction s) (auto split: if_splits)

lemma skip_ws_nonws: "\<not> is_ws c \<Longrightarrow> skip_ws (c # y) = c # y"
  by simp

lemma skip_ws_swap:
  assumes "skip_ws s = c # t"
  obtains w where "s = w @ c # t" and "\<And>y. skip_ws (w @ c # y) = c # y" and "list_all is_ws w"
  using skip_ws_split [of s] skip_ws_head [OF assms] assms skip_all_ws by auto

lemma scan_key_swap:
  assumes "scan_key s = Some (k, c # t)"
  obtains x where "s = x @ c # t" and "\<And>y. scan_key (x @ c # y) = Some (k, c # y)"
proof -
  from assms obtain s1 u s2 s3 where s: "s = DQ # s1" and u: "scan_string s1 = Some (u, s2)" and k: "k = unquote u"
    and s3: "skip_ws s2 = CHR '':'' # s3" and t: "skip_ws s3 = c # t"
    by (auto simp: scan_key_def cut_prefix_Some_iff split: option.splits)
  obtain w where w: "s2 = w @ CHR '':'' # s3" "\<And>y. skip_ws (w @ CHR '':'' # y) = CHR '':'' # y"
    using skip_ws_swap [OF s3] by blast
  obtain w' where w': "s3 = w' @ c # t" "\<And>y. skip_ws (w' @ c # y) = c # y"
    using skip_ws_swap [OF t] by blast
  have str: "s1 = u @ DQ # s2" "\<And>y. scan_string (u @ DQ # y) = Some (u, y)"
    using scan_string_swap [OF u] by blast+
  have "scan_key ((DQ # u @ DQ # w @ CHR '':'' # w') @ c # y) = Some (k, c # y)" for y
    using str(2) w(2) w'(2) k by (simp add: scan_key_def cut_prefix_char)
  moreover have "s = (DQ # u @ DQ # w @ CHR '':'' # w') @ c # t" using s str(1) w(1) w'(1) by simp
  ultimately show ?thesis by (rule that [rotated])
qed

text \<open>A value starts with a character that is neither white space nor a delimiter.\<close>

lemma parse_value_start:
  assumes "parse_value f n d s = Some (v, t)"
  obtains c r where "s = c # r" and "\<not> is_ws c" and "c \<notin> {CHR '']'', CHR ''}'', CHR '','', CHR '':''}"
proof (cases n)
  case (Suc m)
  with assms obtain c r where s: "s = c # r" by (cases s) (auto simp: parse_value.simps)
  have num: "c = CHR ''-'' \<or> is_digit c" if "scan_number (c # r) = Some (l, u)" for l u
    using that by (auto simp: scan_number_def scan_sign_def scan_int_def scan_digits_def is_digit_def
        split: option.splits if_splits prod.splits list.splits)
  have "c \<in> {CHR ''{'', CHR ''['', DQ, CHR ''t'', CHR ''f'', CHR ''n''} \<or> c = CHR ''-'' \<or> is_digit c"
    using assms num by (auto simp: s Suc parse_value.simps split: if_splits option.splits)
  then have "\<not> is_ws c" "c \<notin> {CHR '']'', CHR ''}'', CHR '','', CHR '':''}"
    by (auto simp: is_ws_def is_digit_def)
  with s show ?thesis by (rule that)
qed (use assms in \<open>simp add: parse_value.simps\<close>)

lemma same_head_parts: "same_head (w @ c # y) (w @ c # t)"
  by (cases w) simp_all

definition swaps :: "(string \<Rightarrow> ('a \<times> string) option) \<Rightarrow> string \<Rightarrow> 'a \<Rightarrow> string \<Rightarrow> (string \<Rightarrow> bool) \<Rightarrow> bool" where
  "swaps p s v t ok \<longleftrightarrow> (\<exists>x. s = x @ t \<and> (\<forall>y. ok y \<longrightarrow> p (x @ y) = Some (v, y)))"

lemma swapsI: "s = x @ t \<Longrightarrow> (\<And>y. ok y \<Longrightarrow> p (x @ y) = Some (v, y)) \<Longrightarrow> swaps p s v t ok"
  unfolding swaps_def by blast

lemma swapsE:
  assumes "swaps p s v t ok"
  obtains x where "s = x @ t" and "\<And>y. ok y \<Longrightarrow> p (x @ y) = Some (v, y)"
  using assms unfolding swaps_def by blast

lemma parse_head:
  assumes "parse_elems f n d s = Some (vs, t) \<or> parse_members f n d s = Some (kvs, t)"
  obtains c r where "s = c # r" and "\<not> is_ws c" and "c \<noteq> CHR '']''" and "c \<noteq> CHR ''}''"
proof -
  from assms obtain m where n: "n = Suc m" by (cases n) (auto simp: parse_elems.simps parse_members.simps)
  from assms show ?thesis
  proof
    assume "parse_elems f n d s = Some (vs, t)"
    then obtain v r where "parse_value f m d s = Some (v, r)"
      by (auto simp: n parse_elems.simps split: option.splits)
    then show ?thesis by (rule parse_value_start) (rule that, auto)
  next
    assume "parse_members f n d s = Some (kvs, t)"
    then obtain k r where "scan_key s = Some (k, r)"
      by (auto simp: n parse_members.simps split: option.splits)
    then obtain r' where "s = DQ # r'" by (auto simp: scan_key_def cut_prefix_Some_iff split: option.splits)
    then show ?thesis by (rule that) (auto simp: is_ws_def)
  qed
qed

lemma keyword_value:
  "parse_value f (Suc n) d (''true'' @ y) = Some (JBool True, y)"
  "parse_value f (Suc n) d (''false'' @ y) = Some (JBool False, y)"
  "parse_value f (Suc n) d (''null'' @ y) = Some (JNull, y)"
  using cut_prefix_append [of "''true''" y] cut_prefix_append [of "''false''" y] cut_prefix_append [of "''null''" y]
  by (simp_all add: parse_value.simps)

lemma parse_value_swap:
  "parse_value f n d s = Some (v, t) \<Longrightarrow> swaps (parse_value f n d) s v t (\<lambda>y. same_head y t)"
  "parse_elems f n d s = Some (vs, t) \<Longrightarrow> swaps (parse_elems f n d) s vs t (\<lambda>_. True)"
  "parse_members f n d s = Some (kvs, t) \<Longrightarrow> swaps (parse_members f n d) s kvs t (\<lambda>_. True)"
proof (induction f n d s and f n d s and f n d s arbitrary: v t and vs t and kvs t
    rule: parse_value_parse_elems_parse_members.induct)
  case (2 f n d s)
  from "2.prems" obtain c r where s: "s = c # r" by (cases s) (auto simp: parse_value.simps)
  consider (obj) "c = CHR ''{''" | (arr) "c = CHR ''[''" | (str) "c = DQ" | (t) "c = CHR ''t''" | (f) "c = CHR ''f''"
    | (n) "c = CHR ''n''" | (num) "c \<notin> {CHR ''{'', CHR ''['', DQ, CHR ''t'', CHR ''f'', CHR ''n''}"
    by auto
  then show ?case
  proof cases
    case obj
    then have d: "d \<noteq> 0" using "2.prems" by (auto simp: s parse_value.simps split: if_splits)
    show ?thesis
    proof (cases "cut_prefix (skip_ws r) ''}''")
      case (Some u)
      then have u: "v = JObj []" "skip_ws r = CHR ''}'' # t" using "2.prems" d obj
        by (auto simp: s parse_value.simps cut_prefix_Some_iff cut_prefix_char)
      obtain w where w: "r = w @ CHR ''}'' # t" "\<And>y. skip_ws (w @ CHR ''}'' # y) = CHR ''}'' # y"
        using skip_ws_swap [OF u(2)] by blast
      show ?thesis
        by (rule swapsI [of _ "c # w @ ''}''"]) (use s w u d obj in \<open>simp_all add: parse_value.simps cut_prefix_char\<close>)
    next
      case None
      then obtain kvs where kvs: "parse_members f n (d - 1) (skip_ws r) = Some (kvs, t)" "v = JObj (map_puts [] kvs)"
        using "2.prems" d obj by (auto simp: s parse_value.simps)
      from "2.IH"(1) [OF s obj d None kvs(1)] obtain x where
        x: "skip_ws r = x @ t" "\<And>y. parse_members f n (d - 1) (x @ y) = Some (kvs, y)"
        by (auto elim: swapsE)
      obtain b q where b: "x = b # q" "\<not> is_ws b" "b \<noteq> CHR ''}''"
        using parse_head [of f n "d - 1" "x @ []"] x(2) [of "[]"] by (metis append_Nil2)
      obtain w where w: "r = w @ b # q @ t" "\<And>y. skip_ws (w @ b # y) = b # y"
        using skip_ws_swap [of r b "q @ t"] x(1) b(1) by auto
      show ?thesis
        by (rule swapsI [of _ "c # w @ x"])
          (use s w x b d obj kvs in \<open>simp_all add: parse_value.simps cut_prefix_char\<close>)
    qed
  next
    case arr
    then have d: "d \<noteq> 0" using "2.prems" by (auto simp: s parse_value.simps split: if_splits)
    show ?thesis
    proof (cases "cut_prefix (skip_ws r) '']''")
      case (Some u)
      then have u: "v = JArr []" "skip_ws r = CHR '']'' # t" using "2.prems" d arr
        by (auto simp: s parse_value.simps cut_prefix_Some_iff cut_prefix_char)
      obtain w where w: "r = w @ CHR '']'' # t" "\<And>y. skip_ws (w @ CHR '']'' # y) = CHR '']'' # y"
        using skip_ws_swap [OF u(2)] by blast
      show ?thesis
        by (rule swapsI [of _ "c # w @ '']''"]) (use s w u d arr in \<open>simp_all add: parse_value.simps cut_prefix_char\<close>)
    next
      case None
      then obtain vs where vs: "parse_elems f n (d - 1) (skip_ws r) = Some (vs, t)" "v = JArr vs"
        using "2.prems" d arr by (auto simp: s parse_value.simps)
      have "c \<noteq> CHR ''{''" using arr by simp
      from "2.IH"(2) [OF s this arr d None vs(1)] obtain x where
        x: "skip_ws r = x @ t" "\<And>y. parse_elems f n (d - 1) (x @ y) = Some (vs, y)"
        by (auto elim: swapsE)
      obtain b q where b: "x = b # q" "\<not> is_ws b" "b \<noteq> CHR '']''"
        using parse_head [of f n "d - 1" "x @ []"] x(2) [of "[]"] by (metis append_Nil2)
      obtain w where w: "r = w @ b # q @ t" "\<And>y. skip_ws (w @ b # y) = b # y"
        using skip_ws_swap [of r b "q @ t"] x(1) b(1) by auto
      show ?thesis
        by (rule swapsI [of _ "c # w @ x"])
          (use s w x b d arr vs in \<open>simp_all add: parse_value.simps cut_prefix_char\<close>)
    qed
  next
    case str
    then obtain u where u: "scan_string r = Some (u, t)" "v = JStr (unquote u)"
      using "2.prems" by (auto simp: s parse_value.simps)
    from scan_string_swap [OF u(1)] str u(2) show ?thesis
      by (intro swapsI [of _ "c # u @ [DQ]"]) (auto simp: s parse_value.simps)
  next
    case t
    then have "cut_prefix s ''true'' = Some t" "v = JBool True" using "2.prems" by (auto simp: s parse_value.simps)
    then show ?thesis using keyword_value(1)
      by (intro swapsI [of _ "''true''"]) (auto simp: cut_prefix_Some_iff)
  next
    case f
    then have "cut_prefix s ''false'' = Some t" "v = JBool False" using "2.prems" by (auto simp: s parse_value.simps)
    then show ?thesis using keyword_value(2)
      by (intro swapsI [of _ "''false''"]) (auto simp: cut_prefix_Some_iff)
  next
    case n
    then have "cut_prefix s ''null'' = Some t" "v = JNull" using "2.prems" by (auto simp: s parse_value.simps)
    then show ?thesis using keyword_value(3)
      by (intro swapsI [of _ "''null''"]) (auto simp: cut_prefix_Some_iff)
  next
    case num
    then obtain l u where l: "scan_number (c # r) = Some (l, t)" "f l = Some u" "v = JNum u"
      using "2.prems" by (auto simp: s parse_value.simps split: option.splits)
    obtain x where x: "c # r = x @ t" "\<And>y. same_head y t \<Longrightarrow> scan_number (x @ y) = Some (l, y)"
      using local_scanE [OF local_scan_number l(1)] by blast
    have "x \<noteq> []" using x(1) scan_number_shorter [OF l(1)] by auto
    then obtain x' where "x = c # x'" using x(1) by (cases x) auto
    then show ?thesis using x num l s
      by (intro swapsI [of _ x]) (auto simp: parse_value.simps)
  qed
next
  case (4 f n d s)
  from "4.prems" obtain v r where v: "parse_value f n d s = Some (v, r)"
    by (auto simp: parse_elems.simps split: option.splits)
  with "4.prems" obtain c t1 where t1: "skip_ws r = c # t1"
    by (auto simp: parse_elems.simps split: list.splits)
  obtain w where w: "r = w @ c # t1" "\<And>y. skip_ws (w @ c # y) = c # y"
    using skip_ws_swap [OF t1] by blast
  obtain x where x: "s = x @ w @ c # t1" "\<And>y. parse_value f n d (x @ w @ c # y) = Some (v, w @ c # y)"
    using "4.IH"(1) [OF v] w(1) same_head_parts by (auto elim!: swapsE)
  show ?case
  proof (cases "c = CHR '']''")
    case True
    then show ?thesis using "4.prems" v t1 x w
      by (intro swapsI [of _ "x @ w @ [c]"]) (auto simp: parse_elems.simps)
  next
    case False
    then obtain vs' where c: "c = CHR '',''" and vs: "parse_elems f n d (skip_ws t1) = Some (vs', t)" "vs = v # vs'"
      using "4.prems" v t1 by (auto simp: parse_elems.simps split: if_splits)
    obtain x' where x': "skip_ws t1 = x' @ t" "\<And>y. parse_elems f n d (x' @ y) = Some (vs', y)"
      using "4.IH"(2) [OF v refl t1 False c vs(1)] by (auto elim: swapsE)
    obtain b q where b: "x' = b # q" "\<not> is_ws b"
      using parse_head [of f n d "x' @ []"] x'(2) [of "[]"] by (metis append_Nil2)
    obtain w' where w': "t1 = w' @ b # q @ t" "\<And>y. skip_ws (w' @ b # y) = b # y"
      using skip_ws_swap [of t1 b "q @ t"] x'(1) b(1) by auto
    show ?thesis
      by (rule swapsI [of _ "x @ w @ c # w' @ x'"])
        (use x w x' w' b c vs in \<open>simp_all add: parse_elems.simps\<close>)
  qed
next
  case (6 f n d s)
  from "6.prems" obtain k s3 where k: "scan_key s = Some (k, s3)"
    by (auto simp: parse_members.simps split: option.splits)
  with "6.prems" obtain v r where v: "parse_value f n d s3 = Some (v, r)"
    by (auto simp: parse_members.simps split: option.splits)
  with k "6.prems" obtain c t1 where t1: "skip_ws r = c # t1"
    by (auto simp: parse_members.simps split: list.splits)
  obtain w where w: "r = w @ c # t1" "\<And>y. skip_ws (w @ c # y) = c # y"
    using skip_ws_swap [OF t1] by blast
  obtain x where x: "s3 = x @ w @ c # t1" "\<And>y. parse_value f n d (x @ w @ c # y) = Some (v, w @ c # y)"
    using "6.IH"(1) [OF k refl v] w(1) same_head_parts by (auto elim!: swapsE)
  have "x \<noteq> []" using parse_shorter(1) [OF x(2) [of "[]"]] by auto
  then obtain a x0 where a: "x = a # x0" by (cases x) auto
  obtain z where z: "s = z @ a # x0 @ w @ c # t1" "\<And>y. scan_key (z @ a # y) = Some (k, a # y)"
    using scan_key_swap [of s k a "x0 @ w @ c # t1"] k x(1) a by auto
  show ?case
  proof (cases "c = CHR ''}''")
    case True
    then show ?thesis using "6.prems" k v t1 x w z a
      by (intro swapsI [of _ "z @ x @ w @ [c]"]) (auto simp: parse_members.simps)
  next
    case False
    then obtain kvs' where c: "c = CHR '',''" and kvs: "parse_members f n d (skip_ws t1) = Some (kvs', t)"
      "kvs = (k, v) # kvs'"
      using "6.prems" k v t1 by (auto simp: parse_members.simps split: if_splits)
    obtain x' where x': "skip_ws t1 = x' @ t" "\<And>y. parse_members f n d (x' @ y) = Some (kvs', y)"
      using "6.IH"(2) [OF k refl v refl t1 False c kvs(1)] by (auto elim: swapsE)
    obtain b q where b: "x' = b # q" "\<not> is_ws b"
      using parse_head [of f n d "x' @ []"] x'(2) [of "[]"] by (metis append_Nil2)
    obtain w' where w': "t1 = w' @ b # q @ t" "\<And>y. skip_ws (w' @ b # y) = b # y"
      using skip_ws_swap [of t1 b "q @ t"] x'(1) b(1) by auto
    show ?thesis
      by (rule swapsI [of _ "z @ x @ w @ c # w' @ x'"])
        (use z a x w x' w' b c kvs in \<open>simp_all add: parse_members.simps\<close>)
  qed
qed (simp_all add: parse_value.simps parse_elems.simps parse_members.simps)

section \<open>More fuel, more depth\<close>

lemma parse_mono:
  "parse_value f n d s = Some (v, t) \<Longrightarrow> n \<le> n' \<Longrightarrow> d \<le> d' \<Longrightarrow> parse_value f n' d' s = Some (v, t)"
  "parse_elems f n d s = Some (vs, t) \<Longrightarrow> n \<le> n' \<Longrightarrow> d \<le> d' \<Longrightarrow> parse_elems f n' d' s = Some (vs, t)"
  "parse_members f n d s = Some (kvs, t) \<Longrightarrow> n \<le> n' \<Longrightarrow> d \<le> d' \<Longrightarrow> parse_members f n' d' s = Some (kvs, t)"
proof (induction f n d s and f n d s and f n d s arbitrary: n' d' v t and n' d' vs t and n' d' kvs t
    rule: parse_value_parse_elems_parse_members.induct)
  case (2 f n d s)
  from "2.prems" obtain m where m: "n' = Suc m" "n \<le> m" by (cases n') auto
  from "2.prems" obtain c r where s: "s = c # r" by (cases s) (auto simp: parse_value.simps)
  consider (obj) "c = CHR ''{''" | (arr) "c = CHR ''[''" | (other) "c \<noteq> CHR ''{''" "c \<noteq> CHR ''[''"
    by auto
  then show ?case
  proof cases
    case obj
    then have d: "d \<noteq> 0" using "2.prems" by (auto simp: s parse_value.simps split: if_splits)
    then have d': "d' \<noteq> 0" "d - 1 \<le> d' - 1" using "2.prems" by simp_all
    show ?thesis
    proof (cases "cut_prefix (skip_ws r) ''}''")
      case None
      then obtain kvs where kvs: "parse_members f n (d - 1) (skip_ws r) = Some (kvs, t)" "v = JObj (map_puts [] kvs)"
        using "2.prems" d obj by (auto simp: s parse_value.simps)
      from "2.IH"(1) [OF s obj d None kvs(1) m(2) d'(2)] kvs(2) None d' obj show ?thesis
        by (simp add: s m parse_value.simps)
    qed (use "2.prems" d d' obj in \<open>simp add: s m parse_value.simps\<close>)
  next
    case arr
    then have d: "d \<noteq> 0" using "2.prems" by (auto simp: s parse_value.simps split: if_splits)
    then have d': "d' \<noteq> 0" "d - 1 \<le> d' - 1" using "2.prems" by simp_all
    have c: "c \<noteq> CHR ''{''" using arr by simp
    show ?thesis
    proof (cases "cut_prefix (skip_ws r) '']''")
      case None
      then obtain vs where vs: "parse_elems f n (d - 1) (skip_ws r) = Some (vs, t)" "v = JArr vs"
        using "2.prems" d arr by (auto simp: s parse_value.simps)
      from "2.IH"(2) [OF s c arr d None vs(1) m(2) d'(2)] vs(2) None d' arr show ?thesis
        by (simp add: s m parse_value.simps)
    qed (use "2.prems" d d' arr in \<open>simp add: s m parse_value.simps\<close>)
  next
    case other
    then show ?thesis using "2.prems" by (simp add: s m parse_value.simps)
  qed
next
  case (4 f n d s)
  from "4.prems" obtain m where m: "n' = Suc m" "n \<le> m" by (cases n') auto
  from "4.prems" obtain v r where v: "parse_value f n d s = Some (v, r)"
    by (auto simp: parse_elems.simps split: option.splits)
  with "4.prems" obtain c t1 where t1: "skip_ws r = c # t1"
    by (auto simp: parse_elems.simps split: list.splits)
  note v' = "4.IH"(1) [OF v m(2) "4.prems"(3)]
  show ?case
  proof (cases "c = CHR '']''")
    case False
    then obtain vs' where c: "c = CHR '',''" and vs: "parse_elems f n d (skip_ws t1) = Some (vs', t)" "vs = v # vs'"
      using "4.prems" v t1 by (auto simp: parse_elems.simps split: if_splits)
    from "4.IH"(2) [OF v refl t1 False c vs(1) m(2) "4.prems"(3)] vs(2) c v' t1 show ?thesis
      by (simp add: m parse_elems.simps)
  qed (use "4.prems" v v' t1 in \<open>simp add: m parse_elems.simps\<close>)
next
  case (6 f n d s)
  from "6.prems" obtain m where m: "n' = Suc m" "n \<le> m" by (cases n') auto
  from "6.prems" obtain k s3 where k: "scan_key s = Some (k, s3)"
    by (auto simp: parse_members.simps split: option.splits)
  with "6.prems" obtain v r where v: "parse_value f n d s3 = Some (v, r)"
    by (auto simp: parse_members.simps split: option.splits)
  with k "6.prems" obtain c t1 where t1: "skip_ws r = c # t1"
    by (auto simp: parse_members.simps split: list.splits)
  note v' = "6.IH"(1) [OF k refl v m(2) "6.prems"(3)]
  show ?case
  proof (cases "c = CHR ''}''")
    case False
    then obtain kvs' where c: "c = CHR '',''" and kvs: "parse_members f n d (skip_ws t1) = Some (kvs', t)"
      "kvs = (k, v) # kvs'"
      using "6.prems" k v t1 by (auto simp: parse_members.simps split: if_splits)
    from "6.IH"(2) [OF k refl v refl t1 False c kvs(1) m(2) "6.prems"(3)] kvs(2) c k v' t1 show ?thesis
      by (simp add: m parse_members.simps)
  qed (use "6.prems" k v v' t1 in \<open>simp add: m parse_members.simps\<close>)
qed (simp_all add: parse_value.simps parse_elems.simps parse_members.simps)

section \<open>Raw values\<close>

definition raw_at :: "(string \<Rightarrow> string option) \<Rightarrow> nat \<Rightarrow> string \<Rightarrow> json \<Rightarrow> bool" where
  "raw_at f d x v \<longleftrightarrow> (\<exists>n. parse_value f n d x = Some (v, []))"

lemma raw_at_mono: "raw_at f d x v \<Longrightarrow> d \<le> d' \<Longrightarrow> raw_at f d' x v"
  unfolding raw_at_def using parse_mono(1) by blast

lemma raw_at_parse:
  assumes "raw_at f d x v" and "d \<le> d'" and "delim y" and "2 * length (x @ y) < n"
  shows "parse_value f n d' (x @ y) = Some (v, y)"
proof -
  obtain m where "parse_value f m d x = Some (v, [])" using assms(1) by (auto simp: raw_at_def)
  then have "parse_value f m d (x @ y) = Some (v, y)"
    using parse_value_swap(1) [of f m d x v "[]"] delim_same_head [OF assms(3)] by (fastforce elim!: swapsE)
  then have "parse_value f (max m n) d' (x @ y) = Some (v, y)"
    using parse_mono(1) assms(2) max.cobounded1 by blast
  with parse_fuel(1) [of "x @ y" n "max m n" f d'] assms(4) show ?thesis by (simp add: max_def)
qed

lemma raw_at_unique:
  assumes "raw_at f d x v" and "raw_at f d' x v'"
  shows "v = v'"
proof -
  have "parse_value f (Suc (2 * length x)) (max d d') x = Some (w, [])" if "raw_at f e x w" "e \<le> max d d'" for e w
    using raw_at_parse [OF that(1,2), of "[]" "Suc (2 * length x)"] by simp
  from this [OF assms(1)] this [OF assms(2)] show ?thesis by simp
qed

lemma parse_raw:
  assumes "parse_value f n d s = Some (v, t)"
  obtains x where "s = x @ t" and "raw_at f d x v"
proof -
  obtain x where "s = x @ t" "\<And>y. same_head y t \<Longrightarrow> parse_value f n d (x @ y) = Some (v, y)"
    using parse_value_swap(1) [OF assms] by (rule swapsE) blast
  then show ?thesis using that [of x] by (metis append_Nil2 raw_at_def same_head_Nil)
qed

lemma raw_at_start:
  assumes "raw_at f d x v"
  obtains c r where "x = c # r" and "\<not> is_ws c" and "c \<notin> {CHR '']'', CHR ''}'', CHR '','', CHR '':''}"
  using assms unfolding raw_at_def by (elim exE) (rule parse_value_start)

lemma raw_at_skip: "raw_at f d x v \<Longrightarrow> skip_ws (x @ y) = x @ y"
  by (erule raw_at_start) simp

lemma raw_at_print: "json_ok f d v \<Longrightarrow> raw_at f d (json_print v) v"
  using readsD [OF json_reads, of f d v "[]" "Suc (2 * length (json_print v))"] by (auto simp: raw_at_def)

lemma raw_at_prefix:
  assumes "raw_at f d x v" and "d \<le> max_depth" and "delim y"
  shows "json_prefix f (x @ y) = Some (v, y)"
  using raw_at_parse [OF assms] raw_at_skip [OF assms(1)] by (simp add: json_prefix_def fuel_for_def)

lemma raw_at_json_parse: "raw_at f d x v \<Longrightarrow> d \<le> max_depth \<Longrightarrow> json_parse f x = Some v"
  using raw_at_prefix [of f d x v "[]"] by (simp add: json_parse_def)

lemma json_parse_raw:
  assumes "json_parse f s = Some v"
  obtains w x w' where "s = w @ x @ w'" and "raw_at f max_depth x v" and "list_all is_ws w" and "skip_ws w' = []"
proof -
  from assms obtain t where p: "parse_value f (fuel_for s) max_depth (skip_ws s) = Some (v, t)" and t: "skip_ws t = []"
    by (auto simp: json_parse_def json_prefix_def split: option.splits if_splits)
  obtain x where x: "skip_ws s = x @ t" "raw_at f max_depth x v" using parse_raw [OF p] by blast
  obtain w where "s = w @ skip_ws s" "list_all is_ws w" using skip_ws_split [of s] by blast
  with x t show ?thesis by (intro that [of w x t]) simp_all
qed

text \<open>A message that is decoded with a \<^verbatim>\<open>RawMessage\<close> field keeps JSON in it.\<close>

definition raw_value :: "nat \<Rightarrow> string \<Rightarrow> bool" where
  "raw_value d x \<longleftrightarrow> (\<exists>v. raw_at Some d x v)"

lemma raw_value_mono: "raw_value d x \<Longrightarrow> d \<le> d' \<Longrightarrow> raw_value d' x"
  unfolding raw_value_def using raw_at_mono by blast

lemma raw_value_ok: "raw_value d x \<Longrightarrow> d \<le> max_depth \<Longrightarrow> raw_ok x"
  by (auto simp: raw_value_def raw_ok_def raw_at_json_parse)

lemma parse_any_fuel:
  assumes "parse_value f n d s = Some (v, t)" and "d \<le> d'" and "2 * length s < m"
  shows "parse_value f m d' s = Some (v, t)"
proof -
  have "parse_value f (max n m) d' s = Some (v, t)"
    using parse_mono(1) [OF assms(1) max.cobounded1 assms(2)] .
  with parse_fuel(1) [of s m "max n m" f d'] assms(3) show ?thesis by (simp add: max_def)
qed

section \<open>Cutting documents\<close>

lemma raw_between_append [simp]: "raw_between (x @ r) r = x"
  by (simp add: raw_between_def)

text \<open>A member or element that is cut out stands for the value that the parser built for it.\<close>

definition member_at :: "nat \<Rightarrow> string \<times> string \<Rightarrow> string \<times> json \<Rightarrow> bool" where
  "member_at d m e \<longleftrightarrow> fst m = fst e \<and> raw_at Some d (snd m) (snd e)"

lemma split_members_values:
  assumes "parse_members Some n d s = Some (kvs, t)" and "d \<le> max_depth" and "length s \<le> m"
  shows "\<exists>ms. split_members m s = Some ms \<and> list_all2 (member_at d) ms kvs"
  using assms(1,3)
proof (induction m arbitrary: n s kvs)
  case 0
  then show ?case using parse_shorter(3) [OF 0(1)] by simp
next
  case (Suc m)
  then obtain n' where n: "n = Suc n'" by (cases n) (auto simp: parse_members.simps)
  from Suc.prems obtain k s3 where k: "scan_key s = Some (k, s3)"
    by (auto simp: n parse_members.simps split: option.splits)
  with Suc.prems obtain v r where v: "parse_value Some n' d s3 = Some (v, r)"
    by (auto simp: n parse_members.simps split: option.splits)
  with k Suc.prems obtain c t1 where t1: "skip_ws r = c # t1"
    by (auto simp: n parse_members.simps split: list.splits)
  obtain x where x: "s3 = x @ r" "raw_at Some d x v" using parse_raw [OF v] by blast
  have v': "parse_value Some (fuel_for s3) max_depth s3 = Some (v, r)"
    using parse_any_fuel [OF v assms(2)] by (simp add: fuel_for_def)
  show ?case
  proof (cases "c = CHR ''}''")
    case True
    then show ?thesis using Suc.prems(1) k v v' t1 x by (auto simp: n parse_members.simps member_at_def)
  next
    case False
    then obtain kvs' where c: "c = CHR '',''" and kvs: "parse_members Some n' d (skip_ws t1) = Some (kvs', t)"
      "kvs = (k, v) # kvs'"
      using Suc.prems k v t1 by (auto simp: n parse_members.simps split: if_splits)
    have "length (skip_ws t1) \<le> m"
      using scan_key_shorter [OF k] parse_shorter(1) [OF v] length_skip_ws [of r] length_skip_ws [of t1] t1 Suc.prems(2)
      by simp
    from Suc.IH [OF kvs(1) this] show ?thesis using k v' t1 x c kvs(2) by (auto simp: member_at_def)
  qed
qed

lemma split_elems_values:
  assumes "parse_elems Some n d s = Some (vs, t)" and "d \<le> max_depth" and "length s \<le> m"
  shows "\<exists>xs. split_elems m s = Some xs \<and> list_all2 (raw_at Some d) xs vs"
  using assms(1,3)
proof (induction m arbitrary: n s vs)
  case 0
  then show ?case using parse_shorter(2) [OF 0(1)] by simp
next
  case (Suc m)
  then obtain n' where n: "n = Suc n'" by (cases n) (auto simp: parse_elems.simps)
  from Suc.prems obtain v r where v: "parse_value Some n' d s = Some (v, r)"
    by (auto simp: n parse_elems.simps split: option.splits)
  with Suc.prems obtain c t1 where t1: "skip_ws r = c # t1"
    by (auto simp: n parse_elems.simps split: list.splits)
  obtain x where x: "s = x @ r" "raw_at Some d x v" using parse_raw [OF v] by blast
  have v': "parse_value Some (fuel_for s) max_depth s = Some (v, r)"
    using parse_any_fuel [OF v assms(2)] by (simp add: fuel_for_def)
  show ?case
  proof (cases "c = CHR '']''")
    case True
    then show ?thesis using Suc.prems(1) v v' t1 x by (auto simp: n parse_elems.simps)
  next
    case False
    then obtain vs' where c: "c = CHR '',''" and vs: "parse_elems Some n' d (skip_ws t1) = Some (vs', t)" "vs = v # vs'"
      using Suc.prems v t1 by (auto simp: n parse_elems.simps split: if_splits)
    have "length (skip_ws t1) \<le> m"
      using parse_shorter(1) [OF v] length_skip_ws [of r] length_skip_ws [of t1] t1 Suc.prems(2) by simp
    from Suc.IH [OF vs(1) this] show ?thesis using v' t1 x c vs(2) by auto
  qed
qed

lemma raw_members_values:
  assumes "raw_at Some d s v" and "d \<le> max_depth" and "raw_members s = Some ms"
  obtains kvs where "v = JObj (map_puts [] kvs)" and "d \<noteq> 0" and "list_all2 (member_at (d - 1)) ms kvs"
proof -
  from assms(3) obtain r where s: "s = CHR ''{'' # r" by (auto simp: raw_members_def cut_prefix_Some_iff split: option.splits)
  obtain n where n: "parse_value Some (Suc n) d s = Some (v, [])"
    using assms(1) by (auto simp: raw_at_def) (metis not0_implies_Suc option.distinct(1) parse_value.simps(1))
  then have d: "d \<noteq> 0" by (auto simp: s parse_value.simps split: if_splits)
  show ?thesis
  proof (cases "cut_prefix (skip_ws r) ''}''")
    case (Some u)
    then show ?thesis using n d assms(3) that [of "[]"] by (simp add: s parse_value.simps raw_members_def cut_prefix_char)
  next
    case None
    then obtain kvs where kvs: "parse_members Some n (d - 1) (skip_ws r) = Some (kvs, [])" "v = JObj (map_puts [] kvs)"
      using n d by (auto simp: s parse_value.simps)
    have "length (skip_ws r) \<le> length s" using length_skip_ws [of r] by (simp add: s)
    with split_members_values [OF kvs(1)] assms(2) obtain ms' where
      "split_members (length s) (skip_ws r) = Some ms'" "list_all2 (member_at (d - 1)) ms' kvs" by fastforce
    then show ?thesis using that kvs(2) d assms(3) None by (simp add: raw_members_def s cut_prefix_char)
  qed
qed

lemma raw_elems_values:
  assumes "raw_at Some d s v" and "d \<le> max_depth" and "raw_elems s = Some xs"
  obtains vs where "v = JArr vs" and "d \<noteq> 0" and "list_all2 (raw_at Some (d - 1)) xs vs"
proof -
  from assms(3) obtain r where s: "s = CHR ''['' # r" by (auto simp: raw_elems_def cut_prefix_Some_iff split: option.splits)
  obtain n where n: "parse_value Some (Suc n) d s = Some (v, [])"
    using assms(1) by (auto simp: raw_at_def) (metis not0_implies_Suc option.distinct(1) parse_value.simps(1))
  then have d: "d \<noteq> 0" by (auto simp: s parse_value.simps split: if_splits)
  show ?thesis
  proof (cases "cut_prefix (skip_ws r) '']''")
    case (Some u)
    then show ?thesis using n d assms(3) that [of "[]"] by (simp add: s parse_value.simps raw_elems_def cut_prefix_char)
  next
    case None
    then obtain vs where vs: "parse_elems Some n (d - 1) (skip_ws r) = Some (vs, [])" "v = JArr vs"
      using n d by (auto simp: s parse_value.simps)
    have "length (skip_ws r) \<le> length s" using length_skip_ws [of r] by (simp add: s)
    with split_elems_values [OF vs(1)] assms(2) obtain xs' where
      "split_elems (length s) (skip_ws r) = Some xs'" "list_all2 (raw_at Some (d - 1)) xs' vs" by fastforce
    then show ?thesis using that vs(2) d assms(3) None by (simp add: raw_elems_def s cut_prefix_char)
  qed
qed

section \<open>Printing raw values\<close>

abbreviation member_text :: "string \<times> string \<Rightarrow> string" where
  "member_text m \<equiv> (case m of (k, x) \<Rightarrow> quote k @ CHR '':'' # x)"

lemma scan_key_quote:
  assumes "skip_ws r = r"
  shows "scan_key (quote k @ CHR '':'' # r) = Some (utf8_fix k, r)"
  using assms cut_prefix_append [of "[DQ]" "escape k @ DQ # CHR '':'' # r"]
  by (simp add: scan_key_def quote_def scan_string_escape unquote_escape is_ws_def cut_prefix_char)

lemma length_commas: "length xs \<le> Suc (length (commas xs))"
  by (induction xs rule: commas.induct) auto

lemma member_texts_start: "ms \<noteq> [] \<Longrightarrow> \<exists>r. commas (map member_text ms) @ x = DQ # r"
  by (cases "map member_text ms" rule: commas.cases) (auto simp: quote_def)

lemma split_members_raw:
  assumes "\<And>k x. (k, x) \<in> set ms \<Longrightarrow> raw_value max_depth x" and "ms \<noteq> []" and "length ms \<le> n"
  shows "split_members n (commas (map member_text ms) @ CHR ''}'' # rest) = Some (map (\<lambda>(k, x). (utf8_fix k, x)) ms)"
  using assms
proof (induction ms arbitrary: n rule: induct_list012)
  case (2 m)
  obtain k x where m: "m = (k, x)" by (cases m)
  from 2 obtain n' where n: "n = Suc n'" by (cases n) auto
  obtain v where v: "raw_at Some max_depth x v" using "2.prems"(1) [of k x] m by (auto simp: raw_value_def)
  have "parse_value Some (fuel_for (x @ CHR ''}'' # rest)) max_depth (x @ CHR ''}'' # rest) = Some (v, CHR ''}'' # rest)"
    by (rule raw_at_parse [OF v order_refl]) (simp_all add: delim_Cons fuel_for_def)
  then show ?case by (simp add: n m scan_key_quote [OF raw_at_skip [OF v]] is_ws_def)
next
  case (3 m m' ms)
  obtain k x where m: "m = (k, x)" by (cases m)
  from 3 obtain n' where n: "n = Suc n'" by (cases n) auto
  let ?r = "commas (map member_text (m' # ms)) @ CHR ''}'' # rest"
  obtain v where v: "raw_at Some max_depth x v" using "3.prems"(1) [of k x] m by (auto simp: raw_value_def)
  have "parse_value Some (fuel_for (x @ CHR '','' # ?r)) max_depth (x @ CHR '','' # ?r) = Some (v, CHR '','' # ?r)"
    by (rule raw_at_parse [OF v order_refl]) (simp_all add: delim_Cons fuel_for_def)
  moreover have "split_members n' ?r = Some (map (\<lambda>(k, x). (utf8_fix k, x)) (m' # ms))"
    using "3.prems" n by (intro "3.IH"(2)) auto
  moreover obtain r' where "?r = DQ # r'" using member_texts_start [of "m' # ms"] by blast
  then have "skip_ws ?r = ?r" by (simp add: is_ws_def)
  ultimately show ?case by (simp add: n m scan_key_quote [OF raw_at_skip [OF v]] is_ws_def)
qed simp

lemma split_elems_raw:
  assumes "\<And>x. x \<in> set xs \<Longrightarrow> raw_value max_depth x" and "xs \<noteq> []" and "length xs \<le> n"
  shows "split_elems n (commas xs @ CHR '']'' # rest) = Some xs"
  using assms
proof (induction xs arbitrary: n rule: induct_list012)
  case (2 x)
  from 2 obtain n' where n: "n = Suc n'" by (cases n) auto
  obtain v where v: "raw_at Some max_depth x v" using "2.prems"(1) [of x] by (auto simp: raw_value_def)
  have "parse_value Some (fuel_for (x @ CHR '']'' # rest)) max_depth (x @ CHR '']'' # rest) = Some (v, CHR '']'' # rest)"
    by (rule raw_at_parse [OF v order_refl]) (simp_all add: delim_Cons fuel_for_def)
  then show ?case by (simp add: n is_ws_def)
next
  case (3 x x' xs)
  from 3 obtain n' where n: "n = Suc n'" by (cases n) auto
  let ?r = "commas (x' # xs) @ CHR '']'' # rest"
  obtain v where v: "raw_at Some max_depth x v" using "3.prems"(1) [of x] by (auto simp: raw_value_def)
  have "parse_value Some (fuel_for (x @ CHR '','' # ?r)) max_depth (x @ CHR '','' # ?r) = Some (v, CHR '','' # ?r)"
    by (rule raw_at_parse [OF v order_refl]) (simp_all add: delim_Cons fuel_for_def)
  moreover have "split_elems n' ?r = Some (x' # xs)"
    using "3.prems" n by (intro "3.IH"(2)) auto
  moreover obtain v' where "raw_at Some max_depth x' v'" using "3.prems"(1) [of x'] by (auto simp: raw_value_def)
  then have "skip_ws ?r = ?r" using raw_at_skip by (cases xs) auto
  ultimately show ?case by (simp add: n is_ws_def)
qed simp

lemma raw_members_raw:
  assumes "\<And>k x. (k, x) \<in> set ms \<Longrightarrow> raw_value max_depth x"
  shows "raw_members (object_text ms) = Some (map (\<lambda>(k, x). (utf8_fix k, x)) ms)"
proof (cases "ms = []")
  case False
  let ?s = "commas (map member_text ms) @ ''}''"
  obtain r where r: "?s = DQ # r" using member_texts_start [OF False] by blast
  have "split_members (Suc (length ?s)) ?s = Some (map (\<lambda>(k, x). (utf8_fix k, x)) ms)"
    using length_commas [of "map member_text ms"] by (intro split_members_raw assms False) auto
  moreover have "skip_ws ?s = ?s" and "cut_prefix ?s ''}'' = None"
    unfolding r by (auto simp: is_ws_def cut_prefix_None_iff)
  ultimately show ?thesis by (simp add: raw_members_def object_text_def cut_prefix_char)
qed (simp add: raw_members_def object_text_def cut_prefix_char is_ws_def)

lemma raw_elems_raw:
  assumes "\<And>x. x \<in> set xs \<Longrightarrow> raw_value max_depth x"
  shows "raw_elems (array_text xs) = Some xs"
proof (cases xs)
  case (Cons x xs')
  let ?s = "commas xs @ '']''"
  obtain v where v: "raw_at Some max_depth x v" using assms [of x] Cons by (auto simp: raw_value_def)
  then obtain c r where "x = c # r" "\<not> is_ws c" "c \<noteq> CHR '']''" by (rule raw_at_start) simp
  then obtain r' where r: "?s = c # r'" and c: "\<not> is_ws c" "c \<noteq> CHR '']''" by (cases xs') (auto simp: Cons)
  have "split_elems (Suc (length ?s)) ?s = Some xs"
    using length_commas [of xs] Cons by (intro split_elems_raw assms) auto
  moreover have "skip_ws ?s = ?s" and "cut_prefix ?s '']'' = None"
    using c unfolding r by (auto simp: cut_prefix_char)
  ultimately show ?thesis by (simp add: raw_elems_def array_text_def cut_prefix_char)
qed (simp add: raw_elems_def array_text_def cut_prefix_char is_ws_def)

text \<open>An object that is printed from raw values is the object of their values.\<close>

definition prints_as :: "(string \<Rightarrow> string option) \<Rightarrow> nat \<Rightarrow> string \<times> string \<Rightarrow> string \<times> json \<Rightarrow> bool" where
  "prints_as f d m e \<longleftrightarrow> fst e = utf8_fix (fst m) \<and> raw_at f d (snd m) (snd e)"

lemma parse_members_raw:
  assumes "list_all2 (prints_as f d) ms kvs" and "ms \<noteq> []"
    and "2 * length (commas (map member_text ms) @ CHR ''}'' # rest) + 1 < n"
  shows "parse_members f n d (commas (map member_text ms) @ CHR ''}'' # rest) = Some (kvs, rest)"
  using assms
proof (induction ms arbitrary: n kvs rule: induct_list012)
  case (2 m)
  obtain k x where m: "m = (k, x)" by (cases m)
  obtain v where v: "raw_at f d x v" "kvs = [(utf8_fix k, v)]"
    using "2.prems"(1) m by (auto simp: prints_as_def list_all2_Cons1)
  from 2 obtain n' where n: "n = Suc n'" by (cases n) auto
  have "parse_value f n' d (x @ CHR ''}'' # rest) = Some (v, CHR ''}'' # rest)"
    using "2.prems"(3) n m by (intro raw_at_parse [OF v(1) order_refl]) (auto simp: delim_Cons)
  then show ?case by (simp add: n m v(2) scan_key_quote [OF raw_at_skip [OF v(1)]] parse_members.simps is_ws_def)
next
  case (3 m m' ms)
  obtain k x where m: "m = (k, x)" by (cases m)
  obtain e kvs' where e: "kvs = e # kvs'" "prints_as f d m e" and kvs': "list_all2 (prints_as f d) (m' # ms) kvs'"
    using "3.prems"(1) by (cases kvs) simp_all
  then obtain v where v: "raw_at f d x v" "kvs = (utf8_fix k, v) # kvs'" by (cases e) (auto simp: prints_as_def m)
  from 3 obtain n' where n: "n = Suc n'" by (cases n) auto
  let ?r = "commas (map member_text (m' # ms)) @ CHR ''}'' # rest"
  have "parse_value f n' d (x @ CHR '','' # ?r) = Some (v, CHR '','' # ?r)"
    using "3.prems"(3) n m by (intro raw_at_parse [OF v(1) order_refl]) (auto simp: delim_Cons)
  moreover have "parse_members f n' d ?r = Some (kvs', rest)"
    using "3.prems"(3) n kvs' by (intro "3.IH"(2)) auto
  moreover obtain r' where "?r = DQ # r'" using member_texts_start [of "m' # ms"] by blast
  then have "skip_ws ?r = ?r" by (simp add: is_ws_def)
  ultimately show ?case
    by (simp add: n m v(2) scan_key_quote [OF raw_at_skip [OF v(1)]] parse_members.simps is_ws_def)
qed simp

lemma parse_elems_raw:
  assumes "list_all2 (raw_at f d) xs vs" and "xs \<noteq> []" and "2 * length (commas xs @ CHR '']'' # rest) + 1 < n"
  shows "parse_elems f n d (commas xs @ CHR '']'' # rest) = Some (vs, rest)"
  using assms
proof (induction xs arbitrary: n vs rule: induct_list012)
  case (2 x)
  obtain v where v: "raw_at f d x v" "vs = [v]" using "2.prems"(1) by (auto simp: list_all2_Cons1)
  from 2 obtain n' where n: "n = Suc n'" by (cases n) auto
  have "parse_value f n' d (x @ CHR '']'' # rest) = Some (v, CHR '']'' # rest)"
    using "2.prems"(3) n by (intro raw_at_parse [OF v(1) order_refl]) (auto simp: delim_Cons)
  then show ?case by (simp add: n v(2) parse_elems.simps is_ws_def)
next
  case (3 x x' xs)
  obtain v vs' where v: "raw_at f d x v" "vs = v # vs'" and vs': "list_all2 (raw_at f d) (x' # xs) vs'"
    using "3.prems"(1) by (cases vs) (simp, blast)
  from 3 obtain n' where n: "n = Suc n'" by (cases n) auto
  let ?r = "commas (x' # xs) @ CHR '']'' # rest"
  have "parse_value f n' d (x @ CHR '','' # ?r) = Some (v, CHR '','' # ?r)"
    using "3.prems"(3) n by (intro raw_at_parse [OF v(1) order_refl]) (auto simp: delim_Cons)
  moreover have "parse_elems f n' d ?r = Some (vs', rest)"
    using "3.prems"(3) n vs' by (intro "3.IH"(2)) auto
  moreover obtain v' where "raw_at f d x' v'" using vs' by (auto simp: list_all2_Cons1)
  then have "skip_ws ?r = ?r" using raw_at_skip by (cases xs) auto
  ultimately show ?case by (simp add: n v(2) parse_elems.simps is_ws_def)
qed simp

lemma raw_at_object:
  assumes "list_all2 (prints_as f d) ms kvs"
  shows "raw_at f (Suc d) (object_text ms) (JObj (map_puts [] kvs))"
proof (cases "ms = []")
  case True
  then have "parse_value f (Suc 0) (Suc d) (object_text ms) = Some (JObj (map_puts [] kvs), [])"
    using assms by (simp add: object_text_def parse_value.simps is_ws_def cut_prefix_char)
  then show ?thesis unfolding raw_at_def by blast
next
  case False
  let ?s = "commas (map member_text ms) @ ''}''"
  let ?n = "Suc (Suc (2 * length ?s))"
  obtain r where r: "?s = DQ # r" using member_texts_start [OF False] by blast
  have "parse_members f ?n d ?s = Some (kvs, [])"
    by (rule parse_members_raw [OF assms False]) simp
  moreover have "skip_ws ?s = ?s" and "cut_prefix ?s ''}'' = None"
    unfolding r by (auto simp: is_ws_def cut_prefix_None_iff)
  ultimately have "parse_value f (Suc ?n) (Suc d) (object_text ms) = Some (JObj (map_puts [] kvs), [])"
    by (simp add: parse_value.simps object_text_def)
  then show ?thesis unfolding raw_at_def by blast
qed

lemma raw_at_array:
  assumes "list_all2 (raw_at f d) xs vs"
  shows "raw_at f (Suc d) (array_text xs) (JArr vs)"
proof (cases xs)
  case Nil
  then have "parse_value f (Suc 0) (Suc d) (array_text xs) = Some (JArr vs, [])"
    using assms by (simp add: array_text_def parse_value.simps is_ws_def cut_prefix_char)
  then show ?thesis unfolding raw_at_def by blast
next
  case (Cons x xs')
  let ?s = "commas xs @ '']''"
  let ?n = "Suc (Suc (2 * length ?s))"
  obtain v where v: "raw_at f d x v" using assms Cons by (auto simp: list_all2_Cons1)
  then obtain c r where "x = c # r" "\<not> is_ws c" "c \<noteq> CHR '']''" by (rule raw_at_start) simp
  then obtain r' where r: "?s = c # r'" and c: "\<not> is_ws c" "c \<noteq> CHR '']''" by (cases xs') (auto simp: Cons)
  have "parse_elems f ?n d ?s = Some (vs, [])"
    by (rule parse_elems_raw [OF assms]) (simp_all add: Cons)
  moreover have "skip_ws ?s = ?s" and "cut_prefix ?s '']'' = None"
    using c unfolding r by (auto simp: cut_prefix_char)
  ultimately have "parse_value f (Suc ?n) (Suc d) (array_text xs) = Some (JArr vs, [])"
    by (simp add: parse_value.simps array_text_def)
  then show ?thesis unfolding raw_at_def by blast
qed

lemma raw_value_object:
  assumes "\<forall>m \<in> set ms. raw_value d (snd m)"
  shows "raw_value (Suc d) (object_text ms)"
proof -
  have "\<exists>kvs. list_all2 (prints_as Some d) ms kvs"
    using assms
  proof (induction ms)
    case (Cons m ms)
    then obtain kvs v where "list_all2 (prints_as Some d) ms kvs" "raw_at Some d (snd m) v"
      by (auto simp: raw_value_def)
    then show ?case by (intro exI [of _ "(utf8_fix (fst m), v) # kvs"]) (auto simp: prints_as_def [of _ _ m])
  qed (simp add: exI [of _ "[]"])
  then show ?thesis unfolding raw_value_def using raw_at_object by blast
qed

lemma raw_value_array:
  assumes "\<forall>x \<in> set xs. raw_value d x"
  shows "raw_value (Suc d) (array_text xs)"
proof -
  have "\<exists>vs. list_all2 (raw_at Some d) xs vs"
    using assms
  proof (induction xs)
    case (Cons x xs)
    then obtain vs v where "list_all2 (raw_at Some d) xs vs" "raw_at Some d x v" by (auto simp: raw_value_def)
    then show ?case by (intro exI [of _ "v # vs"]) simp
  qed (simp add: exI [of _ "[]"])
  then show ?thesis unfolding raw_value_def using raw_at_array by blast
qed

lemma raw_value_quote: "raw_value d (quote s)"
proof -
  have "parse_value Some (Suc 0) d (quote s) = Some (JStr (utf8_fix s), [])"
    by (simp add: parse_value.simps quote_def scan_string_escape unquote_escape)
  then show ?thesis unfolding raw_value_def raw_at_def by blast
qed

lemma raw_value_print: "json_ok Some d v \<Longrightarrow> raw_value d (json_print v)"
  unfolding raw_value_def using raw_at_print by blast

lemma raw_value_bool: "raw_value d (bool_text b)"
  using raw_value_print [of d "JBool b"] by (simp add: bool_text_def)

lemma raw_value_null: "raw_value d ''null''"
  using raw_value_print [of d JNull] by simp

section \<open>Decoding raw values\<close>

text \<open>Decoding the text of an object decodes its members, one after the other.\<close>

definition set_fields :: "(string \<Rightarrow> string \<Rightarrow> 's \<Rightarrow> 's option) \<Rightarrow> (string \<times> string) list \<Rightarrow> 's \<Rightarrow> 's option" where
  "set_fields field ms s =
    foldl (\<lambda>a (k, raw). case a of None \<Rightarrow> None | Some x \<Rightarrow> field (fold_name k) raw x) (Some s) ms"

lemma set_fields_Nil [simp]: "set_fields field [] s = Some s"
  by (simp add: set_fields_def)

lemma set_fields_Cons:
  "set_fields field ((k, raw) # ms) s =
    (case field (fold_name k) raw s of None \<Rightarrow> None | Some s' \<Rightarrow> set_fields field ms s')"
proof -
  have "foldl (\<lambda>a (k, raw). case a of None \<Rightarrow> None | Some x \<Rightarrow> field (fold_name k) raw x) None ms = None"
    by (induction ms) auto
  then show ?thesis by (simp add: set_fields_def split: option.split)
qed

definition member_raw :: "string \<times> string \<Rightarrow> bool" where
  "member_raw m \<longleftrightarrow> utf8_ok (fst m) \<and> raw_value (max_depth - 1) (snd m)"

lemma dec_struct_raw:
  assumes "\<forall>m \<in> set ms. member_raw m"
  shows "dec_struct field (object_text ms) old = set_fields field ms old"
proof -
  have "raw_members (object_text ms) = Some (map (\<lambda>(k, x). (utf8_fix k, x)) ms)"
    using assms by (intro raw_members_raw) (force simp: member_raw_def intro: raw_value_mono)
  moreover have "map (\<lambda>(k, x). (utf8_fix k, x)) ms = ms"
    using assms by (intro map_idI) (auto simp: member_raw_def utf8_fix_id)
  ultimately show ?thesis by (simp add: dec_struct_def set_fields_def is_null_def object_text_def)
qed

lemma raw_value_members:
  assumes "\<forall>m \<in> set ms. member_raw m"
  shows "raw_value max_depth (object_text ms)"
  using raw_value_object [of ms "max_depth - 1"] assms by (simp add: member_raw_def max_depth_def)

lemma decode_raw:
  assumes "raw_value max_depth x" and "delim y"
  shows "decode d zero (x @ y) = d x zero"
  using assms raw_at_prefix [of Some max_depth x _ y] raw_at_skip [of Some max_depth x]
  by (auto simp: decode_def raw_value_def)

lemma unmarshal_raw:
  assumes "raw_value max_depth x" and "delim y" and "skip_ws y = []"
  shows "unmarshal d zero (x @ y) = d x zero"
  using assms raw_at_prefix [of Some max_depth x _ y] decode_raw [OF assms(1,2)]
  by (auto simp: unmarshal_def json_parse_def raw_value_def)

lemma unmarshal_raw_object:
  assumes "\<forall>m \<in> set ms. member_raw m"
  shows "unmarshal (dec_struct field) zero (object_text ms) = set_fields field ms zero"
  by (simp add: unmarshal_raw [OF raw_value_members [OF assms] delim_Nil, simplified] dec_struct_raw [OF assms])

text \<open>What a decoder gets to see is a raw value, and so is everything that it passes on.\<close>

lemma decode_value:
  assumes "decode d zero s = Some z"
  obtains x where "raw_value max_depth x" and "d x zero = Some z"
proof -
  from assms obtain v t where p: "parse_value Some (fuel_for s) max_depth (skip_ws s) = Some (v, t)"
    and z: "d (raw_between (skip_ws s) t) zero = Some z"
    by (auto simp: decode_def json_prefix_def split: option.splits)
  obtain x where "skip_ws s = x @ t" "raw_at Some max_depth x v" using parse_raw [OF p] by blast
  then show ?thesis using z that [of x] by (auto simp: raw_value_def)
qed

lemma unmarshal_value:
  assumes "unmarshal d zero s = Some z"
  obtains x where "raw_value max_depth x" and "d x zero = Some z"
  using assms by (auto simp: unmarshal_def split: if_splits elim: decode_value)

lemma members_raw_value:
  assumes "raw_value d s" and "d \<le> max_depth" and "raw_members s = Some ms"
  shows "d \<noteq> 0 \<and> (\<forall>m \<in> set ms. raw_value (d - 1) (snd m))"
proof -
  obtain v where "raw_at Some d s v" using assms(1) by (auto simp: raw_value_def)
  then obtain kvs where d: "d \<noteq> 0" and kvs: "list_all2 (member_at (d - 1)) ms kvs"
    using raw_members_values [OF _ assms(2,3)] by metis
  from kvs have "\<forall>m \<in> set ms. raw_value (d - 1) (snd m)"
    by (induction rule: list_all2_induct) (auto simp: member_at_def raw_value_def)
  with d show ?thesis by simp
qed

lemma elems_raw_value:
  assumes "raw_value d s" and "d \<le> max_depth" and "raw_elems s = Some xs"
  shows "d \<noteq> 0 \<and> (\<forall>x \<in> set xs. raw_value (d - 1) x)"
proof -
  obtain v where "raw_at Some d s v" using assms(1) by (auto simp: raw_value_def)
  then obtain vs where d: "d \<noteq> 0" and vs: "list_all2 (raw_at Some (d - 1)) xs vs"
    using raw_elems_values [OF _ assms(2,3)] by metis
  from vs have "\<forall>x \<in> set xs. raw_value (d - 1) x"
    by (induction rule: list_all2_induct) (auto simp: raw_value_def)
  with d show ?thesis by simp
qed

text \<open>An invariant of a struct holds after decoding when every field keeps it.\<close>

definition field_keeps :: "nat \<Rightarrow> (string \<Rightarrow> string \<Rightarrow> 's \<Rightarrow> 's option) \<Rightarrow> ('s \<Rightarrow> bool) \<Rightarrow> bool" where
  "field_keeps d field P \<longleftrightarrow> (\<forall>k raw y y'. raw_value d raw \<longrightarrow> P y \<longrightarrow> field k raw y = Some y' \<longrightarrow> P y')"

lemma set_fields_keeps:
  assumes "field_keeps d field P"
  shows "set_fields field ms old = Some z \<Longrightarrow> \<forall>m \<in> set ms. raw_value d (snd m) \<Longrightarrow> P old \<Longrightarrow> P z"
proof (induction ms arbitrary: old)
  case (Cons m ms)
  obtain k raw where m: "m = (k, raw)" by (cases m)
  with Cons.prems obtain y where y: "field (fold_name k) raw old = Some y" "set_fields field ms y = Some z"
    by (auto simp: set_fields_Cons split: option.splits)
  have "P y" using assms Cons.prems m y(1) by (auto simp: field_keeps_def)
  with Cons.IH [OF y(2)] Cons.prems(2) show ?case by simp
qed simp

lemma dec_struct_keeps:
  assumes "field_keeps (d - 1) field P" and "dec_struct field x old = Some z" and "raw_value d x" and "d \<le> max_depth"
    and "P old"
  shows "P z"
proof (cases "is_null x")
  case True
  then show ?thesis using assms(2,5) by (simp add: dec_struct_def)
next
  case False
  then obtain ms where ms: "raw_members x = Some ms" "set_fields field ms old = Some z"
    using assms(2) by (auto simp: dec_struct_def set_fields_def split: option.splits)
  with set_fields_keeps [OF assms(1)] members_raw_value [OF assms(3,4)] assms(5) show ?thesis by blast
qed

end
