(* ===== verification/Json_Round.thy ===== *)
theory Json_Round
  imports Json_Raw
begin

text \<open>
  What struct decoding makes of a printed struct: \<open>unmarshal_object\<close> reduces decoding the text of an
  object to its members, and the \<open>dec_\<close>... facts give the value of each member. Together they are the
  round trips of the messages that the program writes and reads again.
\<close>

section \<open>Decimal numbers\<close>

lemma digit_char_is_digit: "is_digit (digit_char n)"
proof -
  have "\<forall>m < 10. is_digit (''0123456789'' ! m)"
    by (simp add: is_digit_def numeral_eq_Suc All_less_Suc)
  then show ?thesis by (simp add: digit_char_def)
qed

lemma dec_nat_digits: "list_all is_digit (dec_nat n)"
  by (induction n rule: dec_nat.induct) (subst dec_nat.simps, simp add: digit_char_is_digit)

lemma dec_nat_nonempty [simp]: "dec_nat n \<noteq> []"
  by (subst dec_nat.simps) simp

lemma digit_char_zero: "digit_char n = CHR ''0'' \<longleftrightarrow> n mod 10 = 0"
  using digit_val_digit_char [of n] by (auto simp: digit_val_def digit_char_def)

lemma dec_nat_no_zero: "0 < n \<Longrightarrow> hd (dec_nat n) \<noteq> CHR ''0''"
proof (induction n rule: dec_nat.induct)
  case (1 n)
  then show ?case
    by (subst dec_nat.simps) (auto simp: digit_char_zero)
qed

lemma dec_nat_0: "dec_nat 0 = ''0''"
  by (subst dec_nat.simps) (simp add: digit_char_def)

lemma span_digits_all: "list_all is_digit s \<Longrightarrow> span_digits s = (s, [])"
  by (induction s) auto

lemma scan_int_dec_nat: "scan_int (dec_nat n) = Some (dec_nat n, [])"
proof (cases "n = 0")
  case False
  then obtain c r where c: "dec_nat n = c # r" "c \<noteq> CHR ''0''"
    using dec_nat_no_zero [of n] by (cases "dec_nat n") auto
  then show ?thesis
    using span_digits_all [OF dec_nat_digits [of n]] by (simp add: scan_int_def scan_digits_def)
qed (simp add: dec_nat_0 scan_int_def)

lemma is_number_dec_int: "is_number (dec_int i)"
proof -
  have neg: "scan_sign ''-'' (CHR ''-'' # dec_nat n) = (''-'', dec_nat n)" for n
    by (simp add: scan_sign_def)
  have pos: "scan_sign ''-'' (dec_nat n) = ('''', dec_nat n)" for n
    using dec_nat_not_minus [of n] by (cases "dec_nat n") (auto simp: scan_sign_def)
  show ?thesis
    by (simp add: is_number_def scan_number_def dec_int_def neg pos scan_int_dec_nat scan_frac_def
        scan_exp_def prepend_def)
qed

lemma dec_value_dec_nat: "dec_value (dec_nat n) = int n"
proof -
  have "dec_value s = int (dec_val s)" for s
  proof (induction s rule: rev_induct)
    case (snoc c s)
    then show ?case by (simp add: dec_value_def dec_val_def)
  qed (simp add: dec_value_def dec_val_def)
  then show ?thesis by simp
qed

lemma int_literal_dec_int: "int_literal (dec_int i) = Some i"
proof -
  obtain c r where c: "dec_nat (nat i) = c # r" by (cases "dec_nat (nat i)") auto
  then have "c \<noteq> CHR ''-''" using dec_nat_not_minus [of "nat i"] by auto
  then show ?thesis
    using c dec_nat_digits [of "nat i"] dec_nat_digits [of "nat (- i)"]
      dec_value_dec_nat [of "nat i"] dec_value_dec_nat [of "nat (- i)"]
    by (auto simp: int_literal_def dec_int_def)
qed

definition int_text :: "('w::len) word \<Rightarrow> string" where
  "int_text w = dec_int (sint w)"

lemma int_text_not_null: "int_text w \<noteq> ''null''"
proof
  assume "int_text w = ''null''"
  then have "int_literal ''null'' = Some (sint w)" by (metis int_literal_dec_int int_text_def)
  then show False by (simp add: int_literal_def is_digit_def)
qed

lemma dec_word_int_text [simp]: "dec_word (int_text w) old = Some w"
  using int_text_not_null [of w] sint_range_size [of w]
  by (simp add: dec_word_def is_null_def int_text_def int_literal_dec_int word_size)

section \<open>Members and elements\<close>

lemma json_ok_mono: "json_ok f d v \<Longrightarrow> d \<le> d' \<Longrightarrow> json_ok f d' v"
  by (induction v arbitrary: d d') (fastforce split: prod.splits)+

definition member_ok :: "string \<times> json \<Rightarrow> bool" where
  "member_ok e \<longleftrightarrow> utf8_ok (fst e) \<and> json_ok Some (max_depth - 1) (snd e)"

abbreviation printed :: "(string \<times> json) list \<Rightarrow> (string \<times> string) list" where
  "printed kvs \<equiv> map (\<lambda>(k, v). (k, json_print v)) kvs"

lemma member_ok_raw: "\<forall>e \<in> set kvs. member_ok e \<Longrightarrow> \<forall>m \<in> set (printed kvs). member_raw m"
  using raw_value_print by (fastforce simp: member_ok_def member_raw_def)

lemma printed_values: "\<forall>e \<in> set kvs. utf8_ok (fst e) \<and> json_ok f d (snd e) \<Longrightarrow> list_all2 (prints_as f d) (printed kvs) kvs"
  by (induction kvs) (auto simp: prints_as_def utf8_fix_id raw_at_print)

lemma raw_members_object:
  assumes "\<And>e. e \<in> set kvs \<Longrightarrow> member_ok e"
  shows "raw_members (object_text (printed kvs)) = Some (printed kvs)"
proof -
  have raw: "\<forall>m \<in> set (printed kvs). member_raw m" using member_ok_raw [of kvs] assms by blast
  then have "raw_members (object_text (printed kvs)) = Some (map (\<lambda>(k, x). (utf8_fix k, x)) (printed kvs))"
    by (intro raw_members_raw) (force simp: member_raw_def intro: raw_value_mono)
  also have "map (\<lambda>(k, x). (utf8_fix k, x)) (printed kvs) = printed kvs"
    using raw by (intro map_idI) (auto simp: member_raw_def utf8_fix_id)
  finally show ?thesis .
qed

lemma prefix_object:
  assumes "\<And>e. e \<in> set kvs \<Longrightarrow> utf8_ok (fst e) \<and> json_ok f (max_depth - 1) (snd e)"
  shows "json_prefix f (object_text (printed kvs)) = Some (JObj (map_puts [] kvs), [])"
  using raw_at_prefix [OF raw_at_object [OF printed_values], of kvs f "max_depth - 1" "[]"] assms
  by (simp add: max_depth_def)

lemma decode_object:
  assumes "\<And>e. e \<in> set kvs \<Longrightarrow> member_ok e"
  shows "decode d zero (object_text (printed kvs)) = d (object_text (printed kvs)) zero"
  using decode_raw [OF raw_value_members [OF member_ok_raw] delim_Nil, of kvs d zero] assms by simp

lemma dec_struct_object:
  assumes "\<And>e. e \<in> set kvs \<Longrightarrow> member_ok e"
  shows "dec_struct field (object_text (printed kvs)) old = set_fields field (printed kvs) old"
  using dec_struct_raw [OF member_ok_raw, of kvs field old] assms by simp

lemma unmarshal_object:
  assumes "\<And>e. e \<in> set kvs \<Longrightarrow> member_ok e"
  shows "unmarshal (dec_struct field) zero (object_text (printed kvs)) = set_fields field (printed kvs) zero"
  using unmarshal_raw_object [OF member_ok_raw, of kvs field zero] assms by simp

section \<open>Values of members\<close>

lemma dec_string_quote [simp]: "utf8_ok s \<Longrightarrow> dec_string (quote s) old = Some s"
  using cut_prefix_append [of "[DQ]" "escape s @ [DQ]"]
  by (simp add: dec_string_def is_null_def quote_def scan_string_escape unquote_escape_id)

lemma dec_string_fix: "dec_string (quote s) old = Some (utf8_fix s)"
  using cut_prefix_append [of "[DQ]" "escape s @ [DQ]"]
  by (simp add: dec_string_def is_null_def quote_def scan_string_escape unquote_escape)

lemma dec_bool_text [simp]: "dec_bool (bool_text b) old = Some b"
  by (simp add: dec_bool_def is_null_def bool_text_def)

lemma raw_elems_array:
  assumes "\<And>v. v \<in> set vs \<Longrightarrow> json_ok Some (max_depth - 1) v"
  shows "raw_elems (array_text (map json_print vs)) = Some (map json_print vs)"
proof (rule raw_elems_raw)
  fix x
  assume "x \<in> set (map json_print vs)"
  then have "raw_value (max_depth - 1) x" using raw_value_print assms by fastforce
  then show "raw_value max_depth x" by (rule raw_value_mono) simp
qed

lemma json_print_strings: "map json_print (map JStr fs) = map quote fs"
  by (induction fs) auto

text \<open>A slice of strings, printed and read again into a fresh slice: the same strings.\<close>

lemma dec_slice_strings:
  assumes "list_all utf8_ok fs"
  shows "dec_slice dec_string zero (array_text (map quote fs)) nil_slice = Some (to_slice fs)"
proof -
  have "json_ok Some (max_depth - 1) v" if "v \<in> set (map JStr fs)" for v
    using that assms by (auto simp: list_all_iff)
  then have "raw_elems (array_text (map quote fs)) = Some (map quote fs)"
    using raw_elems_array [of "map JStr fs"] unfolding json_print_strings by blast
  moreover have "dec_elems dec_string zero (map quote fs) [] = Some fs"
    using assms by (induction fs) auto
  ultimately show ?thesis
    by (cases fs) (auto simp: dec_slice_def is_null_def array_text_def nil_slice_def to_slice_def)
qed

lemma slice_list_to_slice [simp]: "slice_list (to_slice xs) = xs"
  by (simp add: slice_list_def to_slice_def)

lemma slice_text_to_slice: "slice_text f (to_slice xs) = array_text (map f xs)"
  by (simp add: slice_text_def to_slice_def)

end
