(* ===== verification/Mcp.thy ===== *)
theory Mcp
  imports Json_Round
begin

text \<open>
  The JSON-RPC messages of \<^verbatim>\<open>internal/mcp/types.go\<close> and the redaction of \<^verbatim>\<open>internal/mcp/redact.go\<close>.
  A message is a record with the fields of the Go struct; its decoder and its printer follow the
  struct tags. The facts about redaction say what happens to every key (\<open>redact_doc_lookup\<close>), that the
  order of the field list does not matter (\<open>redact_doc_cong\<close>), and that the values of listed keys do
  not reach the output (\<open>redact_doc_hides\<close>).
\<close>

section \<open>Messages\<close>

record Request =
  req_JSONRPC :: string
  req_ID :: string
  req_Method :: string
  req_Params :: string

record RPCError =
  err_Code :: "64 word"
  err_Message :: string
  err_Data :: string

record Response =
  resp_JSONRPC :: string
  resp_ID :: string
  resp_Result :: string
  resp_Error :: "RPCError option"

record ContentItem =
  item_Type :: string
  item_Text :: string

record ToolResult =
  tool_Content :: "ContentItem slice"
  tool_IsError :: bool

record ToolCallParams =
  call_Name :: string
  call_Arguments :: json_map

definition CodeParseError :: "64 word" where "CodeParseError = -32700"
definition CodeInvalidRequest :: "64 word" where "CodeInvalidRequest = -32600"
definition CodeMethodNotFound :: "64 word" where "CodeMethodNotFound = -32601"
definition CodeInvalidParams :: "64 word" where "CodeInvalidParams = -32602"
definition CodeInternalError :: "64 word" where "CodeInternalError = -32603"
definition CodeUnauthorized :: "64 word" where "CodeUnauthorized = -32001"
definition CodeForbidden :: "64 word" where "CodeForbidden = -32002"
definition CodeRateLimited :: "64 word" where "CodeRateLimited = -32003"
definition CodeUpstreamError :: "64 word" where "CodeUpstreamError = -32004"

subsection \<open>Decoding\<close>

definition zero_Request :: Request where
  "zero_Request = \<lparr>req_JSONRPC = [], req_ID = [], req_Method = [], req_Params = []\<rparr>"

definition request_field :: "string \<Rightarrow> string \<Rightarrow> Request \<Rightarrow> Request option" where
  "request_field k raw x =
    (if k = ''JSONRPC'' then map_option (\<lambda>v. x\<lparr>req_JSONRPC := v\<rparr>) (dec_string raw (req_JSONRPC x))
     else if k = ''ID'' then map_option (\<lambda>v. x\<lparr>req_ID := v\<rparr>) (dec_raw raw (req_ID x))
     else if k = ''METHOD'' then map_option (\<lambda>v. x\<lparr>req_Method := v\<rparr>) (dec_string raw (req_Method x))
     else if k = ''PARAMS'' then map_option (\<lambda>v. x\<lparr>req_Params := v\<rparr>) (dec_raw raw (req_Params x))
     else Some x)"

definition dec_request :: "Request decoder" where
  "dec_request = dec_struct request_field"

definition zero_RPCError :: RPCError where
  "zero_RPCError = \<lparr>err_Code = 0, err_Message = [], err_Data = []\<rparr>"

definition rpc_error_field :: "string \<Rightarrow> string \<Rightarrow> RPCError \<Rightarrow> RPCError option" where
  "rpc_error_field k raw x =
    (if k = ''CODE'' then map_option (\<lambda>v. x\<lparr>err_Code := v\<rparr>) (dec_word raw (err_Code x))
     else if k = ''MESSAGE'' then map_option (\<lambda>v. x\<lparr>err_Message := v\<rparr>) (dec_string raw (err_Message x))
     else if k = ''DATA'' then map_option (\<lambda>v. x\<lparr>err_Data := v\<rparr>) (dec_raw raw (err_Data x))
     else Some x)"

definition zero_Response :: Response where
  "zero_Response = \<lparr>resp_JSONRPC = [], resp_ID = [], resp_Result = [], resp_Error = None\<rparr>"

definition response_field :: "string \<Rightarrow> string \<Rightarrow> Response \<Rightarrow> Response option" where
  "response_field k raw x =
    (if k = ''JSONRPC'' then map_option (\<lambda>v. x\<lparr>resp_JSONRPC := v\<rparr>) (dec_string raw (resp_JSONRPC x))
     else if k = ''ID'' then map_option (\<lambda>v. x\<lparr>resp_ID := v\<rparr>) (dec_raw raw (resp_ID x))
     else if k = ''RESULT'' then map_option (\<lambda>v. x\<lparr>resp_Result := v\<rparr>) (dec_raw raw (resp_Result x))
     else if k = ''ERROR'' then map_option (\<lambda>v. x\<lparr>resp_Error := v\<rparr>)
       (dec_ptr (dec_struct rpc_error_field) zero_RPCError raw (resp_Error x))
     else Some x)"

definition dec_response :: "Response decoder" where
  "dec_response = dec_struct response_field"

definition zero_ContentItem :: ContentItem where
  "zero_ContentItem = \<lparr>item_Type = [], item_Text = []\<rparr>"

definition item_field :: "string \<Rightarrow> string \<Rightarrow> ContentItem \<Rightarrow> ContentItem option" where
  "item_field k raw x =
    (if k = ''TYPE'' then map_option (\<lambda>v. x\<lparr>item_Type := v\<rparr>) (dec_string raw (item_Type x))
     else if k = ''TEXT'' then map_option (\<lambda>v. x\<lparr>item_Text := v\<rparr>) (dec_string raw (item_Text x))
     else Some x)"

definition zero_ToolResult :: ToolResult where
  "zero_ToolResult = \<lparr>tool_Content = nil_slice, tool_IsError = False\<rparr>"

definition tool_result_field :: "string \<Rightarrow> string \<Rightarrow> ToolResult \<Rightarrow> ToolResult option" where
  "tool_result_field k raw x =
    (if k = ''CONTENT'' then map_option (\<lambda>v. x\<lparr>tool_Content := v\<rparr>)
       (dec_slice (dec_struct item_field) zero_ContentItem raw (tool_Content x))
     else if k = ''ISERROR'' then map_option (\<lambda>v. x\<lparr>tool_IsError := v\<rparr>) (dec_bool raw (tool_IsError x))
     else Some x)"

definition dec_tool_result :: "ToolResult decoder" where
  "dec_tool_result = dec_struct tool_result_field"

subsection \<open>Printing\<close>

definition map_text :: "json_map \<Rightarrow> string" where
  "map_text m = (case m of None \<Rightarrow> ''null'' | Some kvs \<Rightarrow> json_print (JObj kvs))"

definition request_text :: "Request \<Rightarrow> string" where
  "request_text x = object_text
    ([(''jsonrpc'', quote (req_JSONRPC x)), (''id'', raw_text (req_ID x)),
      (''method'', quote (req_Method x))]
     @ optional (req_Params x \<noteq> []) ''params'' (raw_text (req_Params x)))"

definition rpc_error_text :: "RPCError \<Rightarrow> string" where
  "rpc_error_text x = object_text
    ([(''code'', int_text (err_Code x)), (''message'', quote (err_Message x))]
     @ optional (err_Data x \<noteq> []) ''data'' (raw_text (err_Data x)))"

definition response_text :: "Response \<Rightarrow> string" where
  "response_text x = object_text
    ([(''jsonrpc'', quote (resp_JSONRPC x)), (''id'', raw_text (resp_ID x))]
     @ optional (resp_Result x \<noteq> []) ''result'' (raw_text (resp_Result x))
     @ (case resp_Error x of None \<Rightarrow> [] | Some e \<Rightarrow> [(''error'', rpc_error_text e)]))"

definition call_params_text :: "ToolCallParams \<Rightarrow> string" where
  "call_params_text x = object_text
    ((''name'', quote (call_Name x)) #
     optional (call_Arguments x \<noteq> None \<and> call_Arguments x \<noteq> Some []) ''arguments''
       (map_text (call_Arguments x)))"

definition item_text_json :: "ContentItem \<Rightarrow> string" where
  "item_text_json x = object_text
    ((''type'', quote (item_Type x)) # optional (item_Text x \<noteq> []) ''text'' (quote (item_Text x)))"

definition tool_result_text :: "ToolResult \<Rightarrow> string" where
  "tool_result_text x = object_text
    ((''content'', slice_text item_text_json (tool_Content x)) #
     optional (tool_IsError x) ''isError'' (bool_text (tool_IsError x)))"

definition ErrorResponse :: "string \<Rightarrow> 64 word \<Rightarrow> string \<Rightarrow> Response" where
  "ErrorResponse rid ec message =
    \<lparr>resp_JSONRPC = ''2.0'', resp_ID = rid, resp_Result = [],
     resp_Error = Some \<lparr>err_Code = ec, err_Message = message, err_Data = []\<rparr>\<rparr>"

text \<open>\<^verbatim>\<open>result\<close> is the printed result: \<open>None\<close> when \<^verbatim>\<open>Marshal\<close> fails on it.\<close>

definition SuccessResponse :: "string \<Rightarrow> string option \<Rightarrow> Response option" where
  "SuccessResponse rid result =
    map_option (\<lambda>raw. \<lparr>resp_JSONRPC = ''2.0'', resp_ID = rid, resp_Result = raw, resp_Error = None\<rparr>) result"

section \<open>Redaction\<close>

definition redactedPlaceholder :: string where
  "redactedPlaceholder = ''[REDACTED]''"

text \<open>
  The loop over the field set. Go ranges over a map in any order; the model takes the order of the
  list, and \<open>redact_doc_cong\<close> shows that the order (and a repetition) makes no difference.
\<close>

fun redact_doc :: "string list \<Rightarrow> (string \<times> json) list \<Rightarrow> (string \<times> json) list" where
  "redact_doc [] doc = doc"
| "redact_doc (f # fs) doc =
    redact_doc fs (case map_of doc f of None \<Rightarrow> doc
                   | Some _ \<Rightarrow> map_put f (JStr redactedPlaceholder) doc)"

definition redactJSON :: "(string \<Rightarrow> string option) \<Rightarrow> string \<Rightarrow> string list \<Rightarrow> string option" where
  "redactJSON f64 data flds =
    map_option (\<lambda>doc. map_text (map_option (redact_doc flds) doc)) (unmarshal (dec_map f64) None data)"

definition redact_item :: "(string \<Rightarrow> string option) \<Rightarrow> string list \<Rightarrow> ContentItem \<Rightarrow> ContentItem" where
  "redact_item f64 flds item =
    (if item_Type item \<noteq> ''text'' \<or> item_Text item = [] then item
     else case redactJSON f64 (item_Text item) flds of
       None \<Rightarrow> item
     | Some redacted \<Rightarrow> \<lparr>item_Type = ''text'', item_Text = redacted\<rparr>)"

definition RedactFields :: "(string \<Rightarrow> string option) \<Rightarrow> ToolResult \<Rightarrow> string list \<Rightarrow> ToolResult" where
  "RedactFields f64 result flds =
    (if flds = [] then result
     else \<lparr>tool_Content = to_slice (map (redact_item f64 flds) (slice_list (tool_Content result))),
           tool_IsError = tool_IsError result\<rparr>)"

definition RedactJSONBytes :: "(string \<Rightarrow> string option) \<Rightarrow> string \<Rightarrow> string list \<Rightarrow> string" where
  "RedactJSONBytes f64 data flds =
    (if data = [] \<or> flds = [] then data
     else case redactJSON f64 data flds of None \<Rightarrow> data | Some redacted \<Rightarrow> redacted)"

section \<open>What redaction does\<close>

lemma ordered_redact_doc: "ordered doc \<Longrightarrow> ordered (redact_doc fs doc)"
  by (induction fs arbitrary: doc) (auto simp: ordered_map_put split: option.split)

lemma redact_doc_lookup:
  "ordered doc \<Longrightarrow> map_of (redact_doc fs doc) k =
    (if k \<in> set fs then map_option (\<lambda>_. JStr redactedPlaceholder) (map_of doc k) else map_of doc k)"
  by (induction fs arbitrary: doc)
    (auto simp: ordered_map_put map_of_map_put split: option.split)

lemma redact_doc_cong:
  assumes "ordered doc" and "set fs = set gs"
  shows "redact_doc fs doc = redact_doc gs doc"
  using assms by (intro ordered_ext ordered_redact_doc) (auto simp: redact_doc_lookup)

lemma redact_doc_hides:
  assumes "ordered d" and "ordered d'" and "dom (map_of d) = dom (map_of d')"
    and "\<And>k. k \<notin> set fs \<Longrightarrow> map_of d k = map_of d' k"
  shows "redact_doc fs d = redact_doc fs d'"
proof (intro ordered_ext ordered_redact_doc assms ext)
  fix k
  have "map_of d k = None \<longleftrightarrow> map_of d' k = None" using assms(3) by (metis domIff)
  then show "map_of (redact_doc fs d) k = map_of (redact_doc fs d') k"
    using assms by (cases "map_of d k"; cases "map_of d' k") (auto simp: redact_doc_lookup)
qed

lemma redact_doc_twice:
  assumes "ordered doc"
  shows "redact_doc fs (redact_doc fs doc) = redact_doc fs doc"
  using assms
  by (intro ordered_ext ordered_redact_doc)
    (auto simp: redact_doc_lookup ordered_redact_doc fun_eq_iff option.map_comp o_def)

lemma json_ok_redact_doc:
  assumes "json_ok f d (JObj doc)"
  shows "json_ok f d (JObj (redact_doc fs doc))"
proof -
  have ok: "json_ok f (d - 1) (JStr redactedPlaceholder)"
    by (simp add: redactedPlaceholder_def utf8_len_def)
  have "json_ok f d (JObj (map_put k (JStr redactedPlaceholder) doc))"
    if "json_ok f d (JObj doc)" "map_of doc k = Some v" for k v doc
    using that ok set_map_put [of k "JStr redactedPlaceholder" doc]
    by (fastforce simp: ordered_map_put dest: map_of_SomeD)
  then show ?thesis using assms
    by (induction fs arbitrary: doc) (auto simp del: json_ok.simps split: option.split)
qed

lemma json_parse_object:
  assumes "number_codec f" and "json_parse f s = Some (JObj kvs)"
  shows "ordered kvs" and "json_ok f max_depth (JObj kvs)"
  using json_parse_ok [OF assms] by auto

section \<open>Redaction of a text\<close>

lemma dec_map_fresh:
  "is_null s = False \<Longrightarrow> json_parse f s = Some (JObj kvs) \<Longrightarrow> ordered kvs \<Longrightarrow> dec_map f s None = Some (Some kvs)"
  by (simp add: dec_map_def map_puts_ordered)

text \<open>The text of a document that \<^verbatim>\<open>Unmarshal\<close> accepts, decoded as a map.\<close>

definition reads_map :: "(string \<Rightarrow> string option) \<Rightarrow> string \<Rightarrow> (string \<times> json) list \<Rightarrow> bool" where
  "reads_map f64 s doc \<longleftrightarrow> unmarshal (dec_map f64) None s = Some (Some doc)"

lemma reads_map_ok:
  assumes "number_codec f" and "reads_map f s doc"
  shows "json_ok f max_depth (JObj doc)"
proof -
  obtain u kvs where "json_parse f u = Some (JObj kvs)" and doc: "doc = map_puts [] kvs"
    using assms(2) by (auto simp: reads_map_def unmarshal_def decode_def dec_map_def
        split: if_splits option.splits json.splits)
  with assms(1) have "json_ok f max_depth (JObj kvs)" by (blast intro: json_parse_ok)
  then show ?thesis by (simp add: doc map_puts_ordered)
qed

lemma json_ok_Some: "json_ok f d v \<Longrightarrow> json_ok Some d v"
  by (induction v arbitrary: d) (auto split: prod.splits)

lemma json_parse_Some_of_ok:
  assumes "json_ok f max_depth v"
  shows "json_prefix Some (json_print v) = Some (v, [])"
  using json_prefix_print [OF json_ok_Some [OF assms], of "[]"] by (simp add: delim_def)

lemma reads_map_print:
  assumes "json_ok f max_depth (JObj doc)"
  shows "reads_map f (json_print (JObj doc)) doc"
proof -
  have "skip_ws (json_print (JObj doc)) = json_print (JObj doc)" by (simp add: is_ws_def)
  then have "unmarshal (dec_map f) None (json_print (JObj doc)) = dec_map f (json_print (JObj doc)) None"
    using json_parse_Some_of_ok [OF assms]
    by (simp add: unmarshal_def decode_def json_parse_def raw_between_def del: json_print.simps)
  also have "\<dots> = Some (Some doc)"
    using json_parse_print [OF assms] assms
    by (simp add: dec_map_def is_null_def map_puts_ordered)
  finally show ?thesis by (simp add: reads_map_def)
qed

lemma is_null_object: "is_null (object_text ms) = False"
  by (simp add: is_null_def object_text_def)

text \<open>The text of a struct is read as a map of its members.\<close>

lemma reads_map_object:
  assumes "\<And>e. e \<in> set kvs \<Longrightarrow> utf8_ok (fst e) \<and> json_ok f (max_depth - 1) (snd e)"
  shows "reads_map f (object_text (printed kvs)) (map_puts [] kvs)"
proof -
  let ?t = "object_text (printed kvs)"
  have "member_ok e" if "e \<in> set kvs" for e
    using assms [OF that] json_ok_Some by (auto simp: member_ok_def)
  note member = decode_object [of kvs "dec_map f" None, OF this] prefix_object [of kvs Some, unfolded member_ok_def [symmetric], OF this]
  have "json_parse f ?t = Some (JObj (map_puts [] kvs))"
    using prefix_object [of kvs f, OF assms] by (simp add: json_parse_def)
  then show ?thesis
    using member
    by (simp add: reads_map_def unmarshal_def json_parse_def [of Some] dec_map_def is_null_object map_puts_ordered
        ordered_map_puts)
qed

lemma redactJSON_object:
  "reads_map f s doc \<Longrightarrow> redactJSON f s fs = Some (json_print (JObj (redact_doc fs doc)))"
  by (simp add: reads_map_def redactJSON_def map_text_def)

lemma redactJSON_reads:
  assumes "number_codec f" and "reads_map f s doc"
  shows "\<exists>out. redactJSON f s fs = Some out \<and> reads_map f out (redact_doc fs doc)"
  unfolding redactJSON_object [OF assms(2)]
  by (rule exI, rule conjI, rule refl) (intro reads_map_print json_ok_redact_doc reads_map_ok [OF assms])

lemma redactJSON_cases:
  assumes "redactJSON f s fs = Some out"
  obtains (null) "unmarshal (dec_map f) None s = Some None" and "out = ''null''"
  | (object) doc where "reads_map f s doc" and "out = json_print (JObj (redact_doc fs doc))"
  using assms by (auto simp: redactJSON_def map_text_def reads_map_def split: option.splits)

lemma redactJSON_not_object:
  assumes "unmarshal (dec_map f) None s = None"
  shows "redactJSON f s fs = None"
  using assms by (simp add: redactJSON_def)

lemma reads_null: "unmarshal (dec_map f) None ''null'' = Some None"
  using json_prefix_print [of Some JNull "[]"]
  by (simp add: unmarshal_def decode_def json_parse_def raw_between_def dec_map_def is_null_def
      is_ws_def delim_def)

lemma redactJSON_twice:
  assumes "number_codec f" and "redactJSON f s fs = Some out"
  shows "redactJSON f out fs = Some out"
  using assms(2)
proof (cases rule: redactJSON_cases)
  case null
  then show ?thesis by (simp add: redactJSON_def reads_null map_text_def)
next
  case (object doc)
  have "reads_map f out (redact_doc fs doc)"
    unfolding object(2) by (intro reads_map_print json_ok_redact_doc reads_map_ok [OF assms(1) object(1)])
  then show ?thesis
    using object reads_map_ok [OF assms(1) object(1)] by (simp add: redactJSON_object redact_doc_twice)
qed

lemma redactJSON_cong:
  assumes "number_codec f" and "set fs = set gs"
  shows "redactJSON f s fs = redactJSON f s gs"
proof (cases "unmarshal (dec_map f) None s")
  case (Some m)
  then show ?thesis
  proof (cases m)
    case s: (Some doc)
    with Some have "reads_map f s doc" by (simp add: reads_map_def)
    then have "ordered doc" using reads_map_ok [OF assms(1)] by simp
    then show ?thesis using Some s redact_doc_cong [OF _ assms(2)] by (simp add: redactJSON_def)
  qed (simp add: redactJSON_def)
qed (simp add: redactJSON_def)

end
