(* ===== verification/Keys.thy ===== *)
theory Keys
  imports Prelude
begin

text \<open>
  The Redis keys of \<^verbatim>\<open>internal/cache/keys.go\<close> and the textual form of UUIDs that goes into them.
  The keys of the three families never collide (\<open>key_namespaces_disjoint\<close>), and within a family
  a key determines its components as long as the leading ones hold no colon, which is so for every
  UUID text.
\<close>

section \<open>UUIDs\<close>

text \<open>
  The bytes of a \<^verbatim>\<open>pgtype.UUID\<close> (\<^verbatim>\<open>[16]byte\<close>); \<open>format_uuid\<close> is the
  \<^verbatim>\<open>fmt.Sprintf("%x-%x-%x-%x-%x", ...)\<close> of the proxy handler.
\<close>

type_synonym uuid = "byte list"

definition uuid_ok :: "uuid \<Rightarrow> bool" where
  "uuid_ok u \<longleftrightarrow> length u = 16"

definition slice_bytes :: "nat \<Rightarrow> nat \<Rightarrow> 'a list \<Rightarrow> 'a list" where
  "slice_bytes i j xs = take (j - i) (drop i xs)"

definition format_uuid :: "uuid \<Rightarrow> string" where
  "format_uuid u =
    hex_encode (slice_bytes 0 4 u) @ ''-'' @ hex_encode (slice_bytes 4 6 u) @ ''-'' @
    hex_encode (slice_bytes 6 8 u) @ ''-'' @ hex_encode (slice_bytes 8 10 u) @ ''-'' @
    hex_encode (slice_bytes 10 16 u)"

definition uuid_chars :: "char set" where
  "uuid_chars = insert (CHR ''-'') hex_chars"

lemma uuid_slices:
  assumes "uuid_ok u"
  shows "u = slice_bytes 0 4 u @ slice_bytes 4 6 u @ slice_bytes 6 8 u @ slice_bytes 8 10 u
    @ slice_bytes 10 16 u"
proof -
  have split: "slice_bytes i k u = slice_bytes i j u @ slice_bytes j k u" if "i \<le> j" "j \<le> k" for i j k
  proof -
    have "take (k - i) (drop i u) = take ((j - i) + (k - j)) (drop i u)" using that by simp
    then show ?thesis using that by (simp only: slice_bytes_def take_add drop_drop le_add_diff_inverse2)
  qed
  have "u = slice_bytes 0 16 u" using assms by (simp add: slice_bytes_def uuid_ok_def)
  also have "\<dots> = slice_bytes 0 4 u @ slice_bytes 4 16 u" by (rule split) simp_all
  also have "slice_bytes 4 16 u = slice_bytes 4 6 u @ slice_bytes 6 16 u" by (rule split) simp_all
  also have "slice_bytes 6 16 u = slice_bytes 6 8 u @ slice_bytes 8 16 u" by (rule split) simp_all
  also have "slice_bytes 8 16 u = slice_bytes 8 10 u @ slice_bytes 10 16 u" by (rule split) simp_all
  finally show ?thesis .
qed

lemma length_slice_bytes: "uuid_ok u \<Longrightarrow> i \<le> j \<Longrightarrow> j \<le> 16 \<Longrightarrow> length (slice_bytes i j u) = j - i"
  by (simp add: slice_bytes_def uuid_ok_def)

lemma length_format_uuid [simp]: "uuid_ok u \<Longrightarrow> length (format_uuid u) = 36"
  by (simp add: format_uuid_def length_slice_bytes)

lemma format_uuid_inj:
  assumes "uuid_ok u" and "uuid_ok v" and "format_uuid u = format_uuid v"
  shows "u = v"
proof -
  have len: "length (hex_encode (slice_bytes i j u)) = length (hex_encode (slice_bytes i j v))"
    if "i \<le> j" "j \<le> 16" for i j
    using that assms by (simp add: length_slice_bytes)
  have "slice_bytes 0 4 u = slice_bytes 0 4 v" "slice_bytes 4 6 u = slice_bytes 4 6 v"
    "slice_bytes 6 8 u = slice_bytes 6 8 v" "slice_bytes 8 10 u = slice_bytes 8 10 v"
    "slice_bytes 10 16 u = slice_bytes 10 16 v"
    using assms(3) len by (auto simp: format_uuid_def hex_encode_inj)
  then show ?thesis
    using uuid_slices [OF assms(1)] uuid_slices [OF assms(2)] by simp
qed

lemma set_format_uuid: "set (format_uuid u) \<subseteq> uuid_chars"
  using set_hex_encode by (auto simp: format_uuid_def uuid_chars_def)

lemma colon_format_uuid: "CHR '':'' \<notin> set (format_uuid u)"
proof -
  have "CHR '':'' \<notin> uuid_chars" by (simp add: uuid_chars_def hex_chars_def)
  then show ?thesis using set_format_uuid by blast
qed

section \<open>Lifetimes and keys\<close>

text \<open>Seconds; the window of the rate limiter is in seconds too.\<close>

definition PolicyTTL :: int where "PolicyTTL = 60"
definition TokenTTL :: int where "TokenTTL = 8 * 60 * 60"
definition RateLimitWindow :: int where "RateLimitWindow = 60"

definition PolicyKey :: "string \<Rightarrow> string \<Rightarrow> string \<Rightarrow> string" where
  [key_defs]: "PolicyKey roleID serverID toolName =
    ''policy:'' @ roleID @ '':'' @ serverID @ '':'' @ toolName"

definition RateLimitKey :: "string \<Rightarrow> string \<Rightarrow> string" where
  [key_defs]: "RateLimitKey userID serverID = ''ratelimit:'' @ userID @ '':'' @ serverID"

definition TokenKey :: "string \<Rightarrow> string" where
  [key_defs]: "TokenKey tokenHash = ''token:'' @ tokenHash"

lemma key_namespaces_disjoint [simp]:
  "PolicyKey r s t \<noteq> RateLimitKey u v" "RateLimitKey u v \<noteq> PolicyKey r s t"
  "PolicyKey r s t \<noteq> TokenKey h" "TokenKey h \<noteq> PolicyKey r s t"
  "RateLimitKey u v \<noteq> TokenKey h" "TokenKey h \<noteq> RateLimitKey u v"
  by (simp_all add: key_defs)

text \<open>Text without a colon, a colon, and the rest: both parts are determined.\<close>

lemma colon_split:
  assumes "CHR '':'' \<notin> set a" and "CHR '':'' \<notin> set b"
  shows "a @ CHR '':'' # x = b @ CHR '':'' # y \<longleftrightarrow> a = b \<and> x = y"
proof
  assume eq: "a @ CHR '':'' # x = b @ CHR '':'' # y"
  have tw: "takeWhile (\<lambda>c. c \<noteq> CHR '':'') (c @ CHR '':'' # z) = c" if "CHR '':'' \<notin> set c" for c z
    using that by (induction c) auto
  have "a = b" using tw [OF assms(1), of x] tw [OF assms(2), of y] eq by simp
  with eq show "a = b \<and> x = y" by simp
qed simp

lemma TokenKey_inj [simp]: "TokenKey h = TokenKey h' \<longleftrightarrow> h = h'"
  by (simp add: key_defs)

lemma PolicyKey_inj:
  assumes "CHR '':'' \<notin> set r" "CHR '':'' \<notin> set r'" "CHR '':'' \<notin> set s" "CHR '':'' \<notin> set s'"
  shows "PolicyKey r s t = PolicyKey r' s' t' \<longleftrightarrow> r = r' \<and> s = s' \<and> t = t'"
  using colon_split [OF assms(1,2)] colon_split [OF assms(3,4)] by (simp add: key_defs)

lemma RateLimitKey_inj:
  assumes "CHR '':'' \<notin> set s" "CHR '':'' \<notin> set s'"
  shows "RateLimitKey u s = RateLimitKey u' s' \<longleftrightarrow> u = u' \<and> s = s'"
proof -
  have "u @ CHR '':'' # s = u' @ CHR '':'' # s' \<longleftrightarrow>
      rev s @ CHR '':'' # rev u = rev s' @ CHR '':'' # rev u'"
    by (metis append.assoc append_Cons append_Nil rev_append rev_eq_Cons_iff rev_rev_ident
        rev_singleton_conv)
  then show ?thesis using colon_split [of "rev s" "rev s'"] assms by (auto simp: key_defs)
qed

lemma policy_key_of_uuids:
  assumes "uuid_ok r" "uuid_ok r'" "uuid_ok s" "uuid_ok s'"
  shows "PolicyKey (format_uuid r) (format_uuid s) t = PolicyKey (format_uuid r') (format_uuid s') t'
    \<longleftrightarrow> r = r' \<and> s = s' \<and> t = t'"
  using assms by (auto simp: PolicyKey_inj colon_format_uuid dest: format_uuid_inj)

end
