(* ===== verification/Redis.thy ===== *)
theory Redis
  imports Keys
begin

text \<open>
  What the program uses of a Redis server. The server is not part of the repository: its commands
  are the fields of a record that the definitions take as an argument, over a server state of any
  type, with the time of the call (nanoseconds) as an argument. The locale \<open>redis_strings\<close> states the
  documented behaviour of the string commands, through the ghost function \<open>view\<close>: what \<^verbatim>\<open>GET\<close> would
  see at a given time if nobody wrote in between. A call may fail at any time, and a write that
  failed may or may not have been applied.

  \<open>mem_redis\<close> is a keyspace with expiry that has this behaviour; it shows that the contract can be
  met and is what the witnesses of the development run on.
\<close>

section \<open>Commands\<close>

datatype reply = RVal string | RNil | RFault

record 'r redis =
  r_get :: "string \<Rightarrow> int \<Rightarrow> 'r \<Rightarrow> reply"
  r_set :: "string \<Rightarrow> string \<Rightarrow> int \<Rightarrow> int \<Rightarrow> 'r \<Rightarrow> bool \<times> 'r"
  r_del :: "string \<Rightarrow> int \<Rightarrow> 'r \<Rightarrow> bool \<times> 'r"

definition seconds :: "int \<Rightarrow> int" where
  "seconds n = n * 1000000000"

locale redis_strings =
  fixes R :: "'r redis"
    and view :: "'r \<Rightarrow> string \<Rightarrow> int \<Rightarrow> string option"
  assumes get_val: "r_get R k t r = RVal v \<Longrightarrow> view r k t = Some v"
    and get_nil: "r_get R k t r = RNil \<Longrightarrow> view r k t = None"
    and set_ok_live: "r_set R k v ttl t r = (True, r') \<Longrightarrow> t \<le> t' \<Longrightarrow> t' < t + ttl \<Longrightarrow> view r' k t' = Some v"
    and set_ok_only: "r_set R k v ttl t r = (True, r') \<Longrightarrow> t \<le> t' \<Longrightarrow> view r' k t' = Some u \<Longrightarrow>
      u = v \<and> t' \<le> t + ttl"
    and set_fault: "r_set R k v ttl t r = (False, r') \<Longrightarrow> t \<le> t' \<Longrightarrow>
      view r' k t' = view r k t' \<or> view r' k t' = (if t' \<le> t + ttl then Some v else None)
      \<or> view r' k t' = None"
    and set_other: "r_set R k v ttl t r = (b, r') \<Longrightarrow> k' \<noteq> k \<Longrightarrow> view r' k' t' = view r k' t'"
    and del_ok: "r_del R k t r = (True, r') \<Longrightarrow> view r' k t' = None"
    and del_fault: "r_del R k t r = (False, r') \<Longrightarrow> view r' k t' = view r k t' \<or> view r' k t' = None"
    and del_other: "r_del R k t r = (b, r') \<Longrightarrow> k' \<noteq> k \<Longrightarrow> view r' k' t' = view r k' t'"
begin

lemma get_live: "view r k t = Some v \<Longrightarrow> r_get R k t r \<noteq> RFault \<Longrightarrow> r_get R k t r = RVal v"
  using get_val get_nil by (cases "r_get R k t r") fastforce+

lemma get_dead: "view r k t = None \<Longrightarrow> r_get R k t r = RNil \<or> r_get R k t r = RFault"
  using get_val by (cases "r_get R k t r") fastforce+

lemma get_after_set:
  "r_set R k v ttl t r = (True, r') \<Longrightarrow> t \<le> t' \<Longrightarrow> t' < t + ttl \<Longrightarrow>
    r_get R k t' r' \<noteq> RFault \<Longrightarrow> r_get R k t' r' = RVal v"
  using get_live set_ok_live by blast

lemma get_after_del: "r_del R k t r = (True, r') \<Longrightarrow> r_get R k t' r' = RNil \<or> r_get R k t' r' = RFault"
  using get_dead del_ok by blast

end

section \<open>A keyspace with expiry\<close>

text \<open>The state: the entries, each with its expiry time, and whether the server is reachable.\<close>

record keyspace =
  ks_entries :: "string \<Rightarrow> (string \<times> int) option"
  ks_up :: bool

definition ks_view :: "keyspace \<Rightarrow> string \<Rightarrow> int \<Rightarrow> string option" where
  "ks_view s k t = (case ks_entries s k of None \<Rightarrow> None | Some (v, e) \<Rightarrow> if t < e then Some v else None)"

definition mem_redis :: "keyspace redis" where
  "mem_redis = \<lparr>
    r_get = \<lambda>k t s. if ks_up s then (case ks_view s k t of None \<Rightarrow> RNil | Some v \<Rightarrow> RVal v) else RFault,
    r_set = \<lambda>k v ttl t s.
      if ks_up s then (True, s\<lparr>ks_entries := (ks_entries s)(k \<mapsto> (v, t + ttl))\<rparr>) else (False, s),
    r_del = \<lambda>k t s.
      if ks_up s then (True, s\<lparr>ks_entries := (ks_entries s)(k := None)\<rparr>) else (False, s)\<rparr>"

interpretation mem: redis_strings mem_redis ks_view
  by unfold_locales
    (auto simp: mem_redis_def ks_view_def split: if_splits option.splits)

definition empty_keyspace :: keyspace where
  "empty_keyspace = \<lparr>ks_entries = \<lambda>_. None, ks_up = True\<rparr>"

end
