(* ===== verification/Sha256.thy ===== *)
theory Sha256
  imports Prelude
begin

text \<open>
  SHA-256 (FIPS 180-4), the \<^verbatim>\<open>crypto/sha256\<close> of the Go standard library that \<^verbatim>\<open>internal/auth\<close> hashes
  tokens with: 32-bit words throughout, big-endian.
\<close>

unbundle bit_operations_syntax

definition ch :: "32 word \<Rightarrow> 32 word \<Rightarrow> 32 word \<Rightarrow> 32 word" where
  "ch x y z = (x AND y) XOR (NOT x AND z)"

definition maj :: "32 word \<Rightarrow> 32 word \<Rightarrow> 32 word \<Rightarrow> 32 word" where
  "maj x y z = (x AND y) XOR (x AND z) XOR (y AND z)"

definition rotr :: "nat \<Rightarrow> 32 word \<Rightarrow> 32 word" where
  "rotr n x = drop_bit n x OR push_bit (32 - n) x"

definition big0 :: "32 word \<Rightarrow> 32 word" where
  "big0 x = rotr 2 x XOR rotr 13 x XOR rotr 22 x"

definition big1 :: "32 word \<Rightarrow> 32 word" where
  "big1 x = rotr 6 x XOR rotr 11 x XOR rotr 25 x"

definition small0 :: "32 word \<Rightarrow> 32 word" where
  "small0 x = rotr 7 x XOR rotr 18 x XOR drop_bit 3 x"

definition small1 :: "32 word \<Rightarrow> 32 word" where
  "small1 x = rotr 17 x XOR rotr 19 x XOR drop_bit 10 x"

text \<open>The 64 round constants, eight to a row of 256 bits.\<close>

definition row_words :: "int \<Rightarrow> 32 word list" where
  "row_words n = map (\<lambda>i. word_of_int (n div 2 ^ (32 * i))) [7, 6, 5, 4, 3, 2, 1, 0]"

definition round_keys :: "32 word list" where
  "round_keys = concat (map row_words [
    0x428a2f9871374491b5c0fbcfe9b5dba53956c25b59f111f1923f82a4ab1c5ed5,
    0xd807aa9812835b01243185be550c7dc372be5d7480deb1fe9bdc06a7c19bf174,
    0xe49b69c1efbe47860fc19dc6240ca1cc2de92c6f4a7484aa5cb0a9dc76f988da,
    0x983e5152a831c66db00327c8bf597fc7c6e00bf3d5a7914706ca635114292967,
    0x27b70a852e1b21384d2c6dfc53380d13650a7354766a0abb81c2c92e92722c85,
    0xa2bfe8a1a81a664bc24b8b70c76c51a3d192e819d6990624f40e3585106aa070,
    0x19a4c1161e376c082748774c34b0bcb5391c0cb34ed8aa4a5b9cca4f682e6ff3,
    0x748f82ee78a5636f84c878148cc7020890befffaa4506cebbef9a3f7c67178f2])"

type_synonym hash_state = "32 word list"

definition init_hash :: hash_state where
  "init_hash = [0x6a09e667, 0xbb67ae85, 0x3c6ef372, 0xa54ff53a, 0x510e527f, 0x9b05688c, 0x1f83d9ab, 0x5be0cd19]"

text \<open>Bytes to big-endian words, and back.\<close>

fun to_words :: "byte list \<Rightarrow> 32 word list" where
  "to_words (a # b # c # d # r) =
    (push_bit 24 (ucast a) OR push_bit 16 (ucast b) OR push_bit 8 (ucast c) OR ucast d) # to_words r"
| "to_words _ = []"

definition word_bytes :: "32 word \<Rightarrow> byte list" where
  "word_bytes w = [ucast (drop_bit 24 w), ucast (drop_bit 16 w), ucast (drop_bit 8 w), ucast w]"

text \<open>The padding: a 1 bit, zeros up to 56 modulo 64 bytes, and the length in bits as 64 bits.\<close>

definition length_bytes :: "64 word \<Rightarrow> byte list" where
  "length_bytes n = map (\<lambda>i. ucast (drop_bit (8 * i) n)) [7, 6, 5, 4, 3, 2, 1, 0]"

definition pad :: "byte list \<Rightarrow> byte list" where
  "pad m = m @ 0x80 # replicate ((119 - length m mod 64) mod 64) 0 @ length_bytes (of_nat (8 * length m))"

text \<open>The message schedule, extended from its latest word backwards.\<close>

fun extend :: "nat \<Rightarrow> 32 word list \<Rightarrow> 32 word list" where
  "extend 0 ws = ws"
| "extend (Suc n) ws = extend n ((small1 (ws ! 1) + ws ! 6 + small0 (ws ! 14) + ws ! 15) # ws)"

definition schedule :: "32 word list \<Rightarrow> 32 word list" where
  "schedule block = rev (extend 48 (rev block))"

fun round_step :: "hash_state \<Rightarrow> 32 word \<times> 32 word \<Rightarrow> hash_state" where
  "round_step [a, b, c, d, e, f, g, h] (k, w) =
    (let t1 = h + big1 e + ch e f g + k + w; t2 = big0 a + maj a b c
     in [t1 + t2, a, b, c, d + t1, e, f, g])"
| "round_step s _ = s"

definition process_block :: "hash_state \<Rightarrow> 32 word list \<Rightarrow> hash_state" where
  "process_block s block = map2 (+) s (foldl round_step s (zip round_keys (schedule block)))"

function process :: "hash_state \<Rightarrow> 32 word list \<Rightarrow> hash_state" where
  "process s ws = (if ws = [] then s else process (process_block s (take 16 ws)) (drop 16 ws))"
  by pat_completeness auto
termination by (relation "measure (\<lambda>(s, ws). length ws)") (auto simp: length_greater_0_conv [symmetric] simp del: length_greater_0_conv)

declare process.simps [simp del]

definition sha256_bytes :: "byte list \<Rightarrow> byte list" where
  "sha256_bytes m = concat (map word_bytes (process init_hash (to_words (pad m))))"

definition string_bytes :: "string \<Rightarrow> byte list" where
  "string_bytes s = map (\<lambda>c. of_nat (code c)) s"

definition sha256 :: "string \<Rightarrow> byte list" where
  "sha256 s = sha256_bytes (string_bytes s)"

section \<open>The digest has 32 bytes\<close>

lemma length_round_step [simp]: "length (round_step s kw) = length s"
  by (cases "(s, kw)" rule: round_step.cases) (simp_all add: Let_def)

lemma length_rounds [simp]: "length (foldl round_step s xs) = length s"
  by (induction xs arbitrary: s) simp_all

lemma length_process [simp]: "length (process s ws) = length s"
proof (induction s ws rule: process.induct)
  case (1 s ws)
  then show ?case by (subst process.simps) (simp add: process_block_def)
qed

lemma length_sha256 [simp]: "length (sha256 s) = 32"
proof -
  have "length (concat (map word_bytes ws)) = 4 * length ws" for ws
    by (induction ws) (simp_all add: word_bytes_def)
  then show ?thesis by (simp add: sha256_def sha256_bytes_def init_hash_def)
qed

end
