(* ===== verification/Tokens.thy ===== *)
theory Tokens
  imports Redis Sha256
begin

text \<open>
  Per-user proxy tokens (\<^verbatim>\<open>internal/auth/tokens.go\<close>) and the resolver of secret references
  (\<^verbatim>\<open>internal/auth/resolver.go\<close>). A token is the hexadecimal text of 32 random bytes; Redis keeps the
  user under the hash of the token. The random bytes (\<open>None\<close> when \<^verbatim>\<open>rand.Read\<close> fails) and the time are
  arguments.
\<close>

section \<open>Tokens\<close>

datatype token_error = ErrTokenNotFound | ErrTokenInvalid | ErrRedis | ErrRandom

record 'r token_manager =
  tm_redis :: "'r redis"
  tm_ttl :: int

definition NewTokenManager :: "'r redis \<Rightarrow> int \<Rightarrow> 'r token_manager" where
  "NewTokenManager rdb ttl = \<lparr>tm_redis = rdb, tm_ttl = (if ttl = 0 then seconds TokenTTL else ttl)\<rparr>"

definition generateToken :: "byte list option \<Rightarrow> token_error + string" where
  "generateToken rand = (case rand of None \<Rightarrow> Inl ErrRandom | Some buf \<Rightarrow> Inr (hex_encode buf))"

definition hashToken :: "string \<Rightarrow> string" where
  "hashToken raw = hex_encode (sha256 raw)"

definition Issue ::
  "'r token_manager \<Rightarrow> byte list option \<Rightarrow> string \<Rightarrow> int \<Rightarrow> 'r \<Rightarrow> (token_error + string) \<times> 'r" where
  "Issue m rand userID now r =
    (case generateToken rand of
      Inl e \<Rightarrow> (Inl e, r)
    | Inr raw \<Rightarrow>
      (case r_set (tm_redis m) (TokenKey (hashToken raw)) userID (tm_ttl m) now r of
        (ok, r') \<Rightarrow> (if ok then Inr raw else Inl ErrRedis, r')))"

definition Validate :: "'r token_manager \<Rightarrow> string \<Rightarrow> int \<Rightarrow> 'r \<Rightarrow> token_error + string" where
  "Validate m raw now r =
    (if length raw \<noteq> 64 then Inl ErrTokenInvalid
     else case r_get (tm_redis m) (TokenKey (hashToken raw)) now r of
       RNil \<Rightarrow> Inl ErrTokenNotFound
     | RFault \<Rightarrow> Inl ErrRedis
     | RVal userID \<Rightarrow> Inr userID)"

definition Revoke :: "'r token_manager \<Rightarrow> string \<Rightarrow> int \<Rightarrow> 'r \<Rightarrow> (token_error + unit) \<times> 'r" where
  "Revoke m raw now r =
    (case r_del (tm_redis m) (TokenKey (hashToken raw)) now r of
      (ok, r') \<Rightarrow> (if ok then Inr () else Inl ErrRedis, r'))"

lemma length_hashToken [simp]: "length (hashToken raw) = 64"
  by (simp add: hashToken_def)

lemma hashToken_inj: "hashToken a = hashToken b \<longleftrightarrow> sha256 a = sha256 b"
  by (simp add: hashToken_def hex_encode_inj)

lemma Issue_token:
  "Issue m rand u now r = (Inr raw, r') \<Longrightarrow>
    \<exists>buf. rand = Some buf \<and> raw = hex_encode buf \<and>
      r_set (tm_redis m) (TokenKey (hashToken raw)) u (tm_ttl m) now r = (True, r')"
  by (auto simp: Issue_def generateToken_def split: option.splits prod.splits if_splits)

lemma Validate_user:
  "Validate m raw now r = Inr u \<longleftrightarrow>
    length raw = 64 \<and> r_get (tm_redis m) (TokenKey (hashToken raw)) now r = RVal u"
  by (auto simp: Validate_def split: reply.splits)

subsection \<open>The life of a token\<close>

text \<open>
  The contract of the token store over a Redis server: what a validation says after an issue, a
  revocation, or an operation on another token.
\<close>

context redis_strings
begin

lemma validate_issued:
  assumes "tm_redis m = R" and "Issue m (Some buf) u now r = (Inr raw, r')" and "length buf = 32"
    and "now \<le> t" and "t < now + tm_ttl m"
  shows "Validate m raw t r' = Inr u \<or> Validate m raw t r' = Inl ErrRedis"
  using Issue_token [OF assms(2)] get_after_set [of "TokenKey (hashToken raw)" u "tm_ttl m" now r r' t] assms
  by (auto simp: Validate_def split: reply.splits)

lemma validate_expired:
  assumes "tm_redis m = R" and "Issue m rand u now r = (Inr raw, r')" and "now \<le> t" and "now + tm_ttl m < t"
  shows "\<exists>e. Validate m raw t r' = Inl e"
proof -
  have "view r' (TokenKey (hashToken raw)) t = None"
    using Issue_token [OF assms(2)] set_ok_only [of "TokenKey (hashToken raw)" u "tm_ttl m" now r r' t] assms
    by fastforce
  then show ?thesis
    using get_dead [of r' "TokenKey (hashToken raw)" t] assms(1)
    by (auto simp: Validate_def split: reply.splits)
qed

lemma validate_revoked:
  assumes "tm_redis m = R" and "Revoke m raw now r = (Inr (), r')"
  shows "\<exists>e. Validate m raw t r' = Inl e"
  using assms get_after_del [of "TokenKey (hashToken raw)" now r r' t]
  by (auto simp: Revoke_def Validate_def split: reply.splits prod.splits if_splits)

lemma view_after_issue:
  assumes "tm_redis m = R" and "snd (Issue m rand u now r) = r'"
    and "\<And>buf. rand = Some buf \<Longrightarrow> k \<noteq> TokenKey (hashToken (hex_encode buf))"
  shows "view r' k t = view r k t"
  using assms set_other
  by (fastforce simp: Issue_def generateToken_def split: option.splits prod.splits)

end

section \<open>Secret references\<close>

datatype resolve_error = EnvUnset string | UnrecognisedRef string

text \<open>\<^verbatim>\<open>getenv\<close> is the process environment: the empty string for a variable that is not set.\<close>

definition Resolve :: "(string \<Rightarrow> string) \<Rightarrow> string \<Rightarrow> resolve_error + string" where
  "Resolve getenv ref =
    (case cut_prefix ref ''env:'' of
      Some name \<Rightarrow> (if getenv name = [] then Inl (EnvUnset name) else Inr (getenv name))
    | None \<Rightarrow> Inl (UnrecognisedRef ref))"

end
