(* ===== verification/Forwarder.thy ===== *)
theory Forwarder
  imports Mcp Tokens
begin

text \<open>
  Forwarding a call to a downstream server (\<^verbatim>\<open>internal/mcp/forwarder.go\<close>). The HTTP client and the
  network are a parameter: \<open>http_do\<close> gives the answer of the server and the next state of the outside
  world, and \<open>url_ok\<close> says which base URLs \<^verbatim>\<open>http.NewRequestWithContext\<close> accepts. The interface
  \<^verbatim>\<open>SecretResolver\<close> is the locale \<open>secret_resolver\<close>; \<^verbatim>\<open>EnvSecretResolver\<close> is its provider.
\<close>

section \<open>HTTP\<close>

record http_request =
  hreq_method :: string
  hreq_url :: string
  hreq_headers :: "(string \<times> string) list"
  hreq_body :: string

text \<open>
  A response: its status, the bytes of its body, and whether reading fails after these bytes.
\<close>

record http_response =
  hres_status :: int
  hres_body :: string
  hres_broken :: bool

type_synonym 'w http_client = "http_request \<Rightarrow> 'w \<Rightarrow> (string + http_response) \<times> 'w"

text \<open>\<^verbatim>\<open>Header.Set\<close>, for names already in canonical form.\<close>

definition set_header :: "string \<Rightarrow> string \<Rightarrow> (string \<times> string) list \<Rightarrow> (string \<times> string) list" where
  "set_header k v h = filter (\<lambda>e. fst e \<noteq> k) h @ [(k, v)]"

section \<open>The secret resolver interface\<close>

locale secret_resolver =
  fixes resolve :: "string \<Rightarrow> resolve_error + string"
  assumes resolved_nonempty: "resolve ref = Inr secret \<Longrightarrow> secret \<noteq> []"

section \<open>Forward\<close>

datatype forward_error =
    MarshalRequest
  | BuildRequest
  | ResolveSecret resolve_error
  | DownstreamHTTP string
  | ReadBody
  | HTTPStatus int string
  | ParseResponse

definition credential :: "string \<Rightarrow> string \<Rightarrow> (string \<times> string) list \<Rightarrow> (string \<times> string) list" where
  "credential authType secret h =
    (if authType = ''bearer'' \<or> authType = [] then set_header ''Authorization'' (''Bearer '' @ secret) h
     else if authType = ''api_key'' then set_header ''X-Api-Key'' secret h
     else h)"

definition build_request ::
  "(string \<Rightarrow> resolve_error + string) \<Rightarrow> (string \<Rightarrow> bool) \<Rightarrow> string \<Rightarrow> string \<Rightarrow> string \<Rightarrow> Request \<Rightarrow>
    forward_error + http_request" where
  "build_request resolve url_ok baseURL authType authSecretRef req =
    (if \<not> (raw_ok (req_ID req) \<and> raw_ok (req_Params req)) then Inl MarshalRequest
     else if \<not> url_ok baseURL then Inl BuildRequest
     else
       let headers = set_header ''Accept'' ''application/json''
             (set_header ''Content-Type'' ''application/json'' []);
           httpReq = \<lparr>hreq_method = ''POST'', hreq_url = baseURL, hreq_headers = headers,
             hreq_body = request_text req\<rparr>
       in if authSecretRef = [] then Inr httpReq
          else case resolve authSecretRef of
            Inl e \<Rightarrow> Inl (ResolveSecret e)
          | Inr secret \<Rightarrow> Inr (httpReq\<lparr>hreq_headers := credential authType secret headers\<rparr>))"

definition body_limit :: nat where
  "body_limit = 10 * 2 ^ 20"

definition read_response :: "http_response \<Rightarrow> forward_error + Response" where
  "read_response resp =
    (if hres_broken resp \<and> length (hres_body resp) < body_limit then Inl ReadBody
     else
       let raw = take body_limit (hres_body resp)
       in if hres_status resp < 200 \<or> 300 \<le> hres_status resp then Inl (HTTPStatus (hres_status resp) raw)
          else case unmarshal dec_response zero_Response raw of
            None \<Rightarrow> Inl ParseResponse
          | Some rpcResp \<Rightarrow> Inr rpcResp)"

definition Forward ::
  "(string \<Rightarrow> resolve_error + string) \<Rightarrow> (string \<Rightarrow> bool) \<Rightarrow> 'w http_client \<Rightarrow>
    string \<Rightarrow> string \<Rightarrow> string \<Rightarrow> Request \<Rightarrow> 'w \<Rightarrow> (forward_error + Response) \<times> 'w" where
  "Forward resolve url_ok http_do baseURL authType authSecretRef req w =
    (case build_request resolve url_ok baseURL authType authSecretRef req of
      Inl e \<Rightarrow> (Inl e, w)
    | Inr httpReq \<Rightarrow>
      (case http_do httpReq w of
        (Inl err, w') \<Rightarrow> (Inl (DownstreamHTTP err), w')
      | (Inr resp, w') \<Rightarrow> (read_response resp, w')))"

section \<open>Facts\<close>

definition attached :: "string \<Rightarrow> string \<Rightarrow> (string \<times> string) list" where
  "attached ty secret =
    (if ty = ''bearer'' \<or> ty = [] then [(''Authorization'', ''Bearer '' @ secret)]
     else if ty = ''api_key'' then [(''X-Api-Key'', secret)] else [])"

abbreviation base_headers :: "(string \<times> string) list" where
  "base_headers \<equiv> [(''Content-Type'', ''application/json''), (''Accept'', ''application/json'')]"

lemma set_base_headers:
  "set_header ''Accept'' ''application/json'' (set_header ''Content-Type'' ''application/json'' []) = base_headers"
  by (simp add: set_header_def)

lemma credential_base: "credential ty secret base_headers = base_headers @ attached ty secret"
  by (simp add: credential_def attached_def set_header_def)

text \<open>The request that is built, on every branch.\<close>

lemma build_request_cases:
  assumes "build_request resolve url_ok base ty ref req = Inr h"
  obtains (no_ref) "url_ok base" "ref = []" and
      "h = \<lparr>hreq_method = ''POST'', hreq_url = base, hreq_headers = base_headers, hreq_body = request_text req\<rparr>"
    | (secret) secret where "url_ok base" "ref \<noteq> []" "resolve ref = Inr secret" and
      "h = \<lparr>hreq_method = ''POST'', hreq_url = base, hreq_headers = base_headers @ attached ty secret,
        hreq_body = request_text req\<rparr>"
  using assms unfolding build_request_def Let_def set_base_headers credential_base
  by (simp split: if_splits sum.splits)

lemma build_request_body:
  "build_request resolve url_ok base ty ref req = Inr h \<Longrightarrow> hreq_url h = base \<and> hreq_body h = request_text req"
  by (erule build_request_cases) simp_all

lemma Forward_no_request:
  assumes "build_request resolve url_ok base ty ref req = Inl e"
  shows "Forward resolve url_ok http_do base ty ref req w = (Inl e, w)"
  using assms by (simp add: Forward_def)

lemma read_response_ok:
  assumes "read_response resp = Inr r"
  shows "200 \<le> hres_status resp" and "hres_status resp < 300"
  using assms by (auto simp: read_response_def Let_def split: if_splits)

context secret_resolver
begin

text \<open>A credential that is attached is never blank.\<close>

lemma credential_not_blank:
  assumes "build_request resolve url_ok base ty ref req = Inr h" and "(''X-Api-Key'', v) \<in> set (hreq_headers h)"
  shows "v \<noteq> []"
  using assms by (cases rule: build_request_cases) (auto simp: attached_def dest: resolved_nonempty split: if_splits)

end

interpretation env_resolver: secret_resolver "Resolve getenv" for getenv
  by unfold_locales (auto simp: Resolve_def split: option.splits if_splits)

end
