(* ===== verification/Mcp_Props.thy ===== *)
theory Mcp_Props
  imports Forwarder
begin

text \<open>
  Properties of the redaction, of the proxy tokens and of the forwarder.
\<close>

section \<open>Redaction\<close>

lemma reads_map_nonempty: "reads_map f s doc \<Longrightarrow> s \<noteq> []"
  by (auto simp: reads_map_def unmarshal_def json_parse_def json_prefix_def fuel_for_def parse_eval)

lemma RedactJSONBytes_object:
  "reads_map f s doc \<Longrightarrow> fs \<noteq> [] \<Longrightarrow> RedactJSONBytes f s fs = json_print (JObj (redact_doc fs doc))"
  using reads_map_nonempty [of f s doc] by (simp add: RedactJSONBytes_def redactJSON_object)

text \<open>The example of the witnesses.\<close>

definition demo_f64 :: "string \<Rightarrow> string option" where
  "demo_f64 t = (if is_number t then Some t else None)"

lemma demo_f64_codec: "number_codec demo_f64"
  by (simp add: number_codec_def demo_f64_def)

definition demo_doc :: "string \<Rightarrow> (string \<times> json) list" where
  "demo_doc ssn = [(''name'', JStr ''A''), (''ssn'', JStr ssn)]"

definition demo_text :: "string \<Rightarrow> string" where
  "demo_text ssn = json_print (JObj (demo_doc ssn))"

lemma demo_text_reads: "utf8_ok ssn \<Longrightarrow> reads_map demo_f64 (demo_text ssn) (demo_doc ssn)"
  unfolding demo_text_def by (rule reads_map_print) (simp add: demo_doc_def max_depth_def utf8_len_def less_char_def)

lemma demo_ssn_ok: "utf8_ok ''123''" "utf8_ok ''456''"
  by (simp_all add: utf8_len_def)

text \<open>C17: redaction replaces exactly the listed top-level keys. The output of \<open>RedactJSONBytes\<close> on a JSON object is a
  JSON object with the same keys; the value of each listed key that is there is the placeholder, and every other
  value is what it was.\<close>

theorem redaction_is_exact:
  assumes "number_codec f" and "reads_map f s doc" and "fs \<noteq> []"
  shows "\<exists>doc'. reads_map f (RedactJSONBytes f s fs) doc' \<and>
    (\<forall>k. map_of doc' k = (if k \<in> set fs then map_option (\<lambda>_. JStr redactedPlaceholder) (map_of doc k) else map_of doc k))"
proof (intro exI conjI allI)
  have ok: "json_ok f max_depth (JObj doc)" by (rule reads_map_ok [OF assms(1,2)])
  show "reads_map f (RedactJSONBytes f s fs) (redact_doc fs doc)"
    unfolding RedactJSONBytes_object [OF assms(2,3)] by (rule reads_map_print [OF json_ok_redact_doc [OF ok]])
  show "map_of (redact_doc fs doc) k =
      (if k \<in> set fs then map_option (\<lambda>_. JStr redactedPlaceholder) (map_of doc k) else map_of doc k)" for k
    using ok by (simp add: redact_doc_lookup)
qed

theorem redaction_is_exact_witness:
  "\<exists>doc'. reads_map demo_f64 (RedactJSONBytes demo_f64 (demo_text ''123'') [''ssn'']) doc' \<and>
    map_of doc' ''ssn'' = Some (JStr redactedPlaceholder) \<and> map_of doc' ''name'' = Some (JStr ''A'')"
  using redaction_is_exact [OF demo_f64_codec demo_text_reads [OF demo_ssn_ok(1)], of "[''ssn'']"]
  by (auto simp: demo_doc_def)

text \<open>C18: the values of listed keys do not leak. Two JSON objects with the same keys that differ only in the values
  of listed keys are redacted to the same bytes.\<close>

theorem redaction_hides_listed_values:
  assumes "number_codec f" and "reads_map f s doc" and "reads_map f s' doc'" and "fs \<noteq> []"
    and "dom (map_of doc) = dom (map_of doc')" and "\<And>k. k \<notin> set fs \<Longrightarrow> map_of doc k = map_of doc' k"
  shows "RedactJSONBytes f s fs = RedactJSONBytes f s' fs"
proof -
  have "ordered doc" "ordered doc'"
    using reads_map_ok [OF assms(1,2)] reads_map_ok [OF assms(1,3)] by simp_all
  then have "redact_doc fs doc = redact_doc fs doc'" by (intro redact_doc_hides assms(5,6))
  then show ?thesis by (simp add: RedactJSONBytes_object [OF assms(2,4)] RedactJSONBytes_object [OF assms(3,4)])
qed

theorem redaction_hides_listed_values_witness:
  "RedactJSONBytes demo_f64 (demo_text ''123'') [''ssn''] = RedactJSONBytes demo_f64 (demo_text ''456'') [''ssn'']"
  by (rule redaction_hides_listed_values [OF demo_f64_codec demo_text_reads [OF demo_ssn_ok(1)]
        demo_text_reads [OF demo_ssn_ok(2)]])
    (auto simp: demo_doc_def)

text \<open>Redacting again changes nothing, and neither the order of the field list nor a repetition in it matters.\<close>

theorem redaction_is_idempotent:
  assumes "number_codec f" and "set fs = set gs"
  shows "RedactJSONBytes f (RedactJSONBytes f s fs) gs = RedactJSONBytes f s fs \<and>
    RedactJSONBytes f s gs = RedactJSONBytes f s fs"
proof -
  have same: "redactJSON f t gs = redactJSON f t fs" for t using redactJSON_cong [OF assms, of t] by simp
  have "fs = [] \<longleftrightarrow> gs = []" using assms(2) by (metis set_empty)
  then show ?thesis
    using redactJSON_twice [OF assms(1), of s fs]
    by (auto simp: RedactJSONBytes_def same split: option.splits)
qed

theorem redaction_is_idempotent_witness:
  "RedactJSONBytes demo_f64 (demo_text ''123'') [''x'', ''ssn'', ''x''] = RedactJSONBytes demo_f64 (demo_text ''123'') [''ssn'', ''x'']"
  using redaction_is_idempotent [OF demo_f64_codec, of "[''ssn'', ''x'']" "[''x'', ''ssn'', ''x'']"] by auto

lemma parse_array:
  "parse_value f n d (CHR ''['' # r) = Some (v, t) \<Longrightarrow> \<exists>vs. v = JArr vs"
  by (cases n) (auto simp: parse_value.simps split: if_splits option.splits)

lemma array_not_map:
  assumes "skip_ws s = CHR ''['' # r"
  shows "unmarshal (dec_map f) None s = None"
proof -
  have "dec_map f (raw_between (CHR ''['' # r) t) None = None" for t
  proof (cases "raw_between (CHR ''['' # r) t")
    case Nil
    then show ?thesis by (simp add: dec_map_def is_null_def parse_eval)
  next
    case (Cons c u)
    then have c: "c = CHR ''[''" by (auto simp: raw_between_def take_Cons split: nat.splits)
    have "json_parse f (c # u) = Some v \<Longrightarrow> \<exists>vs. v = JArr vs" for v
      using parse_array [of f "fuel_for (c # u)" max_depth u]
      by (auto simp: json_parse_def json_prefix_def c is_ws_def split: option.splits if_splits)
    then show ?thesis unfolding Cons by (auto simp: dec_map_def is_null_def c split: option.splits json.splits)
  qed
  then show ?thesis using assms by (auto simp: unmarshal_def decode_def split: option.splits)
qed

text \<open>Redaction looks at the top level of objects only. A document that is an array (of objects, say) is
  returned as it is, and so is, inside an object, the value of a key that is not listed, whatever listed
  keys it holds further down.\<close>

theorem redaction_is_top_level_only:
  assumes "number_codec f" and "skip_ws s = CHR ''['' # r"
  shows "RedactJSONBytes f s fs = s \<and>
    (\<forall>t doc k v. reads_map f t doc \<and> map_of doc k = Some v \<and> k \<notin> set fs \<and> fs \<noteq> [] \<longrightarrow>
      (\<exists>doc'. reads_map f (RedactJSONBytes f t fs) doc' \<and> map_of doc' k = Some v))"
proof (intro conjI allI impI)
  have "unmarshal (dec_map f) None s = None"
    by (rule array_not_map [OF assms(2)])
  then show "RedactJSONBytes f s fs = s" by (simp add: RedactJSONBytes_def redactJSON_not_object)
  fix t doc k v
  assume a: "reads_map f t doc \<and> map_of doc k = Some v \<and> k \<notin> set fs \<and> fs \<noteq> []"
  then have ok: "json_ok f max_depth (JObj doc)" using reads_map_ok [OF assms(1)] by blast
  then have "reads_map f (RedactJSONBytes f t fs) (redact_doc fs doc)"
    using a RedactJSONBytes_object [of f t doc fs] reads_map_print [OF json_ok_redact_doc [OF ok]] by simp
  then show "\<exists>doc'. reads_map f (RedactJSONBytes f t fs) doc' \<and> map_of doc' k = Some v"
    using a ok by (auto simp: redact_doc_lookup)
qed

theorem redaction_is_top_level_only_witness:
  "RedactJSONBytes demo_f64 ('' ['' @ demo_text ''123'' @ '']'') [''ssn''] = '' ['' @ demo_text ''123'' @ '']''"
  using redaction_is_top_level_only [OF demo_f64_codec, of "'' ['' @ demo_text ''123'' @ '']''" "demo_text ''123'' @ '']''" "[''ssn'']"]
  by (simp add: is_ws_def)

text \<open>The redaction of a tool result keeps its shape. The items stay in number and order, the error flag stays,
  an item that is not text, or whose text is not JSON that decodes as an object, stays as it is, and a text item
  that holds an object becomes the text of the redacted object.\<close>

theorem redaction_keeps_tool_result_shape:
  assumes "fs \<noteq> []"
  shows "tool_IsError (Mcp.RedactFields f result fs) = tool_IsError result \<and>
    length (slice_list (tool_Content (Mcp.RedactFields f result fs))) = length (slice_list (tool_Content result)) \<and>
    (\<forall>i < length (slice_list (tool_Content result)).
      let item = slice_list (tool_Content result) ! i; item' = slice_list (tool_Content (Mcp.RedactFields f result fs)) ! i in
      (item_Type item \<noteq> ''text'' \<or> unmarshal (dec_map f) None (item_Text item) = None \<longrightarrow> item' = item) \<and>
      (\<forall>doc. item_Type item = ''text'' \<and> reads_map f (item_Text item) doc \<longrightarrow>
        item' = \<lparr>item_Type = ''text'', item_Text = json_print (JObj (redact_doc fs doc))\<rparr>))"
proof -
  let ?r = "Mcp.RedactFields f result fs"
  have items: "slice_list (tool_Content ?r) = map (redact_item f fs) (slice_list (tool_Content result))"
    using assms by (simp add: Mcp.RedactFields_def)
  have same: "item_Type item \<noteq> ''text'' \<or> unmarshal (dec_map f) None (item_Text item) = None \<Longrightarrow> redact_item f fs item = item"
    for item by (auto simp: redact_item_def redactJSON_not_object)
  have red: "item_Type item = ''text'' \<Longrightarrow> reads_map f (item_Text item) doc \<Longrightarrow>
      redact_item f fs item = \<lparr>item_Type = ''text'', item_Text = json_print (JObj (redact_doc fs doc))\<rparr>" for item doc
    using reads_map_nonempty [of f "item_Text item" doc] by (simp add: redact_item_def redactJSON_object)
  show ?thesis
    using assms same red unfolding Let_def items by (auto simp: Mcp.RedactFields_def)
qed

theorem redaction_keeps_tool_result_shape_witness:
  "slice_list (tool_Content (Mcp.RedactFields demo_f64
      \<lparr>tool_Content = to_slice [\<lparr>item_Type = ''text'', item_Text = demo_text ''123''\<rparr>], tool_IsError = False\<rparr> [''ssn'']))
    = [\<lparr>item_Type = ''text'', item_Text = json_print (JObj (redact_doc [''ssn''] (demo_doc ''123'')))\<rparr>]"
  using redaction_keeps_tool_result_shape [of "[''ssn'']" demo_f64
      "\<lparr>tool_Content = to_slice [\<lparr>item_Type = ''text'', item_Text = demo_text ''123''\<rparr>], tool_IsError = False\<rparr>"]
    demo_text_reads [OF demo_ssn_ok(1)]
  by (auto simp: Let_def length_Suc_conv simp del: json_print.simps redact_doc.simps)

end
