(* ===== verification/Auth_Props.thy ===== *)
theory Auth_Props
  imports Mcp_Props
begin

text \<open>
  Properties of the proxy tokens, of the secret references, and of what the forwarder sends and accepts.
\<close>

section \<open>Tokens\<close>

text \<open>C30: the life of a token. On a Redis server with the documented behaviour, a token that was issued from 32
  random bytes passes the format check and, until its lifetime is over, validates to its user or (when the server
  cannot be read) reports a Redis error; after its lifetime it never validates, and neither does it after a
  successful revocation, at any time.\<close>

theorem token_life:
  assumes "redis_strings R view" and "tm_redis m = R" and "Issue m (Some buf) u now r = (Inr raw, r')" and "length buf = 32"
  shows "length raw = 64 \<and>
    (\<forall>t. now \<le> t \<and> t < now + tm_ttl m \<longrightarrow> Validate m raw t r' = Inr u \<or> Validate m raw t r' = Inl ErrRedis) \<and>
    (\<forall>t. now \<le> t \<and> now + tm_ttl m < t \<longrightarrow> (\<exists>e. Validate m raw t r' = Inl e)) \<and>
    (\<forall>s s' t t'. Revoke m raw t s = (Inr (), s') \<longrightarrow> (\<exists>e. Validate m raw t' s' = Inl e))"
proof (intro conjI allI impI)
  show "length raw = 64" using Issue_token [OF assms(3)] assms(4) by auto
next
  fix t
  assume "now \<le> t \<and> t < now + tm_ttl m"
  then show "Validate m raw t r' = Inr u \<or> Validate m raw t r' = Inl ErrRedis"
    using redis_strings.validate_issued [OF assms] by blast
next
  fix t
  assume "now \<le> t \<and> now + tm_ttl m < t"
  then show "\<exists>e. Validate m raw t r' = Inl e"
    using redis_strings.validate_expired [OF assms(1-3)] by blast
next
  fix s s' t t'
  assume "Revoke m raw t s = (Inr (), s')"
  then show "\<exists>e. Validate m raw t' s' = Inl e"
    using redis_strings.validate_revoked [OF assms(1,2)] by blast
qed

definition demo_manager :: "keyspace token_manager" where
  "demo_manager = NewTokenManager mem_redis 0"

definition demo_secret :: "byte list" where
  "demo_secret = replicate 32 7"

lemma demo_issue: "Issue demo_manager (Some demo_secret) ''alice'' 0 empty_keyspace =
    (Inr (hex_encode demo_secret), snd (Issue demo_manager (Some demo_secret) ''alice'' 0 empty_keyspace))"
  by (simp add: Issue_def generateToken_def demo_manager_def NewTokenManager_def mem_redis_def empty_keyspace_def)

lemma demo_manager_simps: "tm_redis demo_manager = mem_redis" "tm_ttl demo_manager = seconds TokenTTL"
  by (simp_all add: demo_manager_def NewTokenManager_def)

theorem token_life_witness:
  "Validate demo_manager (hex_encode demo_secret) (seconds 60)
      (snd (Issue demo_manager (Some demo_secret) ''alice'' 0 empty_keyspace)) \<in> {Inr ''alice'', Inl ErrRedis}"
  using token_life [OF mem.redis_strings_axioms demo_manager_simps(1) demo_issue]
  by (simp add: demo_secret_def demo_manager_simps seconds_def TokenTTL_def)

text \<open>Tokens do not interfere, with each other or with anything else in Redis. Issuing and revoking a token leaves
  every key as it was but the one of the hash of that token; in particular no cached policy decision and no token
  of another hash changes.\<close>

theorem token_operations_are_isolated:
  assumes "redis_strings R view" and "tm_redis m = R"
  shows "(\<forall>buf k t. k \<noteq> TokenKey (hashToken (hex_encode buf)) \<longrightarrow> view (snd (Issue m (Some buf) u now r)) k t = view r k t) \<and>
    (\<forall>raw k t. k \<noteq> TokenKey (hashToken raw) \<longrightarrow> view (snd (Revoke m raw now r)) k t = view r k t) \<and>
    (\<forall>raw roleID serverID tool t. view (snd (Revoke m raw now r)) (PolicyKey roleID serverID tool) t
      = view r (PolicyKey roleID serverID tool) t)"
proof -
  have revoke: "view (snd (Revoke m raw now r)) k t = view r k t" if "k \<noteq> TokenKey (hashToken raw)" for raw k t
    using redis_strings.del_other [OF assms(1) _ that] assms(2)
    by (cases "r_del R (TokenKey (hashToken raw)) now r") (auto simp: Revoke_def)
  moreover have "view (snd (Issue m (Some buf) u now r)) k t = view r k t"
    if "k \<noteq> TokenKey (hashToken (hex_encode buf))" for buf k t
    using redis_strings.view_after_issue [OF assms refl, of "Some buf" k u now r t] that by simp
  moreover have "PolicyKey roleID serverID tool \<noteq> TokenKey (hashToken raw)" for roleID serverID tool raw
    using key_namespaces_disjoint by blast
  ultimately show ?thesis by blast
qed

theorem token_operations_are_isolated_witness:
  "ks_view (snd (Revoke demo_manager ''x'' 0 empty_keyspace)) ''other'' 0 = None"
  using token_operations_are_isolated [OF mem.redis_strings_axioms demo_manager_simps(1), of "''u''" 0 empty_keyspace]
  by (auto simp: TokenKey_def ks_view_def empty_keyspace_def)

section \<open>The forwarder\<close>

text \<open>C31: what reaches a downstream server. A call of \<open>Forward\<close> sends no request at all (when the request cannot be
  built or the credential cannot be resolved, and then it reports that), or exactly one: a POST of the printed
  JSON-RPC request to the configured URL, whose headers are the two JSON headers followed by the credential of the
  authentication type, and none when no reference is set or the type is not known. The secret is in no other part.\<close>

theorem forward_sends_at_most_one_request:
  assumes "Forward resolve url_ok http_do base ty ref req w = (r, w')"
  shows "(w' = w \<and> (\<exists>e. r = Inl e \<and> (e = MarshalRequest \<or> e = BuildRequest \<or> (\<exists>x. e = ResolveSecret x \<and> resolve ref = Inl x)))) \<or>
    (\<exists>hs. w' = snd (http_do \<lparr>hreq_method = ''POST'', hreq_url = base, hreq_headers = base_headers @ hs,
        hreq_body = request_text req\<rparr> w) \<and>
      (if ref = [] then hs = [] else \<exists>secret. resolve ref = Inr secret \<and> hs = attached ty secret))"
proof (cases "build_request resolve url_ok base ty ref req")
  case (Inl e)
  then have "w' = w \<and> r = Inl e" using assms Forward_no_request [OF Inl, of http_do w] by simp
  then show ?thesis
    using Inl by (auto simp: build_request_def Let_def split: if_splits sum.splits)
next
  case (Inr h)
  then have w': "w' = snd (http_do h w)"
    using assms by (auto simp: Forward_def split: prod.splits sum.splits)
  show ?thesis
    using Inr
  proof (cases rule: build_request_cases)
    case no_ref
    then show ?thesis using w' by (intro disjI2 exI [of _ "[]"]) simp
  next
    case (secret s)
    then show ?thesis using w' by (intro disjI2 exI [of _ "attached ty s"]) simp
  qed
qed

definition demo_http :: "http_request list http_client" where
  "demo_http h w = (Inr \<lparr>hres_status = 500, hres_body = [], hres_broken = False\<rparr>, w @ [h])"

definition demo_request :: Request where
  "demo_request = \<lparr>req_JSONRPC = ''2.0'', req_ID = [], req_Method = ''tools/list'', req_Params = []\<rparr>"

definition demo_env :: "string \<Rightarrow> string" where
  "demo_env name = (if name = ''HR_KEY'' then ''s3cret'' else [])"

theorem forward_sends_at_most_one_request_witness:
  "\<exists>hs. [\<lparr>hreq_method = ''POST'', hreq_url = ''http://hr'', hreq_headers = base_headers @ [(''X-Api-Key'', ''s3cret'')],
      hreq_body = request_text demo_request\<rparr>] =
    snd (demo_http \<lparr>hreq_method = ''POST'', hreq_url = ''http://hr'', hreq_headers = base_headers @ hs,
        hreq_body = request_text demo_request\<rparr> []) \<and> hs = attached ''api_key'' ''s3cret''"
  using forward_sends_at_most_one_request [of "Resolve demo_env" "\<lambda>_. True" demo_http "''http://hr''" "''api_key''"
      "''env:HR_KEY''" demo_request "[]" "Inl (HTTPStatus 500 [])"
      "[\<lparr>hreq_method = ''POST'', hreq_url = ''http://hr'', hreq_headers = base_headers @ [(''X-Api-Key'', ''s3cret'')],
        hreq_body = request_text demo_request\<rparr>]"]
  by (simp add: Forward_def build_request_def Resolve_def cut_prefix_def demo_env_def demo_request_def raw_ok_def
      credential_def set_header_def demo_http_def read_response_def attached_def)

text \<open>An answer that decodes.\<close>

definition demo_answer :: string where
  "demo_answer = object_text (printed [(''jsonrpc'', JStr ''2.0'')])"

lemma demo_answer_read:
  "unmarshal dec_response zero_Response demo_answer = Some (zero_Response\<lparr>resp_JSONRPC := ''2.0''\<rparr>)"
proof -
  have "fold_name ''jsonrpc'' = ''JSONRPC''" by code_simp
  moreover have "unmarshal (dec_struct response_field) zero_Response (object_text (printed [(''jsonrpc'', JStr ''2.0'')])) =
      set_fields response_field (printed [(''jsonrpc'', JStr ''2.0'')]) zero_Response"
    by (rule unmarshal_object) (simp add: member_ok_def utf8_len_def max_depth_def)
  ultimately show ?thesis
    by (simp add: demo_answer_def dec_response_def set_fields_Cons response_field_def zero_Response_def
        utf8_len_def del: fold_name.simps)
qed

end
