(* ===== verification/Forward_Answers.thy ===== *)
theory Forward_Answers
  imports Auth_Props
begin

text \<open>
  Which answers of a server the forwarder passes on. It reads at most 10 MiB of an answer and decodes what it has read.
  The scanner knows from the text of an object alone where the object ends (\<open>object_swap\<close>), so what is cut off cannot change
  what was read (\<open>forward_returns_only_good_answers\<close>).
\<close>

section \<open>What follows an object\<close>

text \<open>Where the value ends does not depend on what follows: for an object or a null, and not for a number.\<close>

lemma object_swap:
  assumes "parse_value f n d (CHR ''{'' # r) = Some (v, [])"
  shows "parse_value f n d (CHR ''{'' # r @ y) = Some (v, y)"
proof (cases n)
  case 0
  then show ?thesis using assms by (simp add: parse_value.simps)
next
  case (Suc m)
  have d: "d \<noteq> 0" using assms by (auto simp: Suc parse_value.simps split: if_splits)
  show ?thesis
  proof (cases "cut_prefix (skip_ws r) ''}''")
    case (Some u)
    then have u: "v = JObj []" "skip_ws r = CHR ''}'' # []" using assms d
      by (auto simp: Suc parse_value.simps cut_prefix_Some_iff cut_prefix_char)
    obtain w where w: "r = w @ CHR ''}'' # []" "\<And>y. skip_ws (w @ CHR ''}'' # y) = CHR ''}'' # y"
      using skip_ws_swap [OF u(2)] by blast
    then show ?thesis using u(1) d by (simp add: Suc parse_value.simps cut_prefix_char)
  next
    case None
    then obtain kvs where kvs: "parse_members f m (d - 1) (skip_ws r) = Some (kvs, [])" "v = JObj (map_puts [] kvs)"
      using assms d by (auto simp: Suc parse_value.simps)
    have x: "parse_members f m (d - 1) (skip_ws r @ y) = Some (kvs, y)" for y
      using parse_value_swap(3) [OF kvs(1)] by (auto elim: swapsE)
    obtain b q where b: "skip_ws r = b # q" "\<not> is_ws b" "b \<noteq> CHR ''}''"
      using parse_head [of f m "d - 1" "skip_ws r"] kvs(1) by metis
    obtain w where w: "r = w @ b # q" "\<And>y. skip_ws (w @ b # y) = b # y"
      using skip_ws_swap [OF b(1)] by blast
    show ?thesis
      using x [of y] kvs(2) w b d by (simp add: Suc parse_value.simps cut_prefix_char)
  qed
qed

definition closed_text :: "string \<Rightarrow> bool" where
  "closed_text x \<longleftrightarrow> x = ''null'' \<or> (\<exists>r. x = CHR ''{'' # r)"

lemma closed_swap:
  assumes "parse_value f n d x = Some (v, [])" and "closed_text x"
  shows "parse_value f n d (x @ y) = Some (v, y)"
proof (cases "x = ''null''")
  case True
  then show ?thesis using assms(1) keyword_value(3) [of f _ d y] keyword_value(3) [of f _ d "[]"]
    by (cases n) (auto simp: parse_value.simps(1))
next
  case False
  then obtain r where "x = CHR ''{'' # r" using assms(2) by (auto simp: closed_text_def)
  then show ?thesis using object_swap [of f n d r v y] assms(1) by simp
qed

lemma closed_prefix:
  assumes "raw_at Some max_depth x v" and "closed_text x" and "list_all is_ws w"
  shows "json_prefix Some (w @ x @ z) = Some (v, z)" and "decode d zero (w @ x @ z) = d x zero"
proof -
  obtain n where "parse_value Some n max_depth x = Some (v, [])" using assms(1) by (auto simp: raw_at_def)
  from parse_any_fuel [OF closed_swap [OF this assms(2)] order_refl]
  have p: "parse_value Some (fuel_for (w @ x @ z)) max_depth (x @ z) = Some (v, z)" by (simp add: fuel_for_def)
  have skip: "skip_ws (w @ x @ z) = x @ z" using skip_all_ws [OF assms(3)] raw_at_skip [OF assms(1)] by simp
  with p show pre: "json_prefix Some (w @ x @ z) = Some (v, z)" by (simp add: json_prefix_def)
  show "decode d zero (w @ x @ z) = d x zero" by (simp add: decode_def pre skip raw_between_def)
qed

lemma dec_struct_closed: "dec_struct field x old = Some y \<Longrightarrow> closed_text x"
  by (auto simp: dec_struct_def closed_text_def is_null_def raw_members_def cut_prefix_Some_iff split: if_splits option.splits)

lemma skip_ws_rest: "skip_ws (a @ b) = [] \<Longrightarrow> skip_ws b = []"
  by (induction a) (auto split: if_splits)

text \<open>A struct that was read from the front part of a document is what the whole document decodes to.\<close>

lemma unmarshal_front:
  assumes "unmarshal (dec_struct field) zero p = Some y" and "json_parse Some (p @ q) \<noteq> None"
  shows "unmarshal (dec_struct field) zero (p @ q) = Some y" and "skip_ws q = []"
proof -
  from assms(1) have "json_parse Some p \<noteq> None" by (simp add: unmarshal_def split: if_splits)
  then obtain v where "json_parse Some p = Some v" by blast
  then obtain w x w' where p: "p = w @ x @ w'" and x: "raw_at Some max_depth x v" and w: "list_all is_ws w" and "skip_ws w' = []"
    by (rule json_parse_raw)
  have y: "dec_struct field x zero = Some y"
  proof -
    have "delim w'" using \<open>skip_ws w' = []\<close> by (cases w') (auto simp: delim_Cons split: if_splits)
    with raw_at_prefix [OF x order_refl] have pre: "json_prefix Some (x @ w') = Some (v, w')" by blast
    have skip: "skip_ws p = x @ w'" using skip_all_ws [OF w] raw_at_skip [OF x] by (simp add: p)
    have "parse_value Some (fuel_for p) max_depth (x @ w') = Some (v, w')"
      using parse_any_fuel [OF _ order_refl, of Some _ max_depth "x @ w'" v w' "fuel_for p"] pre raw_at_skip [OF x]
      by (simp add: json_prefix_def fuel_for_def p)
    then have "decode (dec_struct field) zero p = dec_struct field x zero"
      by (simp add: decode_def json_prefix_def skip raw_between_def)
    then show ?thesis using assms(1) by (simp add: unmarshal_def split: if_splits)
  qed
  note x_closed = dec_struct_closed [OF y]
  have "skip_ws (w' @ q) = []" using assms(2) closed_prefix(1) [OF x x_closed w, of "w' @ q"] by (simp add: p json_parse_def split: if_splits)
  then show "skip_ws q = []" by (rule skip_ws_rest)
  show "unmarshal (dec_struct field) zero (p @ q) = Some y"
    using assms(2) closed_prefix(2) [OF x x_closed w, of "dec_struct field" zero "w' @ q"] y by (simp add: unmarshal_def p)
qed

section \<open>The property\<close>

text \<open>C32: only a good answer is passed on. \<open>Forward\<close> returns a response if and only if the request was built, the server
  answered with a status in the 200 range, reading did not fail within the first 10 MiB of the body, and these first 10 MiB
  decode as a JSON-RPC response; it returns this response. A longer answer is cut off, not refused; but of an answer that is
  a JSON text as a whole only white space can have been cut off, and the response is what the whole answer decodes to.\<close>

theorem forward_returns_only_good_answers:
  "(Forward resolve url_ok http_do base ty ref req w = (Inr resp, w') \<longleftrightarrow>
    (\<exists>h hres. build_request resolve url_ok base ty ref req = Inr h \<and> http_do h w = (Inr hres, w') \<and>
      200 \<le> hres_status hres \<and> hres_status hres < 300 \<and>
      (hres_broken hres \<longrightarrow> 10 * 2 ^ 20 \<le> length (hres_body hres)) \<and>
      unmarshal dec_response zero_Response (take (10 * 2 ^ 20) (hres_body hres)) = Some resp)) \<and>
   (\<forall>body. unmarshal dec_response zero_Response (take (10 * 2 ^ 20) body) = Some resp \<longrightarrow> json_parse Some body \<noteq> None \<longrightarrow>
      unmarshal dec_response zero_Response body = Some resp \<and> skip_ws (drop (10 * 2 ^ 20) body) = [])"
proof (rule conjI)
  show "Forward resolve url_ok http_do base ty ref req w = (Inr resp, w') \<longleftrightarrow>
    (\<exists>h hres. build_request resolve url_ok base ty ref req = Inr h \<and> http_do h w = (Inr hres, w') \<and>
      200 \<le> hres_status hres \<and> hres_status hres < 300 \<and>
      (hres_broken hres \<longrightarrow> 10 * 2 ^ 20 \<le> length (hres_body hres)) \<and>
      unmarshal dec_response zero_Response (take (10 * 2 ^ 20) (hres_body hres)) = Some resp)"
    by (auto simp: Forward_def read_response_def body_limit_def Let_def split: sum.splits prod.splits if_splits option.splits)
  show "\<forall>body. unmarshal dec_response zero_Response (take (10 * 2 ^ 20) body) = Some resp \<longrightarrow> json_parse Some body \<noteq> None \<longrightarrow>
      unmarshal dec_response zero_Response body = Some resp \<and> skip_ws (drop (10 * 2 ^ 20) body) = []"
    using unmarshal_front [of response_field zero_Response "take n body" resp "drop n body" for n body]
    unfolding dec_response_def append_take_drop_id by blast
qed

lemma demo_answer_whole: "take (10 * 2 ^ 20) demo_answer = demo_answer"
proof -
  have "length demo_answer = 17" by code_simp
  then show ?thesis by simp
qed

theorem forward_returns_only_good_answers_witness:
  "Forward (Resolve demo_env) (\<lambda>_. True) (\<lambda>h w. (Inr \<lparr>hres_status = 200, hres_body = demo_answer, hres_broken = False\<rparr>, w))
      ''http://hr'' [] [] demo_request () = (Inr (zero_Response\<lparr>resp_JSONRPC := ''2.0''\<rparr>), ()) \<and>
    skip_ws (drop (10 * 2 ^ 20) demo_answer) = []"
proof -
  let ?http = "\<lambda>(h :: http_request) (w :: unit). (Inr \<lparr>hres_status = 200, hres_body = demo_answer, hres_broken = False\<rparr>, w)"
  let ?resp = "zero_Response\<lparr>resp_JSONRPC := ''2.0''\<rparr>"
  note claim = forward_returns_only_good_answers [of "Resolve demo_env" "\<lambda>_. True" ?http "''http://hr''" "[]" "[]" demo_request "()"
      ?resp "()"]
  obtain h where h: "build_request (Resolve demo_env) (\<lambda>_. True) ''http://hr'' [] [] demo_request = Inr h"
    by (simp add: build_request_def demo_request_def raw_ok_def)
  have read: "unmarshal dec_response zero_Response (take (10 * 2 ^ 20) demo_answer) = Some ?resp"
    unfolding demo_answer_whole by (rule demo_answer_read)
  have "Forward (Resolve demo_env) (\<lambda>_. True) ?http ''http://hr'' [] [] demo_request () = (Inr ?resp, ())"
    by (rule claim [THEN conjunct1, THEN iffD2]) (use h read in \<open>simp del: power_numeral\<close>)
  moreover have "json_parse Some demo_answer \<noteq> None" using demo_answer_read by (simp add: unmarshal_def split: if_splits)
  ultimately show ?thesis using claim [THEN conjunct2, rule_format, OF read] by blast
qed

end
