(* ===== verification/Db.thy ===== *)
theory Db
  imports Json_Text Keys
begin

text \<open>
  The relational store: the rows and the queries of \<^verbatim>\<open>internal/db\<close> (the structs of \<^verbatim>\<open>models.go\<close>, the SQL
  texts and methods of the \<^verbatim>\<open>*.sql.go\<close> files) over the tables that \<^verbatim>\<open>migrations\<close> declares, with their
  primary keys, unique, foreign-key, check and not-null constraints.

  A query is a function of the tables. What the database server adds is a parameter: the record \<open>pg\<close>
  holds, for the \<open>n\<close>-th call, whether the connection works (\<open>Lost\<close>: the statement ran but its answer did
  not arrive), the value of \<^verbatim>\<open>now()\<close> and of \<^verbatim>\<open>gen_random_uuid()\<close>, and also the normal form of a \<^verbatim>\<open>jsonb\<close>
  text, the collation of text columns, and the reading of an interval. Rows that tie in an
  \<^verbatim>\<open>ORDER BY\<close> come in table order here, an order SQL leaves open.

  \<open>tables_ok\<close> is the schema as an invariant; every query preserves it (\<open>tables_ok_\<close>...). The record
  \<open>querier\<close> is the interface \<^verbatim>\<open>db.Querier\<close> that the other components call, and \<open>queries\<close> is the
  implementation the program passes to them.
\<close>

section \<open>Rows\<close>

record Role =
  role_id :: "uuid"
  role_name :: "string"
  role_desc :: "string option"
  role_created :: "int"

record User =
  user_id :: "uuid"
  user_email :: "string"
  user_display :: "string"
  user_role :: "uuid"
  user_active :: "bool"
  user_created :: "int"

record DownstreamServer =
  srv_id :: "uuid"
  srv_name :: "string"
  srv_base_url :: "string"
  srv_auth_type :: "string"
  srv_secret_ref :: "string"
  srv_manifest :: "string"
  srv_active :: "bool"
  srv_created :: "int"

record Policy =
  pol_id :: "uuid"
  pol_role :: "uuid"
  pol_server :: "uuid"
  pol_tool :: "string"
  pol_allowed :: "bool"
  pol_redact :: "string list"
  pol_max :: "32 word"
  pol_created :: "int"

text \<open>A column that may be \<^verbatim>\<open>NULL\<close> is an option; a nil \<^verbatim>\<open>[]byte\<close> argument is \<open>[]\<close>.\<close>

record AuditEvent =
  ae_id :: "uuid"
  ae_user :: "uuid"
  ae_server :: "uuid"
  ae_tool :: "string"
  ae_params :: "string option"
  ae_outcome :: "string"
  ae_summary :: "string option"
  ae_latency :: "32 word option"
  ae_at :: "int"

record tables =
  t_roles :: "Role list"
  t_users :: "User list"
  t_servers :: "DownstreamServer list"
  t_policies :: "Policy list"
  t_events :: "AuditEvent list"

section \<open>The server\<close>

datatype db_error =
    NoRows
  | UniqueViolation
  | ForeignKeyViolation
  | CheckViolation
  | NotNullViolation
  | Rejected
  | Unavailable

datatype link = Up | Down | Lost

record call_env =
  ce_link :: link
  ce_now :: int
  ce_uuid :: uuid

record pg =
  pg_env :: "nat \<Rightarrow> call_env"
  pg_jsonb :: "string \<Rightarrow> string option"
  pg_collate :: "string \<Rightarrow> string"
  pg_interval :: "string \<Rightarrow> int option"

record db =
  db_tables :: tables
  db_calls :: nat

type_synonym 'a query = "call_env \<Rightarrow> tables \<Rightarrow> (db_error + 'a) \<times> tables"
type_synonym ('d, 'a) db_call = "'d \<Rightarrow> (db_error + 'a) \<times> 'd"

definition exec :: "pg \<Rightarrow> 'a query \<Rightarrow> (db, 'a) db_call" where
  "exec pg q s =
    (let e = pg_env pg (db_calls s); s' = s\<lparr>db_calls := db_calls s + 1\<rparr> in
     case ce_link e of
       Up \<Rightarrow> (case q e (db_tables s) of (r, t) \<Rightarrow> (r, s'\<lparr>db_tables := t\<rparr>))
     | Down \<Rightarrow> (Inl Unavailable, s')
     | Lost \<Rightarrow> (Inl Unavailable, s'\<lparr>db_tables := snd (q e (db_tables s))\<rparr>))"

text \<open>A \<^verbatim>\<open>text\<close> parameter must be valid UTF-8 without a NUL byte.\<close>

definition text_ok :: "string \<Rightarrow> bool" where
  "text_ok s \<longleftrightarrow> CHR 0x00 \<notin> set s \<and> utf8_ok s"

definition reading :: "bool \<Rightarrow> (tables \<Rightarrow> db_error + 'a) \<Rightarrow> 'a query" where
  "reading ok f e t = (if ok then f t else Inl Rejected, t)"

definition one :: "('r \<Rightarrow> bool) \<Rightarrow> 'r list \<Rightarrow> db_error + 'r" where
  "one P rows = (case find P rows of None \<Rightarrow> Inl NoRows | Some r \<Rightarrow> Inr r)"

definition page :: "32 word \<Rightarrow> 32 word \<Rightarrow> 'r list \<Rightarrow> db_error + 'r list" where
  "page lim off rows =
    (if sint lim < 0 \<or> sint off < 0 then Inl Rejected
     else Inr (take (nat (sint lim)) (drop (nat (sint off)) rows)))"

definition modify :: "('r \<Rightarrow> bool) \<Rightarrow> ('r \<Rightarrow> 'r) \<Rightarrow> 'r list \<Rightarrow> 'r list" where
  "modify P f rows = map (\<lambda>r. if P r then f r else r) rows"

text \<open>A \<^verbatim>\<open>jsonb\<close> parameter: \<^verbatim>\<open>NULL\<close>, or the normal form of the text, or an error.\<close>

definition jsonb_arg :: "pg \<Rightarrow> string \<Rightarrow> string option option" where
  "jsonb_arg pg s = (if s = [] then Some None else map_option Some (pg_jsonb pg s))"

text \<open>A \<^verbatim>\<open>timestamptz\<close> has microseconds.\<close>

definition pg_time :: "int \<Rightarrow> int" where
  "pg_time t = t div 1000 * 1000"

definition auth_types :: "string list" where
  "auth_types = [''api_key'', ''oauth2'']"

definition outcomes :: "string list" where
  "outcomes = [''allowed'', ''denied'', ''rate_limited'', ''error'']"

section \<open>Roles\<close>

record CreateRoleParams =
  cr_name :: "string"
  cr_desc :: "string option"

record UpdateRoleParams =
  ur_id :: "uuid"
  ur_name :: "string"
  ur_desc :: "string option"

definition opt_text_ok :: "string option \<Rightarrow> bool" where
  "opt_text_ok x = (case x of None \<Rightarrow> True | Some s \<Rightarrow> text_ok s)"

definition CreateRole :: "CreateRoleParams \<Rightarrow> Role query" where
  "CreateRole arg e t =
    (let row = \<lparr>role_id = ce_uuid e, role_name = cr_name arg, role_desc = cr_desc arg, role_created = ce_now e\<rparr> in
     if \<not> (text_ok (cr_name arg) \<and> opt_text_ok (cr_desc arg)) then (Inl Rejected, t)
     else if \<exists>r \<in> set (t_roles t). role_id r = role_id row \<or> role_name r = role_name row
     then (Inl UniqueViolation, t)
     else (Inr row, t\<lparr>t_roles := t_roles t @ [row]\<rparr>))"

definition DeleteRole :: "uuid \<Rightarrow> unit query" where
  "DeleteRole rid e t =
    (if (\<exists>r \<in> set (t_roles t). role_id r = rid) \<and>
        ((\<exists>u \<in> set (t_users t). user_role u = rid) \<or> (\<exists>p \<in> set (t_policies t). pol_role p = rid))
     then (Inl ForeignKeyViolation, t)
     else (Inr (), t\<lparr>t_roles := filter (\<lambda>r. role_id r \<noteq> rid) (t_roles t)\<rparr>))"

definition GetRole :: "uuid \<Rightarrow> Role query" where
  "GetRole rid = reading True (\<lambda>t. one (\<lambda>r. role_id r = rid) (t_roles t))"

definition GetRoleByName :: "string \<Rightarrow> Role query" where
  "GetRoleByName name = reading (text_ok name) (\<lambda>t. one (\<lambda>r. role_name r = name) (t_roles t))"

definition ListRoles :: "pg \<Rightarrow> Role list query" where
  "ListRoles pg = reading True (\<lambda>t. Inr (sort_key (\<lambda>r. pg_collate pg (role_name r)) (t_roles t)))"

definition UpdateRole :: "UpdateRoleParams \<Rightarrow> Role query" where
  "UpdateRole arg e t =
    (if \<not> (text_ok (ur_name arg) \<and> opt_text_ok (ur_desc arg)) then (Inl Rejected, t)
     else case find (\<lambda>r. role_id r = ur_id arg) (t_roles t) of
       None \<Rightarrow> (Inl NoRows, t)
     | Some r \<Rightarrow>
       if \<exists>r' \<in> set (t_roles t). role_id r' \<noteq> ur_id arg \<and> role_name r' = ur_name arg
       then (Inl UniqueViolation, t)
       else (Inr (r\<lparr>role_name := ur_name arg, role_desc := ur_desc arg\<rparr>),
             t\<lparr>t_roles := modify (\<lambda>r. role_id r = ur_id arg)
                 (\<lambda>r. r\<lparr>role_name := ur_name arg, role_desc := ur_desc arg\<rparr>) (t_roles t)\<rparr>))"

section \<open>Users\<close>

record CreateUserParams =
  cu_email :: "string"
  cu_display :: "string"
  cu_role :: "uuid"

record ListUsersParams =
  lu_limit :: "32 word"
  lu_offset :: "32 word"

record SetUserActiveParams =
  sua_id :: "uuid"
  sua_active :: "bool"

record UpdateUserRoleParams =
  uur_id :: "uuid"
  uur_role :: "uuid"

definition CreateUser :: "CreateUserParams \<Rightarrow> User query" where
  "CreateUser arg e t =
    (let row = \<lparr>user_id = ce_uuid e, user_email = cu_email arg, user_display = cu_display arg,
       user_role = cu_role arg, user_active = True, user_created = ce_now e\<rparr> in
     if \<not> (text_ok (cu_email arg) \<and> text_ok (cu_display arg)) then (Inl Rejected, t)
     else if \<exists>u \<in> set (t_users t). user_id u = user_id row \<or> user_email u = user_email row
     then (Inl UniqueViolation, t)
     else if \<not> (\<exists>r \<in> set (t_roles t). role_id r = cu_role arg) then (Inl ForeignKeyViolation, t)
     else (Inr row, t\<lparr>t_users := t_users t @ [row]\<rparr>))"

definition GetUser :: "uuid \<Rightarrow> User query" where
  "GetUser uid = reading True (\<lambda>t. one (\<lambda>u. user_id u = uid) (t_users t))"

definition GetUserByEmail :: "string \<Rightarrow> User query" where
  "GetUserByEmail email = reading (text_ok email) (\<lambda>t. one (\<lambda>u. user_email u = email) (t_users t))"

definition ListActiveUsers :: "pg \<Rightarrow> User list query" where
  "ListActiveUsers pg = reading True
    (\<lambda>t. Inr (sort_key (\<lambda>u. pg_collate pg (user_display u)) (filter user_active (t_users t))))"

definition ListUsers :: "ListUsersParams \<Rightarrow> User list query" where
  "ListUsers arg = reading True
    (\<lambda>t. page (lu_limit arg) (lu_offset arg) (sort_key (\<lambda>u. - user_created u) (t_users t)))"

definition SetUserActive :: "SetUserActiveParams \<Rightarrow> User query" where
  "SetUserActive arg e t =
    (case find (\<lambda>u. user_id u = sua_id arg) (t_users t) of
      None \<Rightarrow> (Inl NoRows, t)
    | Some u \<Rightarrow> (Inr (u\<lparr>user_active := sua_active arg\<rparr>),
        t\<lparr>t_users := modify (\<lambda>u. user_id u = sua_id arg) (\<lambda>u. u\<lparr>user_active := sua_active arg\<rparr>) (t_users t)\<rparr>))"

definition UpdateUserRole :: "UpdateUserRoleParams \<Rightarrow> User query" where
  "UpdateUserRole arg e t =
    (case find (\<lambda>u. user_id u = uur_id arg) (t_users t) of
      None \<Rightarrow> (Inl NoRows, t)
    | Some u \<Rightarrow>
      if \<not> (\<exists>r \<in> set (t_roles t). role_id r = uur_role arg) then (Inl ForeignKeyViolation, t)
      else (Inr (u\<lparr>user_role := uur_role arg\<rparr>),
        t\<lparr>t_users := modify (\<lambda>u. user_id u = uur_id arg) (\<lambda>u. u\<lparr>user_role := uur_role arg\<rparr>) (t_users t)\<rparr>))"

section \<open>Downstream servers\<close>

record CreateDownstreamServerParams =
  cds_name :: "string"
  cds_base_url :: "string"
  cds_auth_type :: "string"
  cds_secret_ref :: "string"
  cds_manifest :: "string"

record SetDownstreamServerActiveParams =
  sda_id :: "uuid"
  sda_active :: "bool"

record UpdateDownstreamServerParams =
  uds_id :: "uuid"
  uds_name :: "string"
  uds_base_url :: "string"
  uds_auth_type :: "string"
  uds_secret_ref :: "string"

record UpdateToolManifestParams =
  utm_id :: "uuid"
  utm_manifest :: "string"

definition CreateDownstreamServer :: "pg \<Rightarrow> CreateDownstreamServerParams \<Rightarrow> DownstreamServer query" where
  "CreateDownstreamServer pg arg e t =
    (if \<not> (text_ok (cds_name arg) \<and> text_ok (cds_base_url arg) \<and> text_ok (cds_auth_type arg)
          \<and> text_ok (cds_secret_ref arg)) then (Inl Rejected, t)
     else case jsonb_arg pg (cds_manifest arg) of
       None \<Rightarrow> (Inl Rejected, t)
     | Some None \<Rightarrow> (Inl NotNullViolation, t)
     | Some (Some manifest) \<Rightarrow>
       let row = \<lparr>srv_id = ce_uuid e, srv_name = cds_name arg, srv_base_url = cds_base_url arg,
         srv_auth_type = cds_auth_type arg, srv_secret_ref = cds_secret_ref arg, srv_manifest = manifest,
         srv_active = True, srv_created = ce_now e\<rparr> in
       if cds_auth_type arg \<notin> set auth_types then (Inl CheckViolation, t)
       else if \<exists>s \<in> set (t_servers t). srv_id s = srv_id row \<or> srv_name s = srv_name row
       then (Inl UniqueViolation, t)
       else (Inr row, t\<lparr>t_servers := t_servers t @ [row]\<rparr>))"

definition GetDownstreamServer :: "uuid \<Rightarrow> DownstreamServer query" where
  "GetDownstreamServer sid = reading True (\<lambda>t. one (\<lambda>s. srv_id s = sid) (t_servers t))"

definition GetDownstreamServerByName :: "string \<Rightarrow> DownstreamServer query" where
  "GetDownstreamServerByName name = reading (text_ok name) (\<lambda>t. one (\<lambda>s. srv_name s = name) (t_servers t))"

definition ListActiveDownstreamServers :: "pg \<Rightarrow> DownstreamServer list query" where
  "ListActiveDownstreamServers pg = reading True
    (\<lambda>t. Inr (sort_key (\<lambda>s. pg_collate pg (srv_name s)) (filter srv_active (t_servers t))))"

definition ListDownstreamServers :: "pg \<Rightarrow> DownstreamServer list query" where
  "ListDownstreamServers pg = reading True
    (\<lambda>t. Inr (sort_key (\<lambda>s. pg_collate pg (srv_name s)) (t_servers t)))"

definition SetDownstreamServerActive :: "SetDownstreamServerActiveParams \<Rightarrow> DownstreamServer query" where
  "SetDownstreamServerActive arg e t =
    (case find (\<lambda>s. srv_id s = sda_id arg) (t_servers t) of
      None \<Rightarrow> (Inl NoRows, t)
    | Some s \<Rightarrow> (Inr (s\<lparr>srv_active := sda_active arg\<rparr>),
        t\<lparr>t_servers := modify (\<lambda>s. srv_id s = sda_id arg) (\<lambda>s. s\<lparr>srv_active := sda_active arg\<rparr>) (t_servers t)\<rparr>))"

definition server_update :: "UpdateDownstreamServerParams \<Rightarrow> DownstreamServer \<Rightarrow> DownstreamServer" where
  "server_update arg s = s\<lparr>srv_name := uds_name arg, srv_base_url := uds_base_url arg,
    srv_auth_type := uds_auth_type arg, srv_secret_ref := uds_secret_ref arg\<rparr>"

definition UpdateDownstreamServer :: "UpdateDownstreamServerParams \<Rightarrow> DownstreamServer query" where
  "UpdateDownstreamServer arg e t =
    (if \<not> (text_ok (uds_name arg) \<and> text_ok (uds_base_url arg) \<and> text_ok (uds_auth_type arg)
          \<and> text_ok (uds_secret_ref arg)) then (Inl Rejected, t)
     else case find (\<lambda>s. srv_id s = uds_id arg) (t_servers t) of
       None \<Rightarrow> (Inl NoRows, t)
     | Some s \<Rightarrow>
       if uds_auth_type arg \<notin> set auth_types then (Inl CheckViolation, t)
       else if \<exists>s' \<in> set (t_servers t). srv_id s' \<noteq> uds_id arg \<and> srv_name s' = uds_name arg
       then (Inl UniqueViolation, t)
       else (Inr (server_update arg s),
             t\<lparr>t_servers := modify (\<lambda>s. srv_id s = uds_id arg) (server_update arg) (t_servers t)\<rparr>))"

definition UpdateToolManifest :: "pg \<Rightarrow> UpdateToolManifestParams \<Rightarrow> DownstreamServer query" where
  "UpdateToolManifest pg arg e t =
    (case jsonb_arg pg (utm_manifest arg) of
      None \<Rightarrow> (Inl Rejected, t)
    | Some m \<Rightarrow>
      (case find (\<lambda>s. srv_id s = utm_id arg) (t_servers t) of
        None \<Rightarrow> (Inl NoRows, t)
      | Some s \<Rightarrow>
        (case m of None \<Rightarrow> (Inl NotNullViolation, t)
         | Some manifest \<Rightarrow> (Inr (s\<lparr>srv_manifest := manifest\<rparr>),
             t\<lparr>t_servers := modify (\<lambda>s. srv_id s = utm_id arg) (\<lambda>s. s\<lparr>srv_manifest := manifest\<rparr>) (t_servers t)\<rparr>))))"

section \<open>Policies\<close>

record GetPolicyByRoleServerToolParams =
  gp_role :: "uuid"
  gp_server :: "uuid"
  gp_tool :: "string"

record ListPoliciesByRoleAndServerParams =
  lp_role :: "uuid"
  lp_server :: "uuid"

text \<open>\<open>up_redact\<close> is \<open>None\<close> for a nil slice, which is sent as \<^verbatim>\<open>NULL\<close>.\<close>

record UpsertPolicyParams =
  up_role :: "uuid"
  up_server :: "uuid"
  up_tool :: "string"
  up_allowed :: "bool"
  up_redact :: "string list option"
  up_max :: "32 word"

definition DeletePoliciesByRole :: "uuid \<Rightarrow> unit query" where
  "DeletePoliciesByRole rid e t =
    (Inr (), t\<lparr>t_policies := filter (\<lambda>p. pol_role p \<noteq> rid) (t_policies t)\<rparr>)"

definition DeletePolicy :: "uuid \<Rightarrow> unit query" where
  "DeletePolicy pid e t =
    (Inr (), t\<lparr>t_policies := filter (\<lambda>p. pol_id p \<noteq> pid) (t_policies t)\<rparr>)"

definition GetPolicy :: "uuid \<Rightarrow> Policy query" where
  "GetPolicy pid = reading True (\<lambda>t. one (\<lambda>p. pol_id p = pid) (t_policies t))"

definition matches :: "uuid \<Rightarrow> uuid \<Rightarrow> string \<Rightarrow> Policy \<Rightarrow> bool" where
  "matches rid sid tool p \<longleftrightarrow> pol_role p = rid \<and> pol_server p = sid \<and> pol_tool p = tool"

definition GetPolicyByRoleServerTool :: "GetPolicyByRoleServerToolParams \<Rightarrow> Policy query" where
  "GetPolicyByRoleServerTool arg = reading (text_ok (gp_tool arg))
    (\<lambda>t. one (matches (gp_role arg) (gp_server arg) (gp_tool arg)) (t_policies t))"

definition ListPoliciesByRole :: "pg \<Rightarrow> uuid \<Rightarrow> Policy list query" where
  "ListPoliciesByRole pg rid = reading True
    (\<lambda>t. Inr (sort_key (\<lambda>p. pol_server p) (sort_key (\<lambda>p. pg_collate pg (pol_tool p))
      (filter (\<lambda>p. pol_role p = rid) (t_policies t)))))"

definition ListPoliciesByRoleAndServer :: "pg \<Rightarrow> ListPoliciesByRoleAndServerParams \<Rightarrow> Policy list query" where
  "ListPoliciesByRoleAndServer pg arg = reading True
    (\<lambda>t. Inr (sort_key (\<lambda>p. pg_collate pg (pol_tool p))
      (filter (\<lambda>p. pol_role p = lp_role arg \<and> pol_server p = lp_server arg) (t_policies t))))"

definition policy_update :: "UpsertPolicyParams \<Rightarrow> string list \<Rightarrow> Policy \<Rightarrow> Policy" where
  "policy_update arg redact p =
    p\<lparr>pol_allowed := up_allowed arg, pol_redact := redact, pol_max := up_max arg\<rparr>"

definition UpsertPolicy :: "UpsertPolicyParams \<Rightarrow> Policy query" where
  "UpsertPolicy arg e t =
    (let key = matches (up_role arg) (up_server arg) (up_tool arg) in
     if \<not> (text_ok (up_tool arg) \<and> list_all text_ok (case up_redact arg of None \<Rightarrow> [] | Some fs \<Rightarrow> fs))
     then (Inl Rejected, t)
     else case up_redact arg of
       None \<Rightarrow> (Inl NotNullViolation, t)
     | Some redact \<Rightarrow>
       (case find key (t_policies t) of
         Some p \<Rightarrow> (Inr (policy_update arg redact p), t\<lparr>t_policies := modify key (policy_update arg redact) (t_policies t)\<rparr>)
       | None \<Rightarrow>
         let row = \<lparr>pol_id = ce_uuid e, pol_role = up_role arg, pol_server = up_server arg, pol_tool = up_tool arg,
           pol_allowed = up_allowed arg, pol_redact = redact, pol_max = up_max arg, pol_created = ce_now e\<rparr> in
         if \<exists>p \<in> set (t_policies t). pol_id p = ce_uuid e then (Inl UniqueViolation, t)
         else if \<not> ((\<exists>r \<in> set (t_roles t). role_id r = up_role arg)
                   \<and> (\<exists>s \<in> set (t_servers t). srv_id s = up_server arg)) then (Inl ForeignKeyViolation, t)
         else (Inr row, t\<lparr>t_policies := t_policies t @ [row]\<rparr>)))"

section \<open>Audit events\<close>

record CountRecentDeniedByUserParams =
  crd_user :: "uuid"
  crd_interval :: "string"

record CreateAuditEventParams =
  cae_user :: "uuid"
  cae_server :: "uuid"
  cae_tool :: "string"
  cae_params :: "string"
  cae_outcome :: "string"
  cae_summary :: "string"
  cae_latency :: "32 word option"

text \<open>\<open>iae_at\<close> is \<open>None\<close> for a \<^verbatim>\<open>Timestamptz\<close> that is not valid, which is sent as \<^verbatim>\<open>NULL\<close>.\<close>

record InsertAuditEventWithIDParams =
  iae_id :: "uuid"
  iae_user :: "uuid"
  iae_server :: "uuid"
  iae_tool :: "string"
  iae_params :: "string"
  iae_outcome :: "string"
  iae_summary :: "string"
  iae_latency :: "32 word option"
  iae_at :: "int option"

record ListAuditEventsParams =
  la_limit :: "32 word"
  la_offset :: "32 word"

record ListAuditEventsByOutcomeParams =
  lao_outcome :: "string"
  lao_limit :: "32 word"
  lao_offset :: "32 word"

record ListAuditEventsByServerParams =
  las_server :: "uuid"
  las_limit :: "32 word"
  las_offset :: "32 word"

record ListAuditEventsByUserParams =
  lau_user :: "uuid"
  lau_limit :: "32 word"
  lau_offset :: "32 word"

definition CountRecentDeniedByUser :: "pg \<Rightarrow> CountRecentDeniedByUserParams \<Rightarrow> nat query" where
  "CountRecentDeniedByUser pg arg e t =
    (case pg_interval pg (crd_interval arg) of
      None \<Rightarrow> (Inl Rejected, t)
    | Some d \<Rightarrow> (Inr (length (filter (\<lambda>a. ae_user a = crd_user arg \<and>
        (ae_outcome a = ''denied'' \<or> ae_outcome a = ''rate_limited'') \<and> ce_now e - d \<le> ae_at a) (t_events t))), t))"

text \<open>Inserting a row: the constraints of the table, in the order in which they are checked.\<close>

definition insert_event :: "AuditEvent \<Rightarrow> tables \<Rightarrow> (db_error + AuditEvent) \<times> tables" where
  "insert_event row t =
    (if ae_outcome row \<notin> set outcomes then (Inl CheckViolation, t)
     else if \<exists>a \<in> set (t_events t). ae_id a = ae_id row then (Inl UniqueViolation, t)
     else if \<not> ((\<exists>u \<in> set (t_users t). user_id u = ae_user row)
               \<and> (\<exists>s \<in> set (t_servers t). srv_id s = ae_server row)) then (Inl ForeignKeyViolation, t)
     else (Inr row, t\<lparr>t_events := t_events t @ [row]\<rparr>))"

definition CreateAuditEvent :: "pg \<Rightarrow> CreateAuditEventParams \<Rightarrow> AuditEvent query" where
  "CreateAuditEvent pg arg e t =
    (if \<not> (text_ok (cae_tool arg) \<and> text_ok (cae_outcome arg)) then (Inl Rejected, t)
     else case (jsonb_arg pg (cae_params arg), jsonb_arg pg (cae_summary arg)) of
       (Some ps, Some sm) \<Rightarrow> insert_event \<lparr>ae_id = ce_uuid e, ae_user = cae_user arg, ae_server = cae_server arg,
         ae_tool = cae_tool arg, ae_params = ps, ae_outcome = cae_outcome arg, ae_summary = sm,
         ae_latency = cae_latency arg, ae_at = ce_now e\<rparr> t
     | _ \<Rightarrow> (Inl Rejected, t))"

definition GetAuditEvent :: "uuid \<Rightarrow> AuditEvent query" where
  "GetAuditEvent aid = reading True (\<lambda>t. one (\<lambda>a. ae_id a = aid) (t_events t))"

text \<open>
  \<^verbatim>\<open>ON CONFLICT (id) DO NOTHING\<close> with \<^verbatim>\<open>RETURNING\<close>: when the id is there already, nothing is inserted and
  no row is returned, so \<^verbatim>\<open>Scan\<close> gives \<^verbatim>\<open>ErrNoRows\<close>.
\<close>

definition InsertAuditEventWithID :: "pg \<Rightarrow> InsertAuditEventWithIDParams \<Rightarrow> AuditEvent query" where
  "InsertAuditEventWithID pg arg e t =
    (if \<not> (text_ok (iae_tool arg) \<and> text_ok (iae_outcome arg)) then (Inl Rejected, t)
     else case (jsonb_arg pg (iae_params arg), jsonb_arg pg (iae_summary arg)) of
       (Some ps, Some sm) \<Rightarrow>
         (case iae_at arg of None \<Rightarrow> (Inl NotNullViolation, t)
          | Some at \<Rightarrow>
            if iae_outcome arg \<in> set outcomes \<and> (\<exists>a \<in> set (t_events t). ae_id a = iae_id arg)
            then (Inl NoRows, t)
            else insert_event \<lparr>ae_id = iae_id arg, ae_user = iae_user arg, ae_server = iae_server arg,
              ae_tool = iae_tool arg, ae_params = ps, ae_outcome = iae_outcome arg, ae_summary = sm,
              ae_latency = iae_latency arg, ae_at = pg_time at\<rparr> t)
     | _ \<Rightarrow> (Inl Rejected, t))"

definition recent :: "AuditEvent list \<Rightarrow> AuditEvent list" where
  "recent rows = sort_key (\<lambda>a. - ae_at a) rows"

definition ListAuditEvents :: "ListAuditEventsParams \<Rightarrow> AuditEvent list query" where
  "ListAuditEvents arg = reading True (\<lambda>t. page (la_limit arg) (la_offset arg) (recent (t_events t)))"

definition ListAuditEventsByOutcome :: "ListAuditEventsByOutcomeParams \<Rightarrow> AuditEvent list query" where
  "ListAuditEventsByOutcome arg = reading (text_ok (lao_outcome arg))
    (\<lambda>t. page (lao_limit arg) (lao_offset arg) (recent (filter (\<lambda>a. ae_outcome a = lao_outcome arg) (t_events t))))"

definition ListAuditEventsByServer :: "ListAuditEventsByServerParams \<Rightarrow> AuditEvent list query" where
  "ListAuditEventsByServer arg = reading True
    (\<lambda>t. page (las_limit arg) (las_offset arg) (recent (filter (\<lambda>a. ae_server a = las_server arg) (t_events t))))"

definition ListAuditEventsByUser :: "ListAuditEventsByUserParams \<Rightarrow> AuditEvent list query" where
  "ListAuditEventsByUser arg = reading True
    (\<lambda>t. page (lau_limit arg) (lau_offset arg) (recent (filter (\<lambda>a. ae_user a = lau_user arg) (t_events t))))"

section \<open>The querier interface\<close>

record 'd querier =
  q_CountRecentDeniedByUser :: "CountRecentDeniedByUserParams \<Rightarrow> ('d, nat) db_call"
  q_CreateAuditEvent :: "CreateAuditEventParams \<Rightarrow> ('d, AuditEvent) db_call"
  q_CreateDownstreamServer :: "CreateDownstreamServerParams \<Rightarrow> ('d, DownstreamServer) db_call"
  q_CreateRole :: "CreateRoleParams \<Rightarrow> ('d, Role) db_call"
  q_CreateUser :: "CreateUserParams \<Rightarrow> ('d, User) db_call"
  q_DeletePoliciesByRole :: "uuid \<Rightarrow> ('d, unit) db_call"
  q_DeletePolicy :: "uuid \<Rightarrow> ('d, unit) db_call"
  q_DeleteRole :: "uuid \<Rightarrow> ('d, unit) db_call"
  q_GetAuditEvent :: "uuid \<Rightarrow> ('d, AuditEvent) db_call"
  q_GetDownstreamServer :: "uuid \<Rightarrow> ('d, DownstreamServer) db_call"
  q_GetDownstreamServerByName :: "string \<Rightarrow> ('d, DownstreamServer) db_call"
  q_GetPolicy :: "uuid \<Rightarrow> ('d, Policy) db_call"
  q_GetPolicyByRoleServerTool :: "GetPolicyByRoleServerToolParams \<Rightarrow> ('d, Policy) db_call"
  q_GetRole :: "uuid \<Rightarrow> ('d, Role) db_call"
  q_GetRoleByName :: "string \<Rightarrow> ('d, Role) db_call"
  q_GetUser :: "uuid \<Rightarrow> ('d, User) db_call"
  q_GetUserByEmail :: "string \<Rightarrow> ('d, User) db_call"
  q_InsertAuditEventWithID :: "InsertAuditEventWithIDParams \<Rightarrow> ('d, AuditEvent) db_call"
  q_ListActiveDownstreamServers :: "('d, DownstreamServer list) db_call"
  q_ListActiveUsers :: "('d, User list) db_call"
  q_ListAuditEvents :: "ListAuditEventsParams \<Rightarrow> ('d, AuditEvent list) db_call"
  q_ListAuditEventsByOutcome :: "ListAuditEventsByOutcomeParams \<Rightarrow> ('d, AuditEvent list) db_call"
  q_ListAuditEventsByServer :: "ListAuditEventsByServerParams \<Rightarrow> ('d, AuditEvent list) db_call"
  q_ListAuditEventsByUser :: "ListAuditEventsByUserParams \<Rightarrow> ('d, AuditEvent list) db_call"
  q_ListDownstreamServers :: "('d, DownstreamServer list) db_call"
  q_ListPoliciesByRole :: "uuid \<Rightarrow> ('d, Policy list) db_call"
  q_ListPoliciesByRoleAndServer :: "ListPoliciesByRoleAndServerParams \<Rightarrow> ('d, Policy list) db_call"
  q_ListRoles :: "('d, Role list) db_call"
  q_ListUsers :: "ListUsersParams \<Rightarrow> ('d, User list) db_call"
  q_SetDownstreamServerActive :: "SetDownstreamServerActiveParams \<Rightarrow> ('d, DownstreamServer) db_call"
  q_SetUserActive :: "SetUserActiveParams \<Rightarrow> ('d, User) db_call"
  q_UpdateDownstreamServer :: "UpdateDownstreamServerParams \<Rightarrow> ('d, DownstreamServer) db_call"
  q_UpdateRole :: "UpdateRoleParams \<Rightarrow> ('d, Role) db_call"
  q_UpdateToolManifest :: "UpdateToolManifestParams \<Rightarrow> ('d, DownstreamServer) db_call"
  q_UpdateUserRole :: "UpdateUserRoleParams \<Rightarrow> ('d, User) db_call"
  q_UpsertPolicy :: "UpsertPolicyParams \<Rightarrow> ('d, Policy) db_call"

text \<open>\<^verbatim>\<open>db.New(pool)\<close>: every method runs its statement on the pool.\<close>

definition queries :: "pg \<Rightarrow> db querier" where
  "queries pg = \<lparr>
    q_CountRecentDeniedByUser = \<lambda>arg. exec pg (CountRecentDeniedByUser pg arg),
    q_CreateAuditEvent = \<lambda>arg. exec pg (CreateAuditEvent pg arg),
    q_CreateDownstreamServer = \<lambda>arg. exec pg (CreateDownstreamServer pg arg),
    q_CreateRole = \<lambda>arg. exec pg (CreateRole arg),
    q_CreateUser = \<lambda>arg. exec pg (CreateUser arg),
    q_DeletePoliciesByRole = \<lambda>arg. exec pg (DeletePoliciesByRole arg),
    q_DeletePolicy = \<lambda>arg. exec pg (DeletePolicy arg),
    q_DeleteRole = \<lambda>arg. exec pg (DeleteRole arg),
    q_GetAuditEvent = \<lambda>arg. exec pg (GetAuditEvent arg),
    q_GetDownstreamServer = \<lambda>arg. exec pg (GetDownstreamServer arg),
    q_GetDownstreamServerByName = \<lambda>arg. exec pg (GetDownstreamServerByName arg),
    q_GetPolicy = \<lambda>arg. exec pg (GetPolicy arg),
    q_GetPolicyByRoleServerTool = \<lambda>arg. exec pg (GetPolicyByRoleServerTool arg),
    q_GetRole = \<lambda>arg. exec pg (GetRole arg),
    q_GetRoleByName = \<lambda>arg. exec pg (GetRoleByName arg),
    q_GetUser = \<lambda>arg. exec pg (GetUser arg),
    q_GetUserByEmail = \<lambda>arg. exec pg (GetUserByEmail arg),
    q_InsertAuditEventWithID = \<lambda>arg. exec pg (InsertAuditEventWithID pg arg),
    q_ListActiveDownstreamServers = exec pg (ListActiveDownstreamServers pg),
    q_ListActiveUsers = exec pg (ListActiveUsers pg),
    q_ListAuditEvents = \<lambda>arg. exec pg (ListAuditEvents arg),
    q_ListAuditEventsByOutcome = \<lambda>arg. exec pg (ListAuditEventsByOutcome arg),
    q_ListAuditEventsByServer = \<lambda>arg. exec pg (ListAuditEventsByServer arg),
    q_ListAuditEventsByUser = \<lambda>arg. exec pg (ListAuditEventsByUser arg),
    q_ListDownstreamServers = exec pg (ListDownstreamServers pg),
    q_ListPoliciesByRole = \<lambda>arg. exec pg (ListPoliciesByRole pg arg),
    q_ListPoliciesByRoleAndServer = \<lambda>arg. exec pg (ListPoliciesByRoleAndServer pg arg),
    q_ListRoles = exec pg (ListRoles pg),
    q_ListUsers = \<lambda>arg. exec pg (ListUsers arg),
    q_SetDownstreamServerActive = \<lambda>arg. exec pg (SetDownstreamServerActive arg),
    q_SetUserActive = \<lambda>arg. exec pg (SetUserActive arg),
    q_UpdateDownstreamServer = \<lambda>arg. exec pg (UpdateDownstreamServer arg),
    q_UpdateRole = \<lambda>arg. exec pg (UpdateRole arg),
    q_UpdateToolManifest = \<lambda>arg. exec pg (UpdateToolManifest pg arg),
    q_UpdateUserRole = \<lambda>arg. exec pg (UpdateUserRole arg),
    q_UpsertPolicy = \<lambda>arg. exec pg (UpsertPolicy arg)\<rparr>"

end
