(* ===== verification/Schema.thy ===== *)
theory Schema
  imports Db
begin

text \<open>
  The schema as an invariant of the tables: primary keys, unique columns, foreign keys and checks.
  Every query preserves it, so it holds in every state the program can reach, whatever the server
  does to single calls (\<open>exec_ok\<close>).
\<close>

section \<open>The invariant\<close>

definition keys_ok :: "tables \<Rightarrow> bool" where
  "keys_ok t \<longleftrightarrow> distinct (map role_id (t_roles t)) \<and> distinct (map user_id (t_users t)) \<and>
    distinct (map srv_id (t_servers t)) \<and> distinct (map pol_id (t_policies t)) \<and>
    distinct (map ae_id (t_events t))"

definition pol_key :: "Policy \<Rightarrow> uuid \<times> uuid \<times> string" where
  "pol_key p = (pol_role p, pol_server p, pol_tool p)"

definition unique_ok :: "tables \<Rightarrow> bool" where
  "unique_ok t \<longleftrightarrow> distinct (map role_name (t_roles t)) \<and> distinct (map user_email (t_users t)) \<and>
    distinct (map srv_name (t_servers t)) \<and> distinct (map pol_key (t_policies t))"

definition refs_ok :: "tables \<Rightarrow> bool" where
  "refs_ok t \<longleftrightarrow> user_role ` set (t_users t) \<subseteq> role_id ` set (t_roles t) \<and>
    pol_role ` set (t_policies t) \<subseteq> role_id ` set (t_roles t) \<and>
    pol_server ` set (t_policies t) \<subseteq> srv_id ` set (t_servers t) \<and>
    ae_user ` set (t_events t) \<subseteq> user_id ` set (t_users t) \<and>
    ae_server ` set (t_events t) \<subseteq> srv_id ` set (t_servers t)"

definition checks_ok :: "tables \<Rightarrow> bool" where
  "checks_ok t \<longleftrightarrow> srv_auth_type ` set (t_servers t) \<subseteq> set auth_types \<and>
    ae_outcome ` set (t_events t) \<subseteq> set outcomes \<and>
    (\<forall>p \<in> set (t_policies t). list_all text_ok (pol_redact p))"

definition tables_ok :: "tables \<Rightarrow> bool" where
  "tables_ok t \<longleftrightarrow> keys_ok t \<and> unique_ok t \<and> refs_ok t \<and> checks_ok t"

lemmas tables_ok_defs = tables_ok_def keys_ok_def unique_ok_def refs_ok_def checks_ok_def

text \<open>A query that preserves the schema.\<close>

definition preserves :: "'a query \<Rightarrow> bool" where
  "preserves q \<longleftrightarrow> (\<forall>e t. tables_ok t \<longrightarrow> tables_ok (snd (q e t)))"

lemma preservesI: "(\<And>e t. tables_ok t \<Longrightarrow> tables_ok (snd (q e t))) \<Longrightarrow> preserves q"
  by (simp add: preserves_def)

lemma preserves_reading [simp]: "preserves (reading ok f)"
  by (simp add: preserves_def reading_def)

lemma exec_tables:
  "db_tables (snd (exec pg q s)) = db_tables s
    \<or> db_tables (snd (exec pg q s)) = snd (q (pg_env pg (db_calls s)) (db_tables s))"
  by (auto simp: exec_def Let_def split: link.split prod.split)

lemma exec_ok: "preserves q \<Longrightarrow> tables_ok (db_tables s) \<Longrightarrow> tables_ok (db_tables (snd (exec pg q s)))"
  using exec_tables [of pg q s] by (auto simp: preserves_def)

section \<open>Modified rows\<close>

lemma set_modify: "set (modify P f xs) = (\<lambda>r. if P r then f r else r) ` set xs"
  by (simp add: modify_def)

lemma map_modify_same: "(\<And>r. g (f r) = g r) \<Longrightarrow> map g (modify P f xs) = map g xs"
  by (induction xs) (auto simp: modify_def)

lemma image_modify_same: "(\<And>r. g (f r) = g r) \<Longrightarrow> g ` set (modify P f xs) = g ` set xs"
  using map_modify_same [of g f P xs] by (metis list.set_map)

lemma distinct_modify:
  assumes "distinct (map g xs)" and "distinct (map k xs)"
    and "\<And>r. r \<in> set xs \<Longrightarrow> P r \<Longrightarrow> k r = key" and "\<And>r. P r \<Longrightarrow> g (f r) = v"
    and "\<And>r. r \<in> set xs \<Longrightarrow> k r \<noteq> key \<Longrightarrow> g r \<noteq> v"
  shows "distinct (map g (modify P f xs))"
proof -
  have "inj_on (\<lambda>r. g (if P r then f r else r)) (set xs)"
  proof (rule inj_onI)
    fix a b
    assume ab: "a \<in> set xs" "b \<in> set xs" "g (if P a then f a else a) = g (if P b then f b else b)"
    have k: "inj_on k (set xs)" and g: "inj_on g (set xs)"
      using assms(1,2) by (simp_all add: distinct_map)
    have key: "k r = key" if "r \<in> set xs" "P r \<or> g r = v" for r
      using that assms(3,5) by blast
    show "a = b"
    proof (cases "P a \<or> P b")
      case True
      then have "P a \<or> g a = v" and "P b \<or> g b = v" using ab(3) assms(4) by (auto split: if_splits)
      then have "k a = k b" using key ab(1,2) by metis
      then show ?thesis using k ab(1,2) by (simp add: inj_on_eq_iff)
    next
      case False
      then show ?thesis using ab g by (simp add: inj_on_eq_iff)
    qed
  qed
  moreover have "distinct xs" using assms(1) by (simp add: distinct_map)
  ultimately show ?thesis by (simp add: modify_def distinct_map o_def)
qed

lemma find_SomeD: "find P xs = Some x \<Longrightarrow> P x \<and> x \<in> set xs"
  by (auto simp: find_Some_iff)

lemma find_in_set: "find P xs = Some x \<Longrightarrow> P x" "find P xs = Some x \<Longrightarrow> x \<in> set xs"
  using find_SomeD by fast+

lemma bex_key: "(\<exists>r \<in> A. f r = k) \<longleftrightarrow> k \<in> f ` A"
  by auto

section \<open>Preservation\<close>

lemma preserves_CreateRole: "preserves (CreateRole arg)"
  by (rule preservesI) (auto simp: CreateRole_def Let_def tables_ok_defs)

lemma preserves_DeleteRole: "preserves (DeleteRole rid)"
proof (rule preservesI)
  fix e t
  assume t: "tables_ok t"
  let ?t = "t\<lparr>t_roles := filter (\<lambda>r. role_id r \<noteq> rid) (t_roles t)\<rparr>"
  have "tables_ok ?t"
    if "\<not> ((\<exists>r \<in> set (t_roles t). role_id r = rid) \<and>
        ((\<exists>u \<in> set (t_users t). user_role u = rid) \<or> (\<exists>p \<in> set (t_policies t). pol_role p = rid)))"
  proof -
    have "role_id ` set (filter (\<lambda>r. role_id r \<noteq> rid) (t_roles t)) = role_id ` set (t_roles t) - {rid}"
      by auto
    moreover have "user_role ` set (t_users t) \<subseteq> role_id ` set (t_roles t)"
      and "pol_role ` set (t_policies t) \<subseteq> role_id ` set (t_roles t)"
      using t by (simp_all add: tables_ok_def refs_ok_def)
    with that [unfolded bex_key] have "rid \<notin> user_role ` set (t_users t)"
      and "rid \<notin> pol_role ` set (t_policies t)"
      by blast+
    ultimately show ?thesis
      using t by (simp add: tables_ok_defs distinct_map_filter subset_Diff_insert)
  qed
  then show "tables_ok (snd (DeleteRole rid e t))"
    using t by (simp add: DeleteRole_def)
qed

lemma preserves_UpdateRole: "preserves (UpdateRole arg)"
proof (rule preservesI)
  fix e t
  assume t: "tables_ok t"
  let ?f = "\<lambda>r::Role. r\<lparr>role_name := ur_name arg, role_desc := ur_desc arg\<rparr>"
  let ?rs = "modify (\<lambda>r. role_id r = ur_id arg) ?f (t_roles t)"
  have "distinct (map role_name ?rs)"
    if "\<not> (\<exists>r' \<in> set (t_roles t). role_id r' \<noteq> ur_id arg \<and> role_name r' = ur_name arg)"
    using t that by (intro distinct_modify [where k = role_id and key = "ur_id arg"]) (auto simp: tables_ok_defs)
  then have "tables_ok (t\<lparr>t_roles := ?rs\<rparr>)"
    if "\<not> (\<exists>r' \<in> set (t_roles t). role_id r' \<noteq> ur_id arg \<and> role_name r' = ur_name arg)"
    using t that map_modify_same [of role_id ?f] image_modify_same [of role_id ?f]
    by (simp add: tables_ok_defs)
  then show "tables_ok (snd (UpdateRole arg e t))"
    using t by (auto simp: UpdateRole_def split: option.split)
qed

lemma preserves_CreateUser: "preserves (CreateUser arg)"
  by (rule preservesI) (auto simp: CreateUser_def Let_def tables_ok_defs bex_key)

lemma preserves_SetUserActive: "preserves (SetUserActive arg)"
proof (rule preservesI)
  fix e t
  assume t: "tables_ok t"
  let ?f = "\<lambda>u::User. u\<lparr>user_active := sua_active arg\<rparr>"
  have "tables_ok (t\<lparr>t_users := modify P ?f (t_users t)\<rparr>)" for P
    using t map_modify_same [of user_id ?f P] map_modify_same [of user_email ?f P]
      image_modify_same [of user_role ?f P] image_modify_same [of user_id ?f P]
    by (simp add: tables_ok_defs)
  then show "tables_ok (snd (SetUserActive arg e t))"
    using t by (simp add: SetUserActive_def split: option.split)
qed

lemma preserves_UpdateUserRole: "preserves (UpdateUserRole arg)"
proof (rule preservesI)
  fix e t
  assume t: "tables_ok t"
  let ?f = "\<lambda>u::User. u\<lparr>user_role := uur_role arg\<rparr>"
  have "user_role ` set (modify P ?f (t_users t)) \<subseteq> role_id ` set (t_roles t)"
    if "uur_role arg \<in> role_id ` set (t_roles t)" for P
    using t that by (auto simp: set_modify tables_ok_def refs_ok_def)
  then have "tables_ok (t\<lparr>t_users := modify P ?f (t_users t)\<rparr>)"
    if "uur_role arg \<in> role_id ` set (t_roles t)" for P
    using t that map_modify_same [of user_id ?f P] map_modify_same [of user_email ?f P]
      image_modify_same [of user_id ?f P]
    by (simp add: tables_ok_defs)
  then show "tables_ok (snd (UpdateUserRole arg e t))"
    using t by (auto simp: UpdateUserRole_def bex_key split: option.split)
qed

lemma preserves_CreateDownstreamServer: "preserves (CreateDownstreamServer pg arg)"
  by (rule preservesI)
    (auto simp: CreateDownstreamServer_def Let_def tables_ok_defs split: option.split)

lemma preserves_SetDownstreamServerActive: "preserves (SetDownstreamServerActive arg)"
proof (rule preservesI)
  fix e t
  assume t: "tables_ok t"
  let ?f = "\<lambda>s::DownstreamServer. s\<lparr>srv_active := sda_active arg\<rparr>"
  have "tables_ok (t\<lparr>t_servers := modify P ?f (t_servers t)\<rparr>)" for P
    using t map_modify_same [of srv_id ?f P] map_modify_same [of srv_name ?f P]
      image_modify_same [of srv_auth_type ?f P] image_modify_same [of srv_id ?f P]
    by (simp add: tables_ok_defs)
  then show "tables_ok (snd (SetDownstreamServerActive arg e t))"
    using t by (simp add: SetDownstreamServerActive_def split: option.split)
qed

lemma preserves_UpdateToolManifest: "preserves (UpdateToolManifest pg arg)"
proof (rule preservesI)
  fix e t
  assume t: "tables_ok t"
  have "tables_ok (t\<lparr>t_servers := modify P (\<lambda>s. s\<lparr>srv_manifest := m\<rparr>) (t_servers t)\<rparr>)" for P m
    using t map_modify_same [of srv_id "\<lambda>s::DownstreamServer. s\<lparr>srv_manifest := m\<rparr>" P]
      map_modify_same [of srv_name "\<lambda>s::DownstreamServer. s\<lparr>srv_manifest := m\<rparr>" P]
      image_modify_same [of srv_auth_type "\<lambda>s::DownstreamServer. s\<lparr>srv_manifest := m\<rparr>" P]
      image_modify_same [of srv_id "\<lambda>s::DownstreamServer. s\<lparr>srv_manifest := m\<rparr>" P]
    by (simp add: tables_ok_defs)
  then show "tables_ok (snd (UpdateToolManifest pg arg e t))"
    using t by (simp add: UpdateToolManifest_def split: option.split)
qed

lemma preserves_UpdateDownstreamServer: "preserves (UpdateDownstreamServer arg)"
proof (rule preservesI)
  fix e t
  assume t: "tables_ok t"
  let ?f = "server_update arg"
  let ?P = "\<lambda>s. srv_id s = uds_id arg"
  have "tables_ok (t\<lparr>t_servers := modify ?P ?f (t_servers t)\<rparr>)"
    if "\<not> (\<exists>s' \<in> set (t_servers t). srv_id s' \<noteq> uds_id arg \<and> srv_name s' = uds_name arg)"
      and "uds_auth_type arg \<in> set auth_types"
  proof -
    have "distinct (map srv_name (modify ?P ?f (t_servers t)))"
      using t that(1) by (intro distinct_modify [where k = srv_id and key = "uds_id arg"])
        (auto simp: tables_ok_defs server_update_def)
    moreover have "srv_auth_type ` set (modify ?P ?f (t_servers t)) \<subseteq> set auth_types"
      using t that(2) by (auto simp: set_modify tables_ok_defs server_update_def)
    ultimately show ?thesis
      using t map_modify_same [of srv_id ?f ?P] image_modify_same [of srv_id ?f ?P]
      by (simp add: tables_ok_defs server_update_def)
  qed
  then show "tables_ok (snd (UpdateDownstreamServer arg e t))"
    using t by (auto simp: UpdateDownstreamServer_def split: option.split)
qed

lemma tables_ok_filter_policies:
  "tables_ok t \<Longrightarrow> tables_ok (t\<lparr>t_policies := filter P (t_policies t)\<rparr>)"
  by (auto simp: tables_ok_defs distinct_map_filter)

lemma preserves_DeletePoliciesByRole: "preserves (DeletePoliciesByRole rid)"
  by (rule preservesI) (simp add: DeletePoliciesByRole_def tables_ok_filter_policies)

lemma preserves_DeletePolicy: "preserves (DeletePolicy pid)"
  by (rule preservesI) (simp add: DeletePolicy_def tables_ok_filter_policies)

lemma preserves_UpsertPolicy: "preserves (UpsertPolicy arg)"
proof (rule preservesI)
  fix e t
  assume t: "tables_ok t"
  have "\<forall>p \<in> set (modify P (policy_update arg redact) (t_policies t)). list_all text_ok (pol_redact p)"
    if "list_all text_ok redact" for P redact
    using t that by (auto simp: set_modify tables_ok_def checks_ok_def policy_update_def)
  then have upd: "tables_ok (t\<lparr>t_policies := modify P (policy_update arg redact) (t_policies t)\<rparr>)"
    if "list_all text_ok redact" for P redact
    using t that map_modify_same [of pol_id "policy_update arg redact" P]
      map_modify_same [of pol_key "policy_update arg redact" P]
      image_modify_same [of pol_role "policy_update arg redact" P]
      image_modify_same [of pol_server "policy_update arg redact" P]
    by (simp add: tables_ok_defs policy_update_def pol_key_def)
  have "pol_key p \<noteq> (up_role arg, up_server arg, up_tool arg)"
    if "find (matches (up_role arg) (up_server arg) (up_tool arg)) (t_policies t) = None"
      and "p \<in> set (t_policies t)" for p
    using that by (auto simp: find_None_iff matches_def pol_key_def)
  then have ins: "tables_ok (t\<lparr>t_policies := t_policies t @ [row]\<rparr>)"
    if "find (matches (up_role arg) (up_server arg) (up_tool arg)) (t_policies t) = None"
      "pol_key row = (up_role arg, up_server arg, up_tool arg)"
      "pol_id row \<notin> pol_id ` set (t_policies t)" "up_role arg \<in> role_id ` set (t_roles t)"
      "up_server arg \<in> srv_id ` set (t_servers t)" "list_all text_ok (pol_redact row)" for row
    using t that by (fastforce simp: tables_ok_defs pol_key_def)
  show "tables_ok (snd (UpsertPolicy arg e t))"
    using t upd by (auto simp: UpsertPolicy_def Let_def pol_key_def bex_key intro!: ins split: option.split)
qed

lemma insert_event_ok: "tables_ok t \<Longrightarrow> tables_ok (snd (insert_event row t))"
  by (auto simp: insert_event_def tables_ok_defs bex_key)

lemma preserves_CreateAuditEvent: "preserves (CreateAuditEvent pg arg)"
  by (rule preservesI) (auto simp: CreateAuditEvent_def insert_event_ok split: option.split)

lemma preserves_InsertAuditEventWithID: "preserves (InsertAuditEventWithID pg arg)"
  by (rule preservesI) (auto simp: InsertAuditEventWithID_def insert_event_ok split: option.split)

lemma preserves_CountRecentDeniedByUser: "preserves (CountRecentDeniedByUser pg arg)"
  by (rule preservesI) (simp add: CountRecentDeniedByUser_def split: option.split)

lemmas preserves_all = preserves_CreateRole preserves_DeleteRole preserves_UpdateRole preserves_CreateUser
  preserves_SetUserActive preserves_UpdateUserRole preserves_CreateDownstreamServer
  preserves_SetDownstreamServerActive preserves_UpdateToolManifest preserves_UpdateDownstreamServer
  preserves_DeletePoliciesByRole preserves_DeletePolicy preserves_UpsertPolicy preserves_CreateAuditEvent
  preserves_InsertAuditEventWithID preserves_CountRecentDeniedByUser

section \<open>Reachable stores\<close>

text \<open>One call of a query that writes, and the stores that calls can reach from the empty schema.\<close>

inductive db_step :: "pg \<Rightarrow> db \<Rightarrow> db \<Rightarrow> bool" where
  CreateRole: "db_step pg s (snd (exec pg (CreateRole arg) s))"
| DeleteRole: "db_step pg s (snd (exec pg (DeleteRole rid) s))"
| UpdateRole: "db_step pg s (snd (exec pg (UpdateRole arg) s))"
| CreateUser: "db_step pg s (snd (exec pg (CreateUser arg) s))"
| SetUserActive: "db_step pg s (snd (exec pg (SetUserActive arg) s))"
| UpdateUserRole: "db_step pg s (snd (exec pg (UpdateUserRole arg) s))"
| CreateDownstreamServer: "db_step pg s (snd (exec pg (CreateDownstreamServer pg arg) s))"
| SetDownstreamServerActive: "db_step pg s (snd (exec pg (SetDownstreamServerActive arg) s))"
| UpdateToolManifest: "db_step pg s (snd (exec pg (UpdateToolManifest pg arg) s))"
| UpdateDownstreamServer: "db_step pg s (snd (exec pg (UpdateDownstreamServer arg) s))"
| DeletePoliciesByRole: "db_step pg s (snd (exec pg (DeletePoliciesByRole rid) s))"
| DeletePolicy: "db_step pg s (snd (exec pg (DeletePolicy pid) s))"
| UpsertPolicy: "db_step pg s (snd (exec pg (UpsertPolicy arg) s))"
| CreateAuditEvent: "db_step pg s (snd (exec pg (CreateAuditEvent pg arg) s))"
| InsertAuditEventWithID: "db_step pg s (snd (exec pg (InsertAuditEventWithID pg arg) s))"

definition empty_db :: db where
  "empty_db = \<lparr>db_tables = \<lparr>t_roles = [], t_users = [], t_servers = [], t_policies = [], t_events = []\<rparr>,
    db_calls = 0\<rparr>"

inductive db_reachable :: "pg \<Rightarrow> db \<Rightarrow> bool" for pg where
  start: "db_reachable pg empty_db"
| step: "db_reachable pg s \<Longrightarrow> db_step pg s s' \<Longrightarrow> db_reachable pg s'"

lemma db_step_ok: "db_step pg s s' \<Longrightarrow> tables_ok (db_tables s) \<Longrightarrow> tables_ok (db_tables s')"
  by (induction rule: db_step.induct) (auto intro!: exec_ok preserves_all)

lemma db_reachable_ok: "db_reachable pg s \<Longrightarrow> tables_ok (db_tables s)"
proof (induction rule: db_reachable.induct)
  case start
  show ?case by (simp add: empty_db_def tables_ok_defs)
qed (blast intro: db_step_ok)

section \<open>Lookups\<close>

lemma find_unique:
  assumes "distinct (map f xs)" and "r \<in> set xs"
  shows "find (\<lambda>x. f x = f r) xs = Some r"
  using assms
proof (induction xs)
  case (Cons x xs)
  then show ?case by (auto simp: image_iff)
qed simp

lemma one_Inr: "one P rows = Inr r \<Longrightarrow> P r \<and> r \<in> set rows"
  by (auto simp: one_def dest: find_SomeD split: option.splits)

lemma one_unique: "distinct (map f xs) \<Longrightarrow> r \<in> set xs \<Longrightarrow> one (\<lambda>x. f x = f r) xs = Inr r"
  by (simp add: one_def find_unique)

lemma one_NoRows: "one P rows = Inl e \<longleftrightarrow> e = NoRows \<and> (\<forall>r \<in> set rows. \<not> P r)"
  by (auto simp: one_def find_None_iff find_Some_iff split: option.splits)

lemma matches_key: "matches rid sid tool p \<longleftrightarrow> pol_key p = (rid, sid, tool)"
  by (auto simp: matches_def pol_key_def)

text \<open>What a policy lookup returns belongs to the triple that was asked for.\<close>

lemma GetPolicy_row:
  "fst (exec pg (GetPolicyByRoleServerTool \<lparr>gp_role = rid, gp_server = sid, gp_tool = tool\<rparr>) s) = Inr p \<Longrightarrow>
    matches rid sid tool p \<and> p \<in> set (t_policies (db_tables s))"
  by (auto simp: exec_def GetPolicyByRoleServerTool_def reading_def Let_def split: link.splits if_splits
      dest: one_Inr)

lemma exec_read:
  "db_tables (snd (exec pg (reading ok f) s)) = db_tables s"
  by (auto simp: exec_def Let_def reading_def split: link.split)

text \<open>A policy that was stored is what a lookup finds, until the next write.\<close>

lemma upsert_then_lookup:
  assumes "tables_ok t" and "UpsertPolicy arg e t = (Inr p, t')"
  shows "GetPolicyByRoleServerTool \<lparr>gp_role = up_role arg, gp_server = up_server arg, gp_tool = up_tool arg\<rparr> e' t'
      = (Inr p, t')"
    and "pol_allowed p = up_allowed arg" and "Some (pol_redact p) = up_redact arg" and "pol_max p = up_max arg"
proof -
  let ?key = "matches (up_role arg) (up_server arg) (up_tool arg)"
  from assms(2) obtain redact where r: "up_redact arg = Some redact" and ok: "text_ok (up_tool arg)"
    by (auto simp: UpsertPolicy_def Let_def split: if_splits option.splits)
  have found: "?key p \<and> p \<in> set (t_policies t')"
    and vals: "pol_allowed p = up_allowed arg \<and> pol_redact p = redact \<and> pol_max p = up_max arg"
    using assms(2) r ok
    by (auto simp: UpsertPolicy_def Let_def policy_update_def set_modify matches_def find_Some_iff
        split: if_splits option.splits)
  have "tables_ok t'"
    using preserves_UpsertPolicy [of arg] assms by (metis preserves_def snd_conv)
  then have "one ?key (t_policies t') = Inr p"
    using one_unique [of pol_key "t_policies t'" p] found
    by (simp add: tables_ok_defs matches_key [abs_def])
  then show "GetPolicyByRoleServerTool \<lparr>gp_role = up_role arg, gp_server = up_server arg, gp_tool = up_tool arg\<rparr> e' t'
      = (Inr p, t')"
    using ok by (simp add: GetPolicyByRoleServerTool_def reading_def)
  show "pol_allowed p = up_allowed arg" "Some (pol_redact p) = up_redact arg" "pol_max p = up_max arg"
    using vals r by simp_all
qed

text \<open>An audit event that is inserted a second time is not there twice, and no row comes back.\<close>

lemma insert_twice:
  assumes "InsertAuditEventWithID pg arg e t = (Inr row, t')"
  shows "InsertAuditEventWithID pg arg e' t' = (Inl NoRows, t')"
proof -
  have "ae_id row = iae_id arg \<and> row \<in> set (t_events t') \<and> iae_outcome arg \<in> set outcomes"
    using assms
    by (auto simp: InsertAuditEventWithID_def insert_event_def split: if_splits option.splits)
  then show ?thesis
    using assms by (auto simp: InsertAuditEventWithID_def split: if_splits option.splits)
qed

end
