(* ===== verification/Policy_Engine.thy ===== *)
theory Policy_Engine
  imports Json_Round Redis Schema
begin

text \<open>
  The policy engine (\<^verbatim>\<open>internal/policy\<close>): \<open>Evaluate\<close> looks in the Redis cache, then in the store, and denies
  on every uncertainty. The write to the cache happens later, in a goroutine: \<open>Evaluate\<close> returns it as
  a \<open>cache_job\<close>, which \<open>cacheDecisionTTL\<close> performs.

  The interface \<^verbatim>\<open>policy.Store\<close> is the locale \<open>policy_store\<close>; the interpretation \<open>db_store\<close> is the one the
  program passes, the query on the database. Reading a UUID text (\<^verbatim>\<open>pgtype.UUID.Scan\<close>, a dependency) is
  the parameter \<open>scan_uuid\<close>.
\<close>

section \<open>Decisions\<close>

record Decision =
  Allowed :: bool
  RedactFields :: "string list"
  MaxCallsPerMinute :: "32 word"

definition deny :: Decision where
  "deny = \<lparr>Allowed = False, RedactFields = [], MaxCallsPerMinute = 0\<rparr>"

record cachedPolicy =
  cp_Allowed :: bool
  cp_RedactFields :: "string slice"
  cp_Max :: "32 word"

definition zero_cachedPolicy :: cachedPolicy where
  "zero_cachedPolicy = \<lparr>cp_Allowed = False, cp_RedactFields = nil_slice, cp_Max = 0\<rparr>"

definition cached_policy_field :: "string \<Rightarrow> string \<Rightarrow> cachedPolicy \<Rightarrow> cachedPolicy option" where
  "cached_policy_field k raw x =
    (if k = ''ALLOWED'' then map_option (\<lambda>v. x\<lparr>cp_Allowed := v\<rparr>) (dec_bool raw (cp_Allowed x))
     else if k = ''REDACT_FIELDS'' then map_option (\<lambda>v. x\<lparr>cp_RedactFields := v\<rparr>)
       (dec_slice dec_string [] raw (cp_RedactFields x))
     else if k = ''MAX_CALLS_PER_MINUTE'' then map_option (\<lambda>v. x\<lparr>cp_Max := v\<rparr>) (dec_word raw (cp_Max x))
     else Some x)"

definition cached_policy_text :: "cachedPolicy \<Rightarrow> string" where
  "cached_policy_text x = object_text
    [(''allowed'', bool_text (cp_Allowed x)),
     (''redact_fields'', slice_text quote (cp_RedactFields x)),
     (''max_calls_per_minute'', int_text (cp_Max x))]"

definition decision_of :: "cachedPolicy \<Rightarrow> Decision" where
  "decision_of cp = \<lparr>Allowed = cp_Allowed cp, RedactFields = slice_list (cp_RedactFields cp),
    MaxCallsPerMinute = cp_Max cp\<rparr>"

section \<open>The engine\<close>

datatype eval_error = BadUUID | StoreError db_error

type_synonym 'd policy_lookup = "GetPolicyByRoleServerToolParams \<Rightarrow> ('d, Policy) db_call"

record ('r, 'd) engine =
  en_store :: "'d policy_lookup"
  en_redis :: "'r redis"

record cache_job =
  job_key :: string
  job_policy :: cachedPolicy
  job_ttl :: int

record evaluation =
  ev_decision :: Decision
  ev_error :: "eval_error option"
  ev_job :: "cache_job option"

definition noPolicyTTL :: int where
  "noPolicyTTL = seconds 10"

definition cache_lookup :: "'r redis \<Rightarrow> string \<Rightarrow> int \<Rightarrow> 'r \<Rightarrow> cachedPolicy option" where
  "cache_lookup R key now r =
    (case r_get R key now r of
      RVal cached \<Rightarrow> unmarshal (dec_struct cached_policy_field) zero_cachedPolicy cached
    | _ \<Rightarrow> None)"

definition Evaluate ::
  "(string \<Rightarrow> uuid option) \<Rightarrow> ('r, 'd) engine \<Rightarrow> string \<Rightarrow> string \<Rightarrow> string \<Rightarrow> int \<Rightarrow> 'r \<Rightarrow> 'd \<Rightarrow>
    evaluation \<times> 'd" where
  "Evaluate scan_uuid e roleID serverID toolName now r d =
    (let key = PolicyKey roleID serverID toolName in
     case cache_lookup (en_redis e) key now r of
       Some cp \<Rightarrow> (\<lparr>ev_decision = decision_of cp, ev_error = None, ev_job = None\<rparr>, d)
     | None \<Rightarrow>
       (case (scan_uuid roleID, scan_uuid serverID) of
         (Some roleUUID, Some serverUUID) \<Rightarrow>
           (case en_store e \<lparr>gp_role = roleUUID, gp_server = serverUUID, gp_tool = toolName\<rparr> d of
             (Inl dbErr, d') \<Rightarrow>
               (if dbErr = NoRows
                then (\<lparr>ev_decision = deny, ev_error = None,
                  ev_job = Some \<lparr>job_key = key,
                    job_policy = \<lparr>cp_Allowed = False, cp_RedactFields = to_slice [], cp_Max = 0\<rparr>,
                    job_ttl = noPolicyTTL\<rparr>\<rparr>, d')
                else (\<lparr>ev_decision = deny, ev_error = Some (StoreError dbErr), ev_job = None\<rparr>, d'))
           | (Inr row, d') \<Rightarrow>
               (let cp = \<lparr>cp_Allowed = pol_allowed row, cp_RedactFields = to_slice (pol_redact row),
                  cp_Max = pol_max row\<rparr>
                in (\<lparr>ev_decision = decision_of cp, ev_error = None,
                  ev_job = Some \<lparr>job_key = key, job_policy = cp, job_ttl = seconds PolicyTTL\<rparr>\<rparr>, d')))
       | _ \<Rightarrow> (\<lparr>ev_decision = deny, ev_error = Some BadUUID, ev_job = None\<rparr>, d)))"

definition cacheDecisionTTL :: "('r, 'd) engine \<Rightarrow> cache_job \<Rightarrow> int \<Rightarrow> 'r \<Rightarrow> 'r" where
  "cacheDecisionTTL e job now r =
    snd (r_set (en_redis e) (job_key job) (cached_policy_text (job_policy job)) (job_ttl job) now r)"

definition InvalidatePolicy :: "('r, 'd) engine \<Rightarrow> string \<Rightarrow> string \<Rightarrow> string \<Rightarrow> int \<Rightarrow> 'r \<Rightarrow> 'r" where
  "InvalidatePolicy e roleID serverID toolName now r =
    snd (r_del (en_redis e) (PolicyKey roleID serverID toolName) now r)"

section \<open>The store interface\<close>

text \<open>
  What the engine relies on: in a good store, a row that comes back is in the store and is the row of
  the triple, its texts are well-formed, and the store stays good.
\<close>

locale policy_store =
  fixes lookup :: "'d policy_lookup"
    and holds :: "'d \<Rightarrow> Policy \<Rightarrow> bool"
    and good :: "'d \<Rightarrow> bool"
  assumes lookup_row: "good d \<Longrightarrow> lookup \<lparr>gp_role = rid, gp_server = sid, gp_tool = tool\<rparr> d = (Inr p, d') \<Longrightarrow>
      matches rid sid tool p \<and> holds d p \<and> list_all utf8_ok (pol_redact p)"
    and lookup_good: "good d \<Longrightarrow> lookup arg d = (x, d') \<Longrightarrow> good d'"
begin

text \<open>Without a cache entry, a positive decision comes from a positive row of the triple.\<close>

lemma evaluate_fresh:
  assumes "good d" and "en_store e = lookup" and "cache_lookup (en_redis e) (PolicyKey roleID serverID tool) now r = None"
    and "Evaluate scan e roleID serverID tool now r d = (ev, d')" and "Allowed (ev_decision ev)"
  shows "\<exists>rid sid p. scan roleID = Some rid \<and> scan serverID = Some sid \<and> holds d p \<and>
    matches rid sid tool p \<and> pol_allowed p \<and>
    RedactFields (ev_decision ev) = pol_redact p \<and> MaxCallsPerMinute (ev_decision ev) = pol_max p"
  using assms lookup_row
  by (fastforce simp: Evaluate_def Let_def deny_def decision_of_def
      split: option.splits prod.splits sum.splits if_splits)

end

definition store_holds :: "db \<Rightarrow> Policy \<Rightarrow> bool" where
  "store_holds s p \<longleftrightarrow> p \<in> set (t_policies (db_tables s))"

definition store_good :: "db \<Rightarrow> bool" where
  "store_good s \<longleftrightarrow> tables_ok (db_tables s)"

interpretation db_store: policy_store "q_GetPolicyByRoleServerTool (queries pg)" store_holds store_good for pg
proof unfold_locales
  fix rid sid tool d p d'
  assume "store_good d"
    and "q_GetPolicyByRoleServerTool (queries pg) \<lparr>gp_role = rid, gp_server = sid, gp_tool = tool\<rparr> d = (Inr p, d')"
  then have "fst (exec pg (GetPolicyByRoleServerTool \<lparr>gp_role = rid, gp_server = sid, gp_tool = tool\<rparr>) d) = Inr p"
    by (simp add: queries_def)
  then have p: "matches rid sid tool p \<and> store_holds d p" unfolding store_holds_def by (rule GetPolicy_row)
  with \<open>store_good d\<close> have "list_all text_ok (pol_redact p)"
    by (simp add: store_good_def store_holds_def tables_ok_def checks_ok_def)
  then show "matches rid sid tool p \<and> store_holds d p \<and> list_all utf8_ok (pol_redact p)"
    using p by (simp add: list_all_iff text_ok_def)
next
  fix d d' :: db and arg x
  assume "store_good d" and "q_GetPolicyByRoleServerTool (queries pg) arg d = (x, d')"
  then show "store_good d'"
    using exec_ok [of "GetPolicyByRoleServerTool arg" d pg]
    by (simp add: queries_def store_good_def GetPolicyByRoleServerTool_def)
qed

section \<open>Facts\<close>

lemma evaluate_cached:
  "cache_lookup (en_redis e) (PolicyKey roleID serverID tool) now r = Some cp \<Longrightarrow>
    Evaluate scan e roleID serverID tool now r d =
      (\<lparr>ev_decision = decision_of cp, ev_error = None, ev_job = None\<rparr>, d)"
  by (simp add: Evaluate_def)

lemma evaluate_error_denies:
  "Evaluate scan e roleID serverID tool now r d = (ev, d') \<Longrightarrow> ev_error ev \<noteq> None \<Longrightarrow> ev_decision ev = deny"
  by (auto simp: Evaluate_def Let_def split: option.splits prod.splits sum.splits if_splits)

text \<open>What is written to the cache is what is read from it.\<close>

lemma folded_keys:
  "fold_name ''allowed'' = ''ALLOWED''" "fold_name ''redact_fields'' = ''REDACT_FIELDS''"
  "fold_name ''max_calls_per_minute'' = ''MAX_CALLS_PER_MINUTE''"
  by code_simp+

lemma cached_policy_roundtrip:
  assumes "list_all utf8_ok fs"
  shows "unmarshal (dec_struct cached_policy_field) zero_cachedPolicy
      (cached_policy_text \<lparr>cp_Allowed = a, cp_RedactFields = to_slice fs, cp_Max = n\<rparr>)
    = Some \<lparr>cp_Allowed = a, cp_RedactFields = to_slice fs, cp_Max = n\<rparr>"
proof -
  let ?kvs = "[(''allowed'', JBool a), (''redact_fields'', JArr (map JStr fs)),
    (''max_calls_per_minute'', JNum (int_text n))]"
  have pr: "printed ?kvs = [(''allowed'', bool_text a), (''redact_fields'', array_text (map quote fs)),
      (''max_calls_per_minute'', int_text n)]"
    using json_print_strings [of fs] by (simp add: bool_text_def array_text_def del: map_map)
  have "member_ok e" if "e \<in> set ?kvs" for e
    using that assms is_number_dec_int
    by (auto simp: member_ok_def max_depth_def list_all_iff int_text_def utf8_len_def)
  then have "unmarshal (dec_struct cached_policy_field) zero_cachedPolicy (object_text (printed ?kvs))
      = set_fields cached_policy_field (printed ?kvs) zero_cachedPolicy"
    by (rule unmarshal_object)
  then show ?thesis
    unfolding pr cached_policy_text_def using dec_slice_strings [OF assms, of "[]"]
    by (simp add: slice_text_to_slice set_fields_Cons cached_policy_field_def folded_keys
        zero_cachedPolicy_def del: fold_name.simps)
qed

end
