(* ===== verification/Policy_Cache.thy ===== *)
theory Policy_Cache
  imports Policy_Engine
begin

text \<open>
  The policy cache over time: a state machine in which proxy requests evaluate policies, their
  goroutines write decisions to Redis some time later (within \<open>\<delta>\<close>), the store changes, entries are
  invalidated, and the clock advances. \<open>s_hist\<close> is a ghost: the stores that evaluations saw, with the
  time. \<open>cache_inv\<close> says that every live cache entry, and every write still to come, was computed from
  a store of the history, and how long ago. It is what bounds the staleness of a decision.
\<close>

section \<open>The system\<close>

definition uuid_scanner :: "(string \<Rightarrow> uuid option) \<Rightarrow> bool" where
  "uuid_scanner scan \<longleftrightarrow> (\<forall>u. uuid_ok u \<longrightarrow> scan (format_uuid u) = Some u)"

record ('r, 'd) sys =
  s_now :: int
  s_redis :: 'r
  s_store :: 'd
  s_jobs :: "(int \<times> cache_job) list"
  s_hist :: "(int \<times> 'd) list"

definition policy_key :: "uuid \<Rightarrow> uuid \<Rightarrow> string \<Rightarrow> string" where
  "policy_key rid sid tool = PolicyKey (format_uuid rid) (format_uuid sid) tool"

definition job_list :: "int \<Rightarrow> cache_job option \<Rightarrow> (int \<times> cache_job) list" where
  "job_list t j = (case j of None \<Rightarrow> [] | Some j \<Rightarrow> [(t, j)])"

inductive sys_step ::
  "(string \<Rightarrow> uuid option) \<Rightarrow> ('r, 'd) engine \<Rightarrow> ('r \<Rightarrow> string \<Rightarrow> int \<Rightarrow> string option) \<Rightarrow> ('d \<Rightarrow> bool) \<Rightarrow> int \<Rightarrow>
    ('r, 'd) sys \<Rightarrow> ('r, 'd) sys \<Rightarrow> bool"
  for scan e view good \<delta> where
  evaluate: "uuid_ok rid \<Longrightarrow> uuid_ok sid \<Longrightarrow>
    Evaluate scan e (format_uuid rid) (format_uuid sid) tool (s_now s) (s_redis s) (s_store s) = (ev, d') \<Longrightarrow>
    sys_step scan e view good \<delta> s (s\<lparr>s_store := d', s_jobs := s_jobs s @ job_list (s_now s) (ev_job ev),
      s_hist := (s_now s, s_store s) # s_hist s\<rparr>)"
| write_cache: "s_jobs s = js @ (t0, j) # js' \<Longrightarrow>
    sys_step scan e view good \<delta> s (s\<lparr>s_redis := cacheDecisionTTL e j (s_now s) (s_redis s), s_jobs := js @ js'\<rparr>)"
| invalidate:
    "sys_step scan e view good \<delta> s (s\<lparr>s_redis := InvalidatePolicy e roleID serverID tool (s_now s) (s_redis s)\<rparr>)"
| change_store: "good d' \<Longrightarrow> sys_step scan e view good \<delta> s (s\<lparr>s_store := d'\<rparr>)"
| other_keys: "(\<And>rid sid tool t. view r' (policy_key rid sid tool) t = view (s_redis s) (policy_key rid sid tool) t) \<Longrightarrow>
    sys_step scan e view good \<delta> s (s\<lparr>s_redis := r'\<rparr>)"
| tick: "s_now s \<le> now' \<Longrightarrow> \<forall>(t0, j) \<in> set (s_jobs s). now' \<le> t0 + \<delta> \<Longrightarrow>
    sys_step scan e view good \<delta> s (s\<lparr>s_now := now'\<rparr>)"

inductive_cases sys_stepE: "sys_step scan e view good \<delta> s s'"

text \<open>The system starts with no pending write and no policy in the cache.\<close>

definition sys_init :: "('r \<Rightarrow> string \<Rightarrow> int \<Rightarrow> string option) \<Rightarrow> ('d \<Rightarrow> bool) \<Rightarrow> ('r, 'd) sys \<Rightarrow> bool" where
  "sys_init view good s \<longleftrightarrow> good (s_store s) \<and> s_jobs s = [] \<and> s_hist s = [] \<and>
    (\<forall>rid sid tool t. view (s_redis s) (policy_key rid sid tool) t = None)"

inductive sys_reachable ::
  "(string \<Rightarrow> uuid option) \<Rightarrow> ('r, 'd) engine \<Rightarrow> ('r \<Rightarrow> string \<Rightarrow> int \<Rightarrow> string option) \<Rightarrow> ('d \<Rightarrow> bool) \<Rightarrow> int \<Rightarrow>
    ('r, 'd) sys \<Rightarrow> bool"
  for scan e view good \<delta> where
  init: "sys_init view good s \<Longrightarrow> sys_reachable scan e view good \<delta> s"
| step: "sys_reachable scan e view good \<delta> s \<Longrightarrow> sys_step scan e view good \<delta> s s' \<Longrightarrow>
    sys_reachable scan e view good \<delta> s'"

section \<open>The invariant\<close>

text \<open>A cached decision is sound for a triple and a store: when it allows, a positive row says so.\<close>

definition sound :: "('d \<Rightarrow> Policy \<Rightarrow> bool) \<Rightarrow> 'd \<Rightarrow> uuid \<Rightarrow> uuid \<Rightarrow> string \<Rightarrow> cachedPolicy \<Rightarrow> bool" where
  "sound holds d rid sid tool cp \<longleftrightarrow>
    (\<exists>fs. cp_RedactFields cp = to_slice fs \<and> list_all utf8_ok fs \<and>
      (cp_Allowed cp \<longrightarrow> (\<exists>p. holds d p \<and> matches rid sid tool p \<and> pol_allowed p \<and>
        pol_redact p = fs \<and> pol_max p = cp_Max cp)))"

definition job_inv :: "('d \<Rightarrow> Policy \<Rightarrow> bool) \<Rightarrow> int \<Rightarrow> (int \<times> 'd) list \<Rightarrow> int \<Rightarrow> int \<times> cache_job \<Rightarrow> bool" where
  "job_inv holds \<delta> hist now tj \<longleftrightarrow>
    fst tj \<le> now \<and> now \<le> fst tj + \<delta> \<and> job_ttl (snd tj) \<le> seconds PolicyTTL \<and>
    (\<exists>rid sid tool d. uuid_ok rid \<and> uuid_ok sid \<and> job_key (snd tj) = policy_key rid sid tool \<and>
      (fst tj, d) \<in> set hist \<and> sound holds d rid sid tool (job_policy (snd tj)))"

definition entry_inv ::
  "('d \<Rightarrow> Policy \<Rightarrow> bool) \<Rightarrow> int \<Rightarrow> (int \<times> 'd) list \<Rightarrow> int \<Rightarrow> uuid \<Rightarrow> uuid \<Rightarrow> string \<Rightarrow> int \<Rightarrow> string \<Rightarrow> bool" where
  "entry_inv holds \<delta> hist now rid sid tool t text \<longleftrightarrow>
    (\<exists>t0 d cp. (t0, d) \<in> set hist \<and> t0 \<le> now \<and> t \<le> t0 + \<delta> + seconds PolicyTTL \<and>
      sound holds d rid sid tool cp \<and> text = cached_policy_text cp)"

definition cache_inv ::
  "('r \<Rightarrow> string \<Rightarrow> int \<Rightarrow> string option) \<Rightarrow> ('d \<Rightarrow> Policy \<Rightarrow> bool) \<Rightarrow> ('d \<Rightarrow> bool) \<Rightarrow> int \<Rightarrow> ('r, 'd) sys \<Rightarrow> bool" where
  "cache_inv view holds good \<delta> s \<longleftrightarrow>
    good (s_store s) \<and> (\<forall>tj \<in> set (s_jobs s). job_inv holds \<delta> (s_hist s) (s_now s) tj) \<and>
    (\<forall>rid sid tool t text. uuid_ok rid \<longrightarrow> uuid_ok sid \<longrightarrow> s_now s \<le> t \<longrightarrow>
      view (s_redis s) (policy_key rid sid tool) t = Some text \<longrightarrow>
      entry_inv holds \<delta> (s_hist s) (s_now s) rid sid tool t text)"

lemma cache_invI:
  assumes "good (s_store s)" and "\<And>tj. tj \<in> set (s_jobs s) \<Longrightarrow> job_inv holds \<delta> (s_hist s) (s_now s) tj"
    and "\<And>rid sid tool t text. uuid_ok rid \<Longrightarrow> uuid_ok sid \<Longrightarrow> s_now s \<le> t \<Longrightarrow>
      view (s_redis s) (policy_key rid sid tool) t = Some text \<Longrightarrow>
      entry_inv holds \<delta> (s_hist s) (s_now s) rid sid tool t text"
  shows "cache_inv view holds good \<delta> s"
  using assms unfolding cache_inv_def by blast

lemma cache_invD:
  assumes "cache_inv view holds good \<delta> s"
  shows "good (s_store s)" and "tj \<in> set (s_jobs s) \<Longrightarrow> job_inv holds \<delta> (s_hist s) (s_now s) tj"
    and "uuid_ok rid \<Longrightarrow> uuid_ok sid \<Longrightarrow> s_now s \<le> t \<Longrightarrow>
      view (s_redis s) (policy_key rid sid tool) t = Some text \<Longrightarrow>
      entry_inv holds \<delta> (s_hist s) (s_now s) rid sid tool t text"
  using assms unfolding cache_inv_def by blast+

lemma sound_cached_text:
  assumes "sound holds d rid sid tool cp"
  shows "unmarshal (dec_struct cached_policy_field) zero_cachedPolicy (cached_policy_text cp) = Some cp"
  using assms cached_policy_roundtrip [of _ "cp_Allowed cp" "cp_Max cp"]
  by (cases cp) (auto simp: sound_def)

lemma policy_key_inj:
  "uuid_ok rid \<Longrightarrow> uuid_ok sid \<Longrightarrow> uuid_ok rid' \<Longrightarrow> uuid_ok sid' \<Longrightarrow>
    policy_key rid sid tool = policy_key rid' sid' tool' \<longleftrightarrow> rid = rid' \<and> sid = sid' \<and> tool = tool'"
  unfolding policy_key_def by (rule policy_key_of_uuids)

locale policy_system = redis_strings R view + policy_store lookup holds good
  for R :: "'r redis" and view and lookup :: "'d policy_lookup" and holds and good +
  fixes scan :: "string \<Rightarrow> uuid option" and e :: "('r, 'd) engine" and \<delta> :: int
  assumes wired: "en_redis e = R" "en_store e = lookup"
    and scans: "uuid_scanner scan"
    and delay: "0 \<le> \<delta>"
begin

lemma job_of_evaluate:
  assumes "good d" and "uuid_ok rid" "uuid_ok sid"
    and "Evaluate scan e (format_uuid rid) (format_uuid sid) tool now r d = (ev, d')"
    and "ev_job ev = Some j"
  shows "job_key j = policy_key rid sid tool" and "job_ttl j \<le> seconds PolicyTTL"
    and "sound holds d rid sid tool (job_policy j)"
proof -
  have none: "cache_lookup (en_redis e) (policy_key rid sid tool) now r = None"
  proof (rule ccontr)
    assume "cache_lookup (en_redis e) (policy_key rid sid tool) now r \<noteq> None"
    then obtain cp where "cache_lookup (en_redis e) (PolicyKey (format_uuid rid) (format_uuid sid) tool) now r = Some cp"
      by (auto simp: policy_key_def)
    from evaluate_cached [OF this, of scan d] assms(4,5) show False by auto
  qed
  obtain x d2 where look: "lookup \<lparr>gp_role = rid, gp_server = sid, gp_tool = tool\<rparr> d = (x, d2)"
    by (cases "lookup \<lparr>gp_role = rid, gp_server = sid, gp_tool = tool\<rparr> d")
  have "scan (format_uuid rid) = Some rid" "scan (format_uuid sid) = Some sid"
    using scans assms(2,3) by (auto simp: uuid_scanner_def)
  note ev = assms(4) [unfolded Evaluate_def Let_def policy_key_def [symmetric] none this wired(2), simplified, unfolded look, simplified]
  show "job_key j = policy_key rid sid tool" and "job_ttl j \<le> seconds PolicyTTL"
    and "sound holds d rid sid tool (job_policy j)"
  proof -
    show "job_key j = policy_key rid sid tool"
      using ev assms(5) by (auto split: sum.splits if_splits)
    show "job_ttl j \<le> seconds PolicyTTL"
      using ev assms(5) by (auto simp: noPolicyTTL_def PolicyTTL_def seconds_def split: sum.splits if_splits)
    show "sound holds d rid sid tool (job_policy j)"
    proof (cases x)
      case (Inl err)
      then show ?thesis
        using ev assms(5) unfolding sound_def by (intro exI [of _ "[]"]) (auto split: if_splits)
    next
      case (Inr row)
      then show ?thesis
        using ev assms(5) lookup_row [OF assms(1), of rid sid tool row d2] look
        unfolding sound_def by (intro exI [of _ "pol_redact row"]) (auto, blast)
    qed
  qed
qed

lemma evaluate_good:
  assumes "good d" and "Evaluate scan e roleID serverID tool now r d = (ev, d')"
  shows "good d'"
  using assms lookup_good [OF assms(1)] wired(2)
  by (auto simp: Evaluate_def Let_def split: option.splits prod.splits sum.splits if_splits)

lemma job_inv_more: "job_inv holds \<delta> hist now tj \<Longrightarrow> job_inv holds \<delta> (h # hist) now tj"
  unfolding job_inv_def by (fastforce intro: list.set_intros(2))

lemma entry_inv_more: "entry_inv holds \<delta> hist now rid sid tool t x \<Longrightarrow> entry_inv holds \<delta> (h # hist) now rid sid tool t x"
  unfolding entry_inv_def by (fastforce intro: list.set_intros(2))

text \<open>A cache write puts a sound entry under the key of its triple, or changes nothing.\<close>

lemma view_after_job:
  assumes "cacheDecisionTTL e j now r = r'" and "now \<le> t" and "view r' k t = Some x"
  shows "view r k t = Some x \<or> k = job_key j \<and> x = cached_policy_text (job_policy j) \<and> t \<le> now + job_ttl j"
proof -
  obtain b where b: "r_set R (job_key j) (cached_policy_text (job_policy j)) (job_ttl j) now r = (b, r')"
    using assms(1) wired(1) by (metis cacheDecisionTTL_def prod.collapse)
  show ?thesis
  proof (cases "k = job_key j")
    case True
    then show ?thesis
      using b assms(2,3) set_ok_only [of k _ _ now r r' t x] set_fault [of k _ _ now r r' t]
      by (cases b) (fastforce split: if_splits)+
  next
    case False
    then show ?thesis using set_other [OF b] assms(3) by simp
  qed
qed

lemma view_after_invalidate:
  assumes "InvalidatePolicy e roleID serverID tool now r = r'" and "view r' k t = Some x"
  shows "view r k t = Some x"
proof -
  obtain b where b: "r_del R (PolicyKey roleID serverID tool) now r = (b, r')"
    using assms(1) wired(1) by (metis InvalidatePolicy_def prod.collapse)
  show ?thesis
  proof (cases "k = PolicyKey roleID serverID tool")
    case True
    then show ?thesis
      using b assms(2) del_ok [of k now r r' t] del_fault [of k now r r' t] by (cases b) auto
  next
    case False
    then show ?thesis using del_other [OF b] assms(2) by simp
  qed
qed

lemma cache_inv_step:
  assumes "sys_step scan e view good \<delta> s s'" and inv: "cache_inv view holds good \<delta> s"
  shows "cache_inv view holds good \<delta> s'"
  using assms(1)
proof (cases rule: sys_stepE [consumes 1, case_names evaluate write_cache invalidate change_store other_keys tick])
  case (evaluate rid sid tool ev d')
  let ?hist = "(s_now s, s_store s) # s_hist s"
  have new: "job_inv holds \<delta> ?hist (s_now s) tj"
    if "tj \<in> set (job_list (s_now s) (ev_job ev))" for tj
    using that job_of_evaluate [OF cache_invD(1) [OF inv] evaluate(2-4)] evaluate(2,3) delay
    by (fastforce simp: job_inv_def job_list_def split: option.splits)
  have jobs: "job_inv holds \<delta> ?hist (s_now s) tj"
    if "tj \<in> set (s_jobs s) \<or> tj \<in> set (job_list (s_now s) (ev_job ev))" for tj
    using that new job_inv_more [OF cache_invD(2) [OF inv]] by blast
  have entries: "entry_inv holds \<delta> ?hist (s_now s) rid sid tool t x"
    if "uuid_ok rid" "uuid_ok sid" "s_now s \<le> t" "view (s_redis s) (policy_key rid sid tool) t = Some x"
    for rid sid tool t x
    by (rule entry_inv_more [OF cache_invD(3) [OF inv that]])
  show ?thesis
    using evaluate_good [OF cache_invD(1) [OF inv] evaluate(4)]
    by (auto simp: evaluate(1) intro!: cache_invI jobs entries)
next
  case (write_cache js t0 j js')
  have j: "job_inv holds \<delta> (s_hist s) (s_now s) (t0, j)"
    using cache_invD(2) [OF inv] write_cache(2) by simp
  have "entry_inv holds \<delta> (s_hist s) (s_now s) rid sid tool t x"
    if prem: "uuid_ok rid" "uuid_ok sid" "s_now s \<le> t"
      "view (cacheDecisionTTL e j (s_now s) (s_redis s)) (policy_key rid sid tool) t = Some x" for rid sid tool t x
  proof -
    consider "view (s_redis s) (policy_key rid sid tool) t = Some x"
      | "policy_key rid sid tool = job_key j" "x = cached_policy_text (job_policy j)" "t \<le> s_now s + job_ttl j"
      using view_after_job [OF refl prem(3,4)] by blast
    then show ?thesis
    proof cases
      case 1
      then show ?thesis using cache_invD(3) [OF inv prem(1-3)] by blast
    next
      case 2
      then show ?thesis using j prem(1,2) policy_key_inj by (fastforce simp: job_inv_def entry_inv_def)
    qed
  qed
  then show ?thesis
    using write_cache cache_invD(1,2) [OF inv] by (auto intro!: cache_invI)
next
  case (invalidate roleID serverID tool0)
  have entries: "entry_inv holds \<delta> (s_hist s) (s_now s) rid sid tool t x"
    if prem: "uuid_ok rid" "uuid_ok sid" "s_now s \<le> t"
      "view (InvalidatePolicy e roleID serverID tool0 (s_now s) (s_redis s)) (policy_key rid sid tool) t = Some x"
    for rid sid tool t x
    by (rule cache_invD(3) [OF inv prem(1-3) view_after_invalidate [OF refl prem(4)]])
  show ?thesis by (auto simp: invalidate intro!: cache_invI cache_invD(1,2) [OF inv] entries)
next
  case (change_store d')
  then show ?thesis by (auto intro!: cache_invI cache_invD(2,3) [OF inv])
next
  case (other_keys r')
  have entries: "entry_inv holds \<delta> (s_hist s) (s_now s) rid sid tool t x"
    if prem: "uuid_ok rid" "uuid_ok sid" "s_now s \<le> t" "view r' (policy_key rid sid tool) t = Some x"
    for rid sid tool t x
    using cache_invD(3) [OF inv prem(1-3)] prem(4) other_keys(2) by simp
  show ?thesis by (auto simp: other_keys(1) intro!: cache_invI cache_invD(1,2) [OF inv] entries)
next
  case (tick now')
  have jobs: "job_inv holds \<delta> (s_hist s) now' tj" if "tj \<in> set (s_jobs s)" for tj
    using cache_invD(2) [OF inv that] tick(2,3) that by (auto simp: job_inv_def split_beta)
  have entries: "entry_inv holds \<delta> (s_hist s) now' rid sid tool t x"
    if prem: "uuid_ok rid" "uuid_ok sid" "now' \<le> t" "view (s_redis s) (policy_key rid sid tool) t = Some x"
    for rid sid tool t x
  proof -
    have "entry_inv holds \<delta> (s_hist s) (s_now s) rid sid tool t x"
      using cache_invD(3) [OF inv prem(1,2) _ prem(4)] prem(3) tick(2) by simp
    then show ?thesis using tick(2) unfolding entry_inv_def by (blast intro: order.trans)
  qed
  show ?thesis by (auto simp: tick(1) intro!: cache_invI cache_invD(1) [OF inv] jobs entries)
qed

lemma cache_inv_reachable: "sys_reachable scan e view good \<delta> s \<Longrightarrow> cache_inv view holds good \<delta> s"
proof (induction rule: sys_reachable.induct)
  case (init s)
  then show ?case by (auto simp: sys_init_def intro!: cache_invI)
qed (rule cache_inv_step)

text \<open>Staleness: an allowed call was allowed by a row of the store at most \<open>\<delta>\<close> and a cache lifetime ago.\<close>

lemma allowed_recently:
  assumes "sys_reachable scan e view good \<delta> s" and "uuid_ok rid" and "uuid_ok sid"
    and "Evaluate scan e (format_uuid rid) (format_uuid sid) tool (s_now s) (s_redis s) (s_store s) = (ev, d')"
    and "Allowed (ev_decision ev)"
  shows "\<exists>t0 d p. (t0, d) \<in> set ((s_now s, s_store s) # s_hist s) \<and> t0 \<le> s_now s \<and>
    s_now s \<le> t0 + \<delta> + seconds PolicyTTL \<and> holds d p \<and> matches rid sid tool p \<and> pol_allowed p \<and>
    RedactFields (ev_decision ev) = pol_redact p \<and> MaxCallsPerMinute (ev_decision ev) = pol_max p"
proof (cases "cache_lookup (en_redis e) (policy_key rid sid tool) (s_now s) (s_redis s)")
  case None
  have "0 \<le> \<delta> + seconds PolicyTTL" using delay by (simp add: seconds_def PolicyTTL_def)
  moreover have "\<exists>p. holds (s_store s) p \<and> matches rid sid tool p \<and> pol_allowed p \<and>
    RedactFields (ev_decision ev) = pol_redact p \<and> MaxCallsPerMinute (ev_decision ev) = pol_max p"
    using evaluate_fresh [OF cache_invD(1) [OF cache_inv_reachable [OF assms(1)]] wired(2) _ assms(4,5)]
      None scans assms(2,3) by (auto simp: policy_key_def uuid_scanner_def)
  ultimately show ?thesis by (auto intro!: exI [of _ "s_now s"])
next
  case (Some cp)
  then have ev: "ev_decision ev = decision_of cp"
    using evaluate_cached [OF Some [unfolded policy_key_def], of scan "s_store s"] assms(4) by auto
  from Some obtain x where x: "r_get R (policy_key rid sid tool) (s_now s) (s_redis s) = RVal x"
    and cp: "unmarshal (dec_struct cached_policy_field) zero_cachedPolicy x = Some cp"
    by (auto simp: cache_lookup_def wired(1) split: reply.splits)
  have "entry_inv holds \<delta> (s_hist s) (s_now s) rid sid tool (s_now s) x"
    using cache_invD(3) [OF cache_inv_reachable [OF assms(1)] assms(2,3) order.refl get_val [OF x]] .
  then obtain t0 d cp' where h: "(t0, d) \<in> set (s_hist s)" "t0 \<le> s_now s" "s_now s \<le> t0 + \<delta> + seconds PolicyTTL"
    and s: "sound holds d rid sid tool cp'" and "x = cached_policy_text cp'"
    by (auto simp: entry_inv_def)
  then have "cp = cp'" using cp sound_cached_text [OF s] by simp
  then show ?thesis
    using s ev assms(5) h by (fastforce simp: sound_def decision_of_def)
qed

end

end
