(* ===== verification/Policy_Props.thy ===== *)
theory Policy_Props
  imports Policy_Cache
begin

text \<open>
  The properties of the policy engine, over the database queries of the model and any Redis server
  that keeps its contract, and the deployment on which their witnesses run: the reference keyspace,
  a small database, and a scanner of canonical UUID texts.
\<close>

section \<open>A scanner of UUID texts\<close>

fun hex_decode :: "string \<Rightarrow> byte list option" where
  "hex_decode [] = Some []"
| "hex_decode [c] = None"
| "hex_decode (a # b # r) =
    (case (hex_val a, hex_val b, hex_decode r) of
      (Some x, Some y, Some bs) \<Rightarrow> Some (of_nat (16 * x + y) # bs)
    | _ \<Rightarrow> None)"

definition ref_scan :: "string \<Rightarrow> uuid option" where
  "ref_scan s = (if length s = 36 then hex_decode (filter (\<lambda>c. c \<noteq> CHR ''-'') s) else None)"

lemma hex_val_hex_digit: "n < 16 \<Longrightarrow> hex_val (hex_digit n) = Some n"
proof -
  have "\<forall>m < 16. hex_val (''0123456789abcdef'' ! m) = Some m"
    by (simp add: hex_val_def numeral_eq_Suc All_less_Suc)
  then show "n < 16 \<Longrightarrow> hex_val (hex_digit n) = Some n" by (simp add: hex_digit_def)
qed

lemma hex_decode_encode: "hex_decode (hex_encode bs) = Some bs"
proof (induction bs)
  case (Cons b bs)
  have "unat b div 16 < 16" using unsigned_less [of b, where ?'a = nat] by simp
  moreover have "hex_digit (unat b) = hex_digit (unat b mod 16)" by (simp add: hex_digit_mod)
  moreover have "word_of_nat (16 * (unat b div 16) + unat b mod 16) = b" by simp
  ultimately show ?case
    using Cons by (simp add: hex_encode_Cons hex_byte_def hex_val_hex_digit del: mult_div_mod_eq)
qed simp

lemma uuid_scanner_ref: "uuid_scanner ref_scan"
proof -
  have keep: "filter (\<lambda>c. c \<noteq> CHR ''-'') (hex_encode bs) = hex_encode bs" for bs
  proof -
    have "CHR ''-'' \<notin> hex_chars" by (simp add: hex_chars_def)
    then show ?thesis using set_hex_encode [of bs] by (auto simp: filter_id_conv)
  qed
  have "filter (\<lambda>c. c \<noteq> CHR ''-'') (format_uuid u) = hex_encode u" if "uuid_ok u" for u
    using uuid_slices [OF that] by (simp add: format_uuid_def keep flip: hex_encode_append)
  then show ?thesis
    by (simp add: uuid_scanner_def ref_scan_def hex_decode_encode)
qed

section \<open>The deployment\<close>

definition db_engine :: "'r redis \<Rightarrow> pg \<Rightarrow> ('r, db) engine" where
  "db_engine R pg = \<lparr>en_store = q_GetPolicyByRoleServerTool (queries pg), en_redis = R\<rparr>"

lemma policy_system_db:
  assumes "redis_strings R view" and "uuid_scanner scan" and "0 \<le> \<delta>"
  shows "policy_system R view (q_GetPolicyByRoleServerTool (queries pg)) store_holds store_good scan
    (db_engine R pg) \<delta>"
  using assms db_store.policy_store_axioms
  by (auto simp: policy_system_def policy_system_axioms_def db_engine_def)

interpretation deployed: policy_system mem_redis ks_view "q_GetPolicyByRoleServerTool (queries pg)"
  store_holds store_good ref_scan "db_engine mem_redis pg" "seconds 2" for pg
  by (rule policy_system_db [OF mem.redis_strings_axioms uuid_scanner_ref]) (simp add: seconds_def)

section \<open>Properties\<close>

text \<open>C34: a policy lookup in the cache is exact: the cache keys of two (role, server, tool) triples
  are equal only when the triples are, whatever characters the tool name holds.\<close>

theorem policy_key_determines_triple:
  assumes "uuid_ok rid" "uuid_ok rid'" "uuid_ok sid" "uuid_ok sid'"
  shows "PolicyKey (format_uuid rid) (format_uuid sid) tool = PolicyKey (format_uuid rid') (format_uuid sid') tool'
    \<longleftrightarrow> rid = rid' \<and> sid = sid' \<and> tool = tool'"
  by (rule policy_key_of_uuids [OF assms])

theorem policy_key_determines_triple_witness:
  "PolicyKey (format_uuid (replicate 16 1)) (format_uuid (replicate 16 2)) ''a:b'' \<noteq>
   PolicyKey (format_uuid (replicate 16 1)) (format_uuid (replicate 16 2)) ''a''"
  using policy_key_determines_triple [of "replicate 16 1" "replicate 16 1" "replicate 16 2" "replicate 16 2"]
  by (simp add: uuid_ok_def)

text \<open>C8: the engine fails closed. An evaluation allows only on a cache entry that says so or on a
  row of the policies table for exactly this role, server and tool that says so; and whenever it reports an
  error, it denies.\<close>

theorem evaluate_fails_closed:
  assumes "store_good d" and "Evaluate scan (db_engine R pg) roleID serverID tool now r d = (ev, d')"
  shows "(Allowed (ev_decision ev) \<longrightarrow>
      (\<exists>cp. cache_lookup R (PolicyKey roleID serverID tool) now r = Some cp \<and> cp_Allowed cp) \<or>
      (\<exists>rid sid p. scan roleID = Some rid \<and> scan serverID = Some sid \<and>
        p \<in> set (t_policies (db_tables d)) \<and> matches rid sid tool p \<and> pol_allowed p)) \<and>
    (ev_error ev \<noteq> None \<longrightarrow> ev_decision ev = deny \<and> ev_job ev = None)"
proof (rule conjI)
  have e: "en_redis (db_engine R pg) = R" "en_store (db_engine R pg) = q_GetPolicyByRoleServerTool (queries pg)"
    by (simp_all add: db_engine_def)
  show "Allowed (ev_decision ev) \<longrightarrow>
      (\<exists>cp. cache_lookup R (PolicyKey roleID serverID tool) now r = Some cp \<and> cp_Allowed cp) \<or>
      (\<exists>rid sid p. scan roleID = Some rid \<and> scan serverID = Some sid \<and>
        p \<in> set (t_policies (db_tables d)) \<and> matches rid sid tool p \<and> pol_allowed p)"
  proof (cases "cache_lookup R (PolicyKey roleID serverID tool) now r")
    case None
    then show ?thesis
      using db_store.evaluate_fresh [OF assms(1) e(2) _ assms(2)] e(1) by (auto simp: store_holds_def)
  next
    case (Some cp)
    then have "ev_decision ev = decision_of cp"
      using evaluate_cached [of "db_engine R pg" roleID serverID tool now r cp scan d] e assms(2) by auto
    then show ?thesis using Some by (auto simp: decision_of_def)
  qed
  show "ev_error ev \<noteq> None \<longrightarrow> ev_decision ev = deny \<and> ev_job ev = None"
    using assms(2)
    by (auto simp: Evaluate_def Let_def split: option.splits prod.splits sum.splits if_splits)
qed

text \<open>The small database of the witnesses: one role may call one tool of one server.\<close>

definition id1 :: uuid where "id1 = replicate 16 1"
definition id2 :: uuid where "id2 = replicate 16 2"
definition id3 :: uuid where "id3 = replicate 16 3"

lemma ids_ok [simp]: "uuid_ok id1" "uuid_ok id2" "uuid_ok id3"
  by (simp_all add: uuid_ok_def id1_def id2_def id3_def)

lemma ids_distinct [simp]: "id1 \<noteq> id2" "id2 \<noteq> id1" "id1 \<noteq> id3" "id3 \<noteq> id1" "id2 \<noteq> id3" "id3 \<noteq> id2"
  by (simp_all add: id1_def id2_def id3_def numeral_eq_Suc)

definition demo_policy :: "bool \<Rightarrow> Policy" where
  "demo_policy allowed = \<lparr>pol_id = id3, pol_role = id1, pol_server = id2, pol_tool = ''read'', pol_allowed = allowed,
    pol_redact = [''ssn''], pol_max = 30, pol_created = 0\<rparr>"

definition demo_db :: "bool \<Rightarrow> db" where
  "demo_db allowed = \<lparr>db_tables = \<lparr>
      t_roles = [\<lparr>role_id = id1, role_name = ''hr'', role_desc = None, role_created = 0\<rparr>],
      t_users = [\<lparr>user_id = id3, user_email = ''a@b'', user_display = ''A'', user_role = id1, user_active = True,
        user_created = 0\<rparr>],
      t_servers = [\<lparr>srv_id = id2, srv_name = ''hr-api'', srv_base_url = ''http://hr'', srv_auth_type = ''api_key'',
        srv_secret_ref = [], srv_manifest = ''[]'', srv_active = True, srv_created = 0\<rparr>],
      t_policies = [demo_policy allowed], t_events = []\<rparr>,
    db_calls = 0\<rparr>"

definition demo_pg :: pg where
  "demo_pg = \<lparr>pg_env = \<lambda>n. \<lparr>ce_link = Up, ce_now = 0, ce_uuid = replicate 16 (word_of_nat (n + 4))\<rparr>,
    pg_jsonb = Some, pg_collate = id, pg_interval = \<lambda>_. None\<rparr>"

lemma demo_text_ok: "text_ok ''ssn''" "text_ok ''read''" "text_ok ''hr-api''"
  by (simp_all add: text_ok_def utf8_len_def)

lemma demo_db_good: "store_good (demo_db allowed)"
  by (simp add: store_good_def demo_db_def demo_policy_def tables_ok_defs auth_types_def demo_text_ok)

lemma demo_lookup:
  "q_GetPolicyByRoleServerTool (queries demo_pg) \<lparr>gp_role = id1, gp_server = id2, gp_tool = ''read''\<rparr> (demo_db b)
    = (Inr (demo_policy b), (demo_db b)\<lparr>db_calls := 1\<rparr>)"
  by (simp add: queries_def exec_def demo_pg_def demo_db_def GetPolicyByRoleServerTool_def reading_def one_def
      demo_text_ok matches_def demo_policy_def)

lemma demo_fresh: "cache_lookup mem_redis k t empty_keyspace = None"
  by (simp add: cache_lookup_def mem_redis_def empty_keyspace_def ks_view_def)

lemma demo_evaluate:
  assumes "cache_lookup mem_redis (policy_key id1 id2 ''read'') now r = None"
  shows "Evaluate ref_scan (db_engine mem_redis demo_pg) (format_uuid id1) (format_uuid id2) ''read'' now r (demo_db b)
    = (\<lparr>ev_decision = \<lparr>Allowed = b, RedactFields = [''ssn''], MaxCallsPerMinute = 30\<rparr>, ev_error = None,
        ev_job = Some \<lparr>job_key = policy_key id1 id2 ''read'',
          job_policy = \<lparr>cp_Allowed = b, cp_RedactFields = to_slice [''ssn''], cp_Max = 30\<rparr>,
          job_ttl = seconds PolicyTTL\<rparr>\<rparr>, (demo_db b)\<lparr>db_calls := 1\<rparr>)"
  using uuid_scanner_ref assms demo_lookup [of b]
  by (simp add: Evaluate_def Let_def uuid_scanner_def db_engine_def policy_key_def decision_of_def
      demo_policy_def)

theorem evaluate_fails_closed_witness:
  "\<exists>rid sid p. ref_scan (format_uuid id1) = Some rid \<and> ref_scan (format_uuid id2) = Some sid \<and>
    p \<in> set (t_policies (db_tables (demo_db True))) \<and> matches rid sid ''read'' p \<and> pol_allowed p"
  using evaluate_fails_closed [OF demo_db_good demo_evaluate [OF demo_fresh, where b = True and now = 0]] demo_fresh
  by (simp add: policy_key_def)

text \<open>C14: staleness is bounded. In every state that requests, cache writes, invalidations, changes of
  the store and the clock can reach, with each cache write at most \<open>\<delta>\<close> after its evaluation, an evaluation that
  allows was backed by a positive row for exactly this role, server and tool, in the store of this moment or of an
  evaluation at most \<open>\<delta>\<close> plus 60 seconds ago, and it carries the redaction fields and the call limit of that
  row.\<close>

theorem allowed_by_recent_row:
  assumes "redis_strings R view" and "uuid_scanner scan" and "0 \<le> \<delta>"
    and "sys_reachable scan (db_engine R pg) view store_good \<delta> s" and "uuid_ok rid" and "uuid_ok sid"
    and "Evaluate scan (db_engine R pg) (format_uuid rid) (format_uuid sid) tool (s_now s) (s_redis s) (s_store s)
      = (ev, d')"
    and "Allowed (ev_decision ev)"
  shows "\<exists>t0 d p. (t0, d) \<in> set ((s_now s, s_store s) # s_hist s) \<and> t0 \<le> s_now s \<and>
    s_now s \<le> t0 + \<delta> + seconds PolicyTTL \<and>
    p \<in> set (t_policies (db_tables d)) \<and> matches rid sid tool p \<and> pol_allowed p \<and>
    RedactFields (ev_decision ev) = pol_redact p \<and> MaxCallsPerMinute (ev_decision ev) = pol_max p"
  using policy_system.allowed_recently [OF policy_system_db [OF assms(1-3)] assms(4-8)]
  unfolding store_holds_def .

text \<open>The witness: the decision was cached, then the policy was revoked; the call is still allowed, by the row of
  one second before.\<close>

definition demo_sys :: "(keyspace, db) sys" where
  "demo_sys = \<lparr>s_now = 0, s_redis = empty_keyspace, s_store = demo_db True, s_jobs = [], s_hist = []\<rparr>"

definition demo_job :: cache_job where
  "demo_job = \<lparr>job_key = policy_key id1 id2 ''read'',
    job_policy = \<lparr>cp_Allowed = True, cp_RedactFields = to_slice [''ssn''], cp_Max = 30\<rparr>,
    job_ttl = seconds PolicyTTL\<rparr>"

definition demo_cached :: keyspace where
  "demo_cached = cacheDecisionTTL (db_engine mem_redis demo_pg) demo_job 0 empty_keyspace"

lemma demo_cached_lookup: "cache_lookup mem_redis (policy_key id1 id2 ''read'') (seconds 1) demo_cached
    = Some \<lparr>cp_Allowed = True, cp_RedactFields = to_slice [''ssn''], cp_Max = 30\<rparr>"
  using cached_policy_roundtrip [of "[''ssn'']" True 30] demo_text_ok(1)
  by (simp add: cache_lookup_def demo_cached_def cacheDecisionTTL_def demo_job_def db_engine_def mem_redis_def
      ks_view_def empty_keyspace_def seconds_def PolicyTTL_def text_ok_def)

definition demo_revoked :: "(keyspace, db) sys" where
  "demo_revoked = \<lparr>s_now = seconds 1, s_redis = demo_cached, s_store = demo_db False, s_jobs = [],
    s_hist = [(0, demo_db True)]\<rparr>"

lemma demo_revoked_reachable:
  "sys_reachable ref_scan (db_engine mem_redis demo_pg) ks_view store_good (seconds 2) demo_revoked"
proof -
  let ?reach = "sys_reachable ref_scan (db_engine mem_redis demo_pg) ks_view store_good (seconds 2)"
  let ?step = "sys_step ref_scan (db_engine mem_redis demo_pg) ks_view store_good (seconds 2)"
  have 0: "?reach demo_sys"
    by (rule sys_reachable.init)
      (simp add: sys_init_def demo_sys_def demo_db_good ks_view_def empty_keyspace_def)
  let ?s1 = "demo_sys\<lparr>s_store := (demo_db True)\<lparr>db_calls := 1\<rparr>, s_jobs := [(0, demo_job)], s_hist := [(0, demo_db True)]\<rparr>"
  have "Evaluate ref_scan (db_engine mem_redis demo_pg) (format_uuid id1) (format_uuid id2) ''read''
      (s_now demo_sys) (s_redis demo_sys) (s_store demo_sys)
    = (\<lparr>ev_decision = \<lparr>Allowed = True, RedactFields = [''ssn''], MaxCallsPerMinute = 30\<rparr>, ev_error = None,
        ev_job = Some demo_job\<rparr>, (demo_db True)\<lparr>db_calls := 1\<rparr>)"
    using demo_evaluate [OF demo_fresh, where b = True and now = 0] by (simp add: demo_sys_def demo_job_def)
  from sys_step.evaluate [OF ids_ok(1,2) this, where view = ks_view and good = store_good and \<delta> = "seconds 2"]
  have 1: "?step demo_sys ?s1" by (simp add: demo_sys_def job_list_def)
  let ?s2 = "?s1\<lparr>s_redis := demo_cached, s_jobs := []\<rparr>"
  have 2: "?step ?s1 ?s2"
    using sys_step.write_cache [of ?s1 "[]" 0 demo_job "[]"] by (simp add: demo_sys_def demo_cached_def)
  let ?s3 = "?s2\<lparr>s_store := demo_db False\<rparr>"
  have 3: "?step ?s2 ?s3"
    by (rule sys_step.change_store) (rule demo_db_good)
  have 4: "?step ?s3 (?s3\<lparr>s_now := seconds 1\<rparr>)"
    by (rule sys_step.tick) (simp_all add: demo_sys_def seconds_def)
  have "?reach (?s3\<lparr>s_now := seconds 1\<rparr>)"
    by (rule sys_reachable.step [OF sys_reachable.step [OF sys_reachable.step [OF sys_reachable.step [OF 0 1] 2] 3] 4])
  then show ?thesis by (simp add: demo_revoked_def demo_sys_def)
qed

lemma demo_revoked_evaluate:
  "Evaluate ref_scan (db_engine mem_redis demo_pg) (format_uuid id1) (format_uuid id2) ''read''
      (s_now demo_revoked) (s_redis demo_revoked) (s_store demo_revoked)
    = (\<lparr>ev_decision = \<lparr>Allowed = True, RedactFields = [''ssn''], MaxCallsPerMinute = 30\<rparr>,
        ev_error = None, ev_job = None\<rparr>, demo_db False)"
  using evaluate_cached [of "db_engine mem_redis demo_pg" "format_uuid id1" "format_uuid id2" "''read''"]
    demo_cached_lookup
  by (simp add: demo_revoked_def policy_key_def db_engine_def decision_of_def)

theorem allowed_by_recent_row_witness:
  "\<exists>t0 d p. (t0, d) \<in> set ((s_now demo_revoked, s_store demo_revoked) # s_hist demo_revoked) \<and>
    t0 \<le> s_now demo_revoked \<and> s_now demo_revoked \<le> t0 + seconds 2 + seconds PolicyTTL \<and>
    p \<in> set (t_policies (db_tables d)) \<and> matches id1 id2 ''read'' p \<and> pol_allowed p"
  using allowed_by_recent_row [OF mem.redis_strings_axioms uuid_scanner_ref _ demo_revoked_reachable ids_ok(1,2)
      demo_revoked_evaluate]
  by (fastforce simp: seconds_def)

text \<open>C40: a cached decision wins over the store. Once the decision of an evaluation is in Redis, every
  evaluation of the same triple in the next 60 seconds repeats it without reading the store, whatever was written
  to the store in between: revoking a policy in the database alone does not revoke it here, and nothing but
  \<open>InvalidatePolicy\<close> or expiry does.\<close>

theorem cached_decision_outlives_store_change:
  assumes "redis_strings R view" and "list_all utf8_ok fs"
    and "r_set R (PolicyKey roleID serverID tool)
        (cached_policy_text \<lparr>cp_Allowed = a, cp_RedactFields = to_slice fs, cp_Max = n\<rparr>) (seconds PolicyTTL) t r
      = (True, r')"
    and "t \<le> t'" and "t' < t + seconds 60" and "r_get R (PolicyKey roleID serverID tool) t' r' \<noteq> RFault"
  shows "Evaluate scan (db_engine R pg) roleID serverID tool t' r' d =
    (\<lparr>ev_decision = \<lparr>Allowed = a, RedactFields = fs, MaxCallsPerMinute = n\<rparr>, ev_error = None, ev_job = None\<rparr>, d)"
proof -
  have "r_get R (PolicyKey roleID serverID tool) t' r' =
      RVal (cached_policy_text \<lparr>cp_Allowed = a, cp_RedactFields = to_slice fs, cp_Max = n\<rparr>)"
    using redis_strings.get_after_set [OF assms(1,3,4) _ assms(6)] assms(5) by (simp add: PolicyTTL_def)
  then show ?thesis
    using cached_policy_roundtrip [OF assms(2), of a n]
    by (simp add: Evaluate_def Let_def cache_lookup_def db_engine_def decision_of_def)
qed

theorem cached_decision_outlives_store_change_witness:
  "fst (Evaluate ref_scan (db_engine mem_redis demo_pg) ''r'' ''s'' ''t'' (seconds 59)
      (snd (r_set mem_redis (PolicyKey ''r'' ''s'' ''t'')
        (cached_policy_text \<lparr>cp_Allowed = True, cp_RedactFields = to_slice [], cp_Max = 5\<rparr>)
        (seconds PolicyTTL) 0 empty_keyspace)) (demo_db False))
    = \<lparr>ev_decision = \<lparr>Allowed = True, RedactFields = [], MaxCallsPerMinute = 5\<rparr>, ev_error = None, ev_job = None\<rparr>"
  by (subst cached_decision_outlives_store_change [OF mem.redis_strings_axioms, where fs = "[]" and a = True and n = 5
        and t = 0 and r = empty_keyspace])
    (simp_all add: mem_redis_def empty_keyspace_def seconds_def PolicyTTL_def ks_view_def)

text \<open>What the engine writes to the cache is what it reads from it: the JSON of a cached policy decodes
  to the same decision, for every redaction list of well-formed texts and every 32-bit limit.\<close>

theorem cached_policy_text_roundtrip:
  assumes "list_all utf8_ok fs"
  shows "unmarshal (dec_struct cached_policy_field) zero_cachedPolicy
      (cached_policy_text \<lparr>cp_Allowed = a, cp_RedactFields = to_slice fs, cp_Max = n\<rparr>)
    = Some \<lparr>cp_Allowed = a, cp_RedactFields = to_slice fs, cp_Max = n\<rparr>"
  by (rule cached_policy_roundtrip [OF assms])

theorem cached_policy_text_roundtrip_witness:
  "unmarshal (dec_struct cached_policy_field) zero_cachedPolicy
      (cached_policy_text \<lparr>cp_Allowed = True, cp_RedactFields = to_slice [''a''], cp_Max = -1\<rparr>)
    = Some \<lparr>cp_Allowed = True, cp_RedactFields = to_slice [''a''], cp_Max = -1\<rparr>"
  by (rule cached_policy_text_roundtrip) (simp add: utf8_len_def)

end
