(* ===== verification/Ratelimit.thy ===== *)
theory Ratelimit
  imports Redis Db
begin

text \<open>
  The sliding-window rate limiter (\<^verbatim>\<open>internal/ratelimit/limiter.go\<close>): a Lua script that Redis runs as one
  step on a sorted set per user and server. The sorted-set commands are a parameter, the record
  \<open>zredis\<close>; the locale \<open>redis_zsets\<close> states their documented behaviour for the commands of one script
  run, through the ghost functions \<open>zview\<close> (the live members and their scores) and \<open>score\<close> (the number a
  text denotes, a double, so only monotone). The facts compare a run of calls with the abstract
  sliding window \<open>in_window\<close>. Times are nanoseconds.
\<close>

section \<open>Sorted sets\<close>

record 'z zredis =
  z_remrangebyscore :: "string \<Rightarrow> string \<Rightarrow> int \<Rightarrow> 'z \<Rightarrow> 'z"
  z_add :: "string \<Rightarrow> string \<Rightarrow> string \<Rightarrow> int \<Rightarrow> 'z \<Rightarrow> 'z"
  z_card :: "string \<Rightarrow> int \<Rightarrow> 'z \<Rightarrow> nat"
  z_expire :: "string \<Rightarrow> int \<Rightarrow> int \<Rightarrow> 'z \<Rightarrow> 'z"

locale redis_zsets =
  fixes Z :: "'z zredis"
    and zview :: "'z \<Rightarrow> string \<Rightarrow> int \<Rightarrow> string \<Rightarrow> int option"
    and score :: "string \<Rightarrow> int"
  assumes score_mono: "i \<le> j \<Longrightarrow> score (dec_int i) \<le> score (dec_int j)"
    and rem_view: "zview (z_remrangebyscore Z k c t z) k t =
      (\<lambda>m. case zview z k t m of None \<Rightarrow> None | Some s \<Rightarrow> if s \<le> score c then None else Some s)"
    and add_view: "zview (z_add Z k s m t z) k t = (zview z k t)(m \<mapsto> score s)"
    and card_view: "finite (dom (zview z k t)) \<Longrightarrow> z_card Z k t z = card (dom (zview z k t))"
    and expire_live: "t \<le> t' \<Longrightarrow> t' < t + seconds ttl \<Longrightarrow> zview (z_expire Z k ttl t z) k t' = zview z k t"
    and expire_dead: "t + seconds ttl < t' \<Longrightarrow> zview (z_expire Z k ttl t z) k t' = (\<lambda>_. None)"
    and expire_edge: "0 \<le> ttl \<Longrightarrow> zview (z_expire Z k ttl t z) k (t + seconds ttl) = zview z k t
      \<or> zview (z_expire Z k ttl t z) k (t + seconds ttl) = (\<lambda>_. None)"

section \<open>The limiter\<close>

text \<open>The Lua script; it runs at time \<open>t\<close>.\<close>

definition slidingWindowScript ::
  "'z zredis \<Rightarrow> string \<Rightarrow> string \<Rightarrow> string \<Rightarrow> int \<Rightarrow> int \<Rightarrow> 'z \<Rightarrow> nat \<times> 'z" where
  "slidingWindowScript Z key now cutoff ttl t z =
    (let z1 = z_remrangebyscore Z key cutoff t z;
         z2 = z_add Z key now now t z1;
         count = z_card Z key t z2;
         z3 = z_expire Z key ttl t z2
     in (count, z3))"

record Result =
  res_Allowed :: bool
  res_Count :: "64 word"
  res_Limit :: "32 word"

definition Remaining :: "Result \<Rightarrow> 64 word" where
  "Remaining r = (let rem = scast (res_Limit r) - res_Count r in if sint rem < 0 then 0 else rem)"

definition window_nano :: int where
  "window_nano = seconds RateLimitWindow"

text \<open>\<open>True\<close> in the first component is the error that \<open>Allow\<close> returns beside its result.\<close>

definition Allow ::
  "'z zredis \<Rightarrow> link \<Rightarrow> string \<Rightarrow> string \<Rightarrow> 32 word \<Rightarrow> int \<Rightarrow> 'z \<Rightarrow> bool \<times> Result \<times> 'z" where
  "Allow Z link userID serverID maxCallsPerMinute now z =
    (if sint maxCallsPerMinute \<le> 0
     then (False, \<lparr>res_Allowed = False, res_Count = 0, res_Limit = maxCallsPerMinute\<rparr>, z)
     else
       let key = RateLimitKey userID serverID;
           cutoff = now - window_nano;
           (count, z') = slidingWindowScript Z key (dec_int now) (dec_int cutoff) (RateLimitWindow + 5) now z;
           failed = \<lparr>res_Allowed = False, res_Count = 0, res_Limit = maxCallsPerMinute\<rparr>
       in case link of
         Down \<Rightarrow> (True, failed, z)
       | Lost \<Rightarrow> (True, failed, z')
       | Up \<Rightarrow> (False, \<lparr>res_Allowed = sint (word_of_nat count :: 64 word) \<le> sint maxCallsPerMinute,
           res_Count = word_of_nat count, res_Limit = maxCallsPerMinute\<rparr>, z'))"

section \<open>The abstract window\<close>

text \<open>
  A request at time \<open>u\<close> is in the window of time \<open>t\<close> when its score is above that of the cutoff. Scores
  are monotone, so this implies that it is less than a minute old.
\<close>

definition in_window :: "(string \<Rightarrow> int) \<Rightarrow> int \<Rightarrow> int \<Rightarrow> bool" where
  "in_window score t u \<longleftrightarrow> score (dec_int (t - window_nano)) < score (dec_int u)"

text \<open>Calls at the given times, one after the other: their results and the state at the end.\<close>

fun calls :: "'z zredis \<Rightarrow> string \<Rightarrow> string \<Rightarrow> 32 word \<Rightarrow> int list \<Rightarrow> 'z \<Rightarrow> Result list \<times> 'z" where
  "calls Z u s m [] z = ([], z)"
| "calls Z u s m (t # ts) z =
    (case Allow Z Up u s m t z of (_, r, z') \<Rightarrow> (case calls Z u s m ts z' of (rs, z'') \<Rightarrow> (r # rs, z'')))"

definition times_map :: "(string \<Rightarrow> int) \<Rightarrow> int set \<Rightarrow> string \<Rightarrow> int option" where
  "times_map score T m = (if m \<in> dec_int ` T then Some (score m) else None)"

lemma times_map_empty [simp]: "times_map score {} = (\<lambda>_. None)"
  by (auto simp: times_map_def)

lemma card_times_map: "finite T \<Longrightarrow> card (dom (times_map score T)) = card T"
proof -
  have "dom (times_map score T) = dec_int ` T" by (auto simp: times_map_def dom_def)
  moreover have "inj_on dec_int T" by (auto intro: inj_onI simp: dec_int_inj)
  ultimately show ?thesis by (simp add: card_image)
qed

lemma finite_times_map: "finite T \<Longrightarrow> finite (dom (times_map score T))"
  by (rule finite_subset [of _ "dec_int ` T"]) (auto simp: times_map_def split: if_splits)

context redis_zsets
begin

lemma in_window_recent: "in_window score t u \<Longrightarrow> t - window_nano < u"
  using score_mono [of u "t - window_nano"] by (force simp: in_window_def)

text \<open>One run of the script on a set of earlier times.\<close>

lemma script_run:
  assumes "zview z k t = times_map score T" and "finite T"
    and "slidingWindowScript Z k (dec_int t) (dec_int (t - window_nano)) ttl t z = (count, z')"
  defines "T' \<equiv> insert t {u \<in> T. in_window score t u}"
  shows "count = card T'" and "t \<le> t' \<Longrightarrow> t' < t + seconds ttl \<Longrightarrow> zview z' k t' = times_map score T'"
    and "t + seconds ttl < t' \<Longrightarrow> zview z' k t' = (\<lambda>_. None)"
    and "0 \<le> ttl \<Longrightarrow> zview z' k (t + seconds ttl) = times_map score T' \<or> zview z' k (t + seconds ttl) = (\<lambda>_. None)"
proof -
  let ?z1 = "z_remrangebyscore Z k (dec_int (t - window_nano)) t z"
  let ?z2 = "z_add Z k (dec_int t) (dec_int t) t ?z1"
  have v2: "zview ?z2 k t = times_map score T'"
    unfolding add_view rem_view assms(1)
    by (auto simp: times_map_def T'_def in_window_def dec_int_inj fun_eq_iff split: if_splits)
  have fin: "finite T'" using assms(2) by (simp add: T'_def)
  from assms(3) have c: "count = z_card Z k t ?z2" and z': "z' = z_expire Z k ttl t ?z2"
    by (simp_all add: slidingWindowScript_def Let_def)
  show "count = card T'"
    using card_view [of ?z2 k t] v2 finite_times_map [OF fin] card_times_map [OF fin] c by simp
  show "t \<le> t' \<Longrightarrow> t' < t + seconds ttl \<Longrightarrow> zview z' k t' = times_map score T'"
    using expire_live z' v2 by simp
  show "t + seconds ttl < t' \<Longrightarrow> zview z' k t' = (\<lambda>_. None)"
    using expire_dead z' by simp
  show "0 \<le> ttl \<Longrightarrow> zview z' k (t + seconds ttl) = times_map score T' \<or> zview z' k (t + seconds ttl) = (\<lambda>_. None)"
    using expire_edge [of ttl k t ?z2] z' v2 by simp
qed

text \<open>
  The state after the calls at \<open>T\<close>, the last of them at \<open>t\<close>: at a later time the live members are the
  calls that were in the window of \<open>t\<close>, or none, if all of these have left the window.
\<close>

definition tracks :: "string \<Rightarrow> int set \<Rightarrow> int \<Rightarrow> 'z \<Rightarrow> bool" where
  "tracks k T t z \<longleftrightarrow> finite T \<and> (\<forall>u \<in> T. u \<le> t) \<and>
    (\<forall>t' \<ge> t. zview z k t' = times_map score {u \<in> T. in_window score t u} \<or>
      zview z k t' = (\<lambda>_. None) \<and> (\<forall>u \<in> T. \<not> in_window score t' u))"

lemma window_shrinks: "t \<le> t' \<Longrightarrow> in_window score t' u \<Longrightarrow> in_window score t u"
  using score_mono [of "t - window_nano" "t' - window_nano"] by (auto simp: in_window_def)

lemma allow_step:
  assumes "tracks k T t0 z" and "t0 \<le> t" and "k = RateLimitKey u s" and "0 < sint m"
    and "in_window score t t" and "card (insert t T) < 2 ^ 63"
    and "Allow Z Up u s m t z = (err, r, z')"
  shows "\<not> err" and "tracks k (insert t T) t z'"
    and "res_Allowed r \<longleftrightarrow> int (card {v \<in> insert t T. in_window score t v}) \<le> sint m"
proof -
  have fin: "finite T" using assms(1) by (simp add: tracks_def)
  let ?W = "{v \<in> insert t T. in_window score t v}"
  obtain T1 where T1: "zview z k t = times_map score T1" "finite T1" "insert t {v \<in> T1. in_window score t v} = ?W"
  proof -
    have "zview z k t = times_map score {v \<in> T. in_window score t0 v} \<or>
      zview z k t = (\<lambda>_. None) \<and> (\<forall>v \<in> T. \<not> in_window score t v)"
      using assms(1,2) by (simp add: tracks_def)
    then show ?thesis
    proof
      assume "zview z k t = times_map score {v \<in> T. in_window score t0 v}"
      then show ?thesis
        using that [of "{v \<in> T. in_window score t0 v}"] fin window_shrinks [OF assms(2)] assms(5) by auto
    next
      assume "zview z k t = (\<lambda>_. None) \<and> (\<forall>v \<in> T. \<not> in_window score t v)"
      then show ?thesis using that [of "{}"] assms(5) by auto
    qed
  qed
  obtain count where run: "slidingWindowScript Z k (dec_int t) (dec_int (t - window_nano)) (RateLimitWindow + 5) t z
      = (count, z')"
    and r: "r = \<lparr>res_Allowed = sint (word_of_nat count :: 64 word) \<le> sint m, res_Count = word_of_nat count,
      res_Limit = m\<rparr>" and "\<not> err"
    using assms(3,4,7) by (auto simp: Allow_def Let_def split: prod.splits if_splits)
  then show "\<not> err" by simp
  note script = script_run [OF T1(1,2) run, unfolded T1(3)]
  have "card ?W \<le> card (insert t T)" using fin by (intro card_mono) auto
  then have "sint (word_of_nat count :: 64 word) = int count"
    using script(1) assms(6) by (simp add: signed_of_nat signed_take_bit_int_eq_self)
  then show "res_Allowed r \<longleftrightarrow> int (card ?W) \<le> sint m" using script(1) r by simp
  have sec: "seconds (RateLimitWindow + 5) = 65000000000" "window_nano = 60000000000"
    by (simp_all add: seconds_def RateLimitWindow_def window_nano_def)
  have old: "\<not> in_window score t' v" if "t + 65000000000 \<le> t'" "v \<in> insert t T" for t' v
    using in_window_recent [of t' v] that assms(1,2) sec by (auto simp: tracks_def dest!: bspec)
  have "zview z' k t' = times_map score ?W \<or>
      zview z' k t' = (\<lambda>_. None) \<and> (\<forall>v \<in> insert t T. \<not> in_window score t' v)" if "t \<le> t'" for t'
  proof -
    consider "t' < t + 65000000000" | "t' = t + 65000000000" | "t + 65000000000 < t'" by linarith
    then show ?thesis
    proof cases
      case 1
      then show ?thesis using script(2) [OF that] by (simp add: sec)
    next
      case 2
      have "0 \<le> RateLimitWindow + 5" by (simp add: RateLimitWindow_def)
      from script(4) [OF this, unfolded sec] 2 show ?thesis using old [of t'] by auto
    next
      case 3
      then show ?thesis using script(3) [of t'] old [of t'] by (auto simp: sec)
    qed
  qed
  then show "tracks k (insert t T) t z'"
    using assms(1,2) fin by (auto simp: tracks_def intro: order.trans)
qed

text \<open>A run of calls, from a state that tracks earlier calls: each is allowed as the window says.\<close>

lemma calls_exact:
  assumes "tracks k T t0 z" and "sorted (t0 # ts)" and "k = RateLimitKey u s" and "0 < sint m"
    and "\<And>t. t \<in> set ts \<Longrightarrow> in_window score t t" and "card T + length ts < 2 ^ 63" and "i < length ts"
  shows "res_Allowed (fst (calls Z u s m ts z) ! i) \<longleftrightarrow>
    int (card {v \<in> T \<union> set (take (Suc i) ts). in_window score (ts ! i) v}) \<le> sint m"
  using assms
proof (induction ts arbitrary: T t0 z i)
  case (Cons t ts)
  obtain err r z' where a: "Allow Z Up u s m t z = (err, r, z')" by (cases "Allow Z Up u s m t z")
  obtain rs z'' where rs: "calls Z u s m ts z' = (rs, z'')" by (cases "calls Z u s m ts z'")
  have fin: "finite T" using Cons.prems(1) by (simp add: tracks_def)
  have le: "t0 \<le> t" and srt: "sorted (t # ts)" using Cons.prems(2) by auto
  have card: "card (insert t T) \<le> Suc (card T)" by (rule card_insert_le_m1) (simp_all add: fin)
  have small: "card (insert t T) < 2 ^ 63" using card Cons.prems(6) by simp
  have win: "in_window score t t" using Cons.prems(5) by simp
  note st = allow_step [OF Cons.prems(1) le Cons.prems(3,4) win small a]
  show ?case
  proof (cases i)
    case 0
    then show ?thesis using st(3) by (simp add: a rs)
  next
    case (Suc j)
    have "insert t T \<union> set (take (Suc j) ts) = T \<union> set (take (Suc i) (t # ts))"
      using Suc by auto
    moreover have "res_Allowed (fst (calls Z u s m ts z') ! j) \<longleftrightarrow>
      int (card {v \<in> insert t T \<union> set (take (Suc j) ts). in_window score (ts ! j) v}) \<le> sint m"
      using Cons.prems Suc card by (intro Cons.IH [OF st(2) srt]) auto
    ultimately show ?thesis by (simp add: a rs Suc)
  qed
qed simp

lemma tracks_fresh: "(\<And>t. zview z k t = (\<lambda>_. None)) \<Longrightarrow> tracks k {} t0 z"
  by (simp add: tracks_def)

lemma calls_exact_fresh:
  assumes "\<And>t. zview z (RateLimitKey u s) t = (\<lambda>_. None)" and "sorted ts" and "0 < sint m"
    and "\<And>t. t \<in> set ts \<Longrightarrow> in_window score t t" and "length ts < 2 ^ 63" and "i < length ts"
  shows "res_Allowed (fst (calls Z u s m ts z) ! i) \<longleftrightarrow>
    int (card {v \<in> set (take (Suc i) ts). in_window score (ts ! i) v}) \<le> sint m"
proof -
  have "tracks (RateLimitKey u s) {} (hd ts) z" by (rule tracks_fresh) (rule assms(1))
  moreover have "sorted (hd ts # ts)" using assms(2,6) by (cases ts) auto
  ultimately show ?thesis using calls_exact [of _ "{}"] assms(3-6) by fastforce
qed

end

section \<open>A reference server\<close>

text \<open>Sorted sets in memory, with scores kept to multiples of 256, the spacing of doubles at this epoch.\<close>

record zspace =
  zs_members :: "string \<Rightarrow> string \<Rightarrow> int option"
  zs_expiry :: "string \<Rightarrow> int option"

definition zs_live :: "zspace \<Rightarrow> string \<Rightarrow> int \<Rightarrow> bool" where
  "zs_live z k t \<longleftrightarrow> (case zs_expiry z k of None \<Rightarrow> True | Some e \<Rightarrow> t < e)"

definition zs_view :: "zspace \<Rightarrow> string \<Rightarrow> int \<Rightarrow> string \<Rightarrow> int option" where
  "zs_view z k t = (if zs_live z k t then zs_members z k else (\<lambda>_. None))"

definition zs_score :: "string \<Rightarrow> int" where
  "zs_score s = (let n = (if take 1 s = ''-'' then - int (dec_val (drop 1 s)) else int (dec_val s)) in n div 256 * 256)"

text \<open>A command on a key that has expired starts from an empty set without expiry.\<close>

definition zs_put :: "string \<Rightarrow> int \<Rightarrow> ((string \<Rightarrow> int option) \<Rightarrow> string \<Rightarrow> int option) \<Rightarrow> zspace \<Rightarrow> zspace" where
  "zs_put k t f z = \<lparr>zs_members = (zs_members z)(k := f (zs_view z k t)),
    zs_expiry = (if zs_live z k t then zs_expiry z else (zs_expiry z)(k := None))\<rparr>"

definition mem_zredis :: "zspace zredis" where
  "mem_zredis = \<lparr>
    z_remrangebyscore = \<lambda>k c t. zs_put k t
      (\<lambda>v m. case v m of None \<Rightarrow> None | Some s \<Rightarrow> if s \<le> zs_score c then None else Some s),
    z_add = \<lambda>k s m t. zs_put k t (\<lambda>v. v(m \<mapsto> zs_score s)),
    z_card = \<lambda>k t z. card (dom (zs_view z k t)),
    z_expire = \<lambda>k ttl t z. (zs_put k t id z)\<lparr>zs_expiry := (zs_expiry z)(k \<mapsto> t + seconds ttl)\<rparr>\<rparr>"

lemma zs_score_dec_int: "zs_score (dec_int i) = i div 256 * 256"
proof -
  have "take 1 (dec_nat n) \<noteq> ''-''" for n
    using dec_nat_not_minus [of n] by (cases "dec_nat n") auto
  then show ?thesis by (simp add: zs_score_def dec_int_def)
qed

lemma zs_put_view: "zs_view (zs_put k t f z) k t = f (zs_view z k t)"
  by (simp add: zs_put_def zs_view_def zs_live_def split: option.split)

interpretation zmem: redis_zsets mem_zredis zs_view zs_score
proof unfold_locales
  fix i j :: int
  show "i \<le> j \<Longrightarrow> zs_score (dec_int i) \<le> zs_score (dec_int j)"
    by (simp add: zs_score_dec_int zdiv_mono1)
next
  fix t t' ttl k and z
  show "t \<le> t' \<Longrightarrow> t' < t + seconds ttl \<Longrightarrow> zs_view (z_expire mem_zredis k ttl t z) k t' = zs_view z k t"
    by (simp add: mem_zredis_def zs_put_def zs_view_def zs_live_def)
  show "t + seconds ttl < t' \<Longrightarrow> zs_view (z_expire mem_zredis k ttl t z) k t' = (\<lambda>_. None)"
    by (simp add: mem_zredis_def zs_put_def zs_view_def zs_live_def)
  show "zs_view (z_expire mem_zredis k ttl t z) k (t + seconds ttl) = zs_view z k t
      \<or> zs_view (z_expire mem_zredis k ttl t z) k (t + seconds ttl) = (\<lambda>_. None)"
    by (simp add: mem_zredis_def zs_put_def zs_view_def zs_live_def)
qed (simp_all add: mem_zredis_def zs_put_view fun_eq_iff)

definition empty_zspace :: zspace where
  "empty_zspace = \<lparr>zs_members = \<lambda>_ _. None, zs_expiry = \<lambda>_. None\<rparr>"

section \<open>Properties\<close>

text \<open>C9: the limiter is exactly a sliding window. On a key without earlier requests, with calls in order of
  time and no Redis failure, call \<open>i\<close> is allowed if and only if the number of different call times up to and
  including its own (allowed or refused) in its window is at most the limit, for every server that keeps the
  sorted-set contract.\<close>

theorem limiter_is_sliding_window:
  assumes "redis_zsets Z zview score" and "\<And>t. zview z (RateLimitKey u s) t = (\<lambda>_. None)" and "sorted ts"
    and "0 < sint m" and "\<And>t. t \<in> set ts \<Longrightarrow> in_window score t t" and "length ts < 2 ^ 63" and "i < length ts"
  shows "res_Allowed (fst (calls Z u s m ts z) ! i) \<longleftrightarrow>
    int (card {v \<in> set (take (Suc i) ts). in_window score (ts ! i) v}) \<le> sint m"
  by (rule redis_zsets.calls_exact_fresh [OF assms])

lemma zs_window: "in_window zs_score t u \<longleftrightarrow> (t - 60000000000) div 256 < u div 256"
  by (simp add: in_window_def zs_score_dec_int window_nano_def seconds_def RateLimitWindow_def)

lemma zs_window_self: "in_window zs_score t t"
proof -
  have "(t - 256 * 234375000) div 256 = t div 256 - 234375000" by (simp add: mult.commute [of 256])
  then show ?thesis by (simp add: zs_window)
qed

lemma empty_zspace_view: "zs_view empty_zspace k t = (\<lambda>_. None)"
  by (simp add: zs_view_def empty_zspace_def)

theorem limiter_is_sliding_window_witness:
  "\<not> res_Allowed (fst (calls mem_zredis ''u'' ''s'' 1 [0, seconds 59] empty_zspace) ! 1) \<and>
   res_Allowed (fst (calls mem_zredis ''u'' ''s'' 1 [0, seconds 60] empty_zspace) ! 1)"
proof
  have 1: "{v \<in> set (take (Suc 1) [0, seconds 59]). in_window zs_score ([0, seconds 59] ! 1) v} = {0, seconds 59}"
    by (auto simp: zs_window seconds_def)
  show "\<not> res_Allowed (fst (calls mem_zredis ''u'' ''s'' 1 [0, seconds 59] empty_zspace) ! 1)"
    using limiter_is_sliding_window [OF zmem.redis_zsets_axioms, of empty_zspace "''u''" "''s''" "[0, seconds 59]" 1 1, unfolded 1]
    by (simp add: empty_zspace_view zs_window_self seconds_def)
  have 2: "{v \<in> set (take (Suc 1) [0, seconds 60]). in_window zs_score ([0, seconds 60] ! 1) v} = {seconds 60}"
    by (auto simp: zs_window seconds_def)
  show "res_Allowed (fst (calls mem_zredis ''u'' ''s'' 1 [0, seconds 60] empty_zspace) ! 1)"
    using limiter_is_sliding_window [OF zmem.redis_zsets_axioms, of empty_zspace "''u''" "''s''" "[0, seconds 60]" 1 1, unfolded 2]
    by (simp add: empty_zspace_view zs_window_self seconds_def)
qed

text \<open>The limiter fails closed. A limit of zero or less, and every failure of Redis, refuses the call;
  with a limit of zero or less Redis is not asked.\<close>

theorem limiter_fails_closed:
  assumes "Allow Z link u s m now z = (err, r, z')"
  shows "(res_Allowed r \<longrightarrow> link = Up \<and> 0 < sint m \<and> \<not> err) \<and> (sint m \<le> 0 \<longrightarrow> \<not> err \<and> z' = z) \<and>
    (err \<longrightarrow> link \<noteq> Up \<and> \<not> res_Allowed r) \<and> res_Limit r = m"
  using assms by (auto simp: Allow_def Let_def split: prod.splits if_splits link.splits)

theorem limiter_fails_closed_witness:
  "\<not> res_Allowed \<lparr>res_Allowed = False, res_Count = 0, res_Limit = 0\<rparr> \<and>
   Allow mem_zredis Up ''u'' ''s'' 0 0 empty_zspace
     = (False, \<lparr>res_Allowed = False, res_Count = 0, res_Limit = 0\<rparr>, empty_zspace)"
  using limiter_fails_closed [of mem_zredis Up "''u''" "''s''" 0 0 empty_zspace False
      "\<lparr>res_Allowed = False, res_Count = 0, res_Limit = 0\<rparr>" empty_zspace]
  by (simp add: Allow_def)

text \<open>The remaining quota that is reported is the limit minus the count, or 0 when the quota is used up:
  in no result of \<open>Allow\<close> with a count that is not negative does the 64-bit subtraction wrap.\<close>

theorem remaining_is_exact:
  assumes "Allow Z link u k m now z = (err, r, z')" and "0 \<le> sint (res_Count r)"
  shows "sint (Remaining r) = max 0 (sint (res_Limit r) - sint (res_Count r))"
proof -
  have l: "- 2147483648 \<le> sint (res_Limit r)" "sint (res_Limit r) < 2147483648"
    using sint_range_size [of "res_Limit r"] by (simp_all add: word_size)
  have c: "sint (res_Count r) < 9223372036854775808"
    using sint_range_size [of "res_Count r"] by (simp add: word_size)
  have s: "sint (scast (res_Limit r) :: 64 word) = sint (res_Limit r)"
    by (simp add: sint_up_scast is_up)
  have "0 < sint (res_Limit r) \<or> res_Count r = 0"
    using assms(1) by (auto simp: Allow_def Let_def split: prod.splits if_splits link.splits)
  with l c assms(2) have lo: "- 9223372036854775808 \<le> sint (res_Limit r) - sint (res_Count r)" by auto
  have hi: "sint (res_Limit r) - sint (res_Count r) < 9223372036854775808" using l c assms(2) by linarith
  have "signed_take_bit 63 (sint (res_Limit r) - sint (res_Count r)) = sint (res_Limit r) - sint (res_Count r)"
    using lo hi by (intro signed_take_bit_int_eq_self) simp_all
  then have "sint (scast (res_Limit r) - res_Count r) = sint (res_Limit r) - sint (res_Count r)"
    by (simp add: sint_word_diff s)
  then show ?thesis by (simp add: Remaining_def Let_def)
qed

theorem remaining_is_exact_witness:
  "sint (Remaining \<lparr>res_Allowed = False, res_Count = 0, res_Limit = -5\<rparr>) = 0"
  using remaining_is_exact [of mem_zredis Up "''u''" "''s''" "-5" 0 empty_zspace False
      "\<lparr>res_Allowed = False, res_Count = 0, res_Limit = -5\<rparr>" empty_zspace]
  by (simp add: Allow_def)

end
