(* ===== verification/Rate_Bound.thy ===== *)
theory Rate_Bound
  imports Ratelimit
begin

text \<open>
  The quota as a bound on real time. A run of calls of one user to one server may mix limits and Redis failures
  (\<open>traffic\<close>); the calls that Redis has recorded are its live members (\<open>traffic_recorded\<close>), so an interval that
  is shorter than the window by the grain of the scores holds no more allowed calls than the quota
  (\<open>limiter_never_exceeds_quota\<close>). The members are the times themselves: two calls of the same nanosecond count as
  one (\<open>same_instant_exceeds_quota\<close>).
\<close>

section \<open>Calls\<close>

record call =
  call_link :: link
  call_max :: "32 word"
  call_at :: int

fun traffic :: "'z zredis \<Rightarrow> string \<Rightarrow> string \<Rightarrow> call list \<Rightarrow> 'z \<Rightarrow> Result list \<times> 'z" where
  "traffic Z u s [] z = ([], z)"
| "traffic Z u s (c # cs) z =
    (case Allow Z (call_link c) u s (call_max c) (call_at c) z of (_, r, z') \<Rightarrow>
      (case traffic Z u s cs z' of (rs, z'') \<Rightarrow> (r # rs, z'')))"

text \<open>The calls that reach Redis.\<close>

definition counted :: "call \<Rightarrow> bool" where
  "counted c \<longleftrightarrow> call_link c \<noteq> Down \<and> 0 < sint (call_max c)"

definition counted_times :: "call list \<Rightarrow> int set" where
  "counted_times cs = call_at ` {c \<in> set cs. counted c}"

lemma counted_times_Cons:
  "counted_times (c # cs) = (if counted c then insert (call_at c) (counted_times cs) else counted_times cs)"
  by (auto simp: counted_times_def)

lemma finite_counted_times [simp]: "finite (counted_times cs)"
  by (simp add: counted_times_def)

lemma Allow_uncounted:
  assumes "Allow Z (call_link c) u s (call_max c) t z = (err, r, z')" and "\<not> counted c"
  shows "z' = z" and "\<not> res_Allowed r"
  using assms by (auto simp: Allow_def counted_def Let_def split: if_splits prod.splits)

lemma Allow_counted:
  assumes "Allow Z (call_link c) u s (call_max c) t z = (err, r, z')" and "counted c"
  shows "\<exists>r'. Allow Z Up u s (call_max c) t z = (False, r', z') \<and> (res_Allowed r \<longrightarrow> r = r')"
  using assms by (cases "call_link c") (auto simp: Allow_def counted_def Let_def split: if_splits prod.splits)

context redis_zsets
begin

text \<open>An allowed call was counted, and with the counted calls before it in its window it is within its own limit.\<close>

lemma traffic_recorded:
  assumes "tracks k T t0 z" and "sorted (t0 # map call_at cs)" and "k = RateLimitKey u s"
    and "\<And>c. c \<in> set cs \<Longrightarrow> in_window score (call_at c) (call_at c)" and "card T + length cs < 2 ^ 63"
    and "i < length cs" and "res_Allowed (fst (traffic Z u s cs z) ! i)"
  shows "counted (cs ! i) \<and>
    int (card {v \<in> T \<union> counted_times (take (Suc i) cs). in_window score (call_at (cs ! i)) v}) \<le> sint (call_max (cs ! i))"
  using assms
proof (induction cs arbitrary: T t0 z i)
  case (Cons c cs)
  let ?t = "call_at c"
  obtain err r z' where a: "Allow Z (call_link c) u s (call_max c) ?t z = (err, r, z')" by (metis prod_cases3)
  obtain rs z'' where rs: "traffic Z u s cs z' = (rs, z'')" by fastforce
  have fin: "finite T" using Cons.prems(1) by (simp add: tracks_def)
  have le: "t0 \<le> ?t" and srt: "sorted (?t # map call_at cs)" and srt0: "sorted (t0 # map call_at cs)" using Cons.prems(2) by auto
  show ?case
  proof (cases "counted c")
    case False
    note no = Allow_uncounted [OF a False]
    obtain j where j: "i = Suc j" using Cons.prems(7) a rs no by (cases i) auto
    have "counted (cs ! j) \<and>
        int (card {v \<in> T \<union> counted_times (take (Suc j) cs). in_window score (call_at (cs ! j)) v}) \<le> sint (call_max (cs ! j))"
      using Cons.prems(3-7) a rs no j by (intro Cons.IH [OF Cons.prems(1) srt0]) auto
    then show ?thesis using False by (simp add: j counted_times_Cons)
  next
    case True
    then obtain r' where up: "Allow Z Up u s (call_max c) ?t z = (False, r', z')" "res_Allowed r \<Longrightarrow> r = r'"
      using Allow_counted [OF a] by blast
    have card: "card (insert ?t T) \<le> Suc (card T)" by (rule card_insert_le_m1) (simp_all add: fin)
    have pos: "0 < sint (call_max c)" using True by (simp add: counted_def)
    have win: "in_window score ?t ?t" and small: "card (insert ?t T) < 2 ^ 63" using Cons.prems(4,5) card by simp_all
    note st = allow_step [OF Cons.prems(1) le Cons.prems(3) pos win small up(1)]
    show ?thesis
    proof (cases i)
      case 0
      then have "res_Allowed r'" using Cons.prems(7) up(2) a rs by auto
      moreover have "T \<union> counted_times (take (Suc i) (c # cs)) = insert ?t T" using True 0 by (auto simp: counted_times_def)
      ultimately show ?thesis using st(3) True 0 by simp
    next
      case (Suc j)
      have "counted (cs ! j) \<and> int (card {v \<in> insert ?t T \<union> counted_times (take (Suc j) cs).
          in_window score (call_at (cs ! j)) v}) \<le> sint (call_max (cs ! j))"
        using Cons.prems(3-7) a rs Suc card by (intro Cons.IH [OF st(2) srt]) auto
      then show ?thesis using True by (simp add: Suc counted_times_Cons)
    qed
  qed
qed simp

text \<open>So the allowed calls of an interval are at most the limit of the last of them.\<close>

lemma allowed_in_interval:
  fixes a :: int
  assumes "\<And>t. zview z (RateLimitKey u s) t = (\<lambda>_. None)" and "sorted_wrt (<) (map call_at cs)" and "length cs < 2 ^ 63"
    and "0 \<le> grain" and "grain \<le> window_nano"
    and "\<And>c d. c \<in> set cs \<Longrightarrow> d \<in> set cs \<Longrightarrow> call_at c - call_at d \<le> window_nano - grain \<Longrightarrow> in_window score (call_at c) (call_at d)"
  defines "N \<equiv> {i. i < length cs \<and> res_Allowed (fst (traffic Z u s cs z) ! i) \<and> a \<le> call_at (cs ! i) \<and>
    call_at (cs ! i) \<le> a + (window_nano - grain)}"
  assumes "n \<in> N" and "\<And>i. i \<in> N \<Longrightarrow> i \<le> n"
  shows "int (card N) \<le> sint (call_max (cs ! n))"
proof -
  let ?V = "{v \<in> counted_times (take (Suc n) cs). in_window score (call_at (cs ! n)) v}"
  have n: "n < length cs" "res_Allowed (fst (traffic Z u s cs z) ! n)" using assms(8) by (simp_all add: N_def)
  have srt: "sorted (map call_at cs)" using assms(2) by (rule strict_sorted_imp_sorted)
  have "tracks (RateLimitKey u s) {} (hd (map call_at cs)) z" by (rule tracks_fresh) (rule assms(1))
  moreover have "sorted (hd (map call_at cs) # map call_at cs)" using srt n(1) by (cases cs) auto
  moreover have win: "in_window score (call_at c) (call_at c)" if "c \<in> set cs" for c using assms(4-6) that by simp
  ultimately have T: "counted (cs ! i) \<and> int (card {v \<in> counted_times (take (Suc i) cs). in_window score (call_at (cs ! i)) v})
      \<le> sint (call_max (cs ! i))" if "i < length cs" "res_Allowed (fst (traffic Z u s cs z) ! i)" for i
    using traffic_recorded [of _ "{}" _ z cs u s i] assms(3) that by simp
  have "(\<lambda>i. call_at (cs ! i)) ` N \<subseteq> ?V"
  proof (rule image_subsetI)
    fix i assume i: "i \<in> N"
    have "i \<le> n" by (rule assms(9) [OF i])
    have len: "i < length cs" using i by (simp add: N_def)
    have "counted (cs ! i)" using T i by (simp add: N_def)
    moreover have "cs ! i \<in> set (take (Suc n) cs)"
      using \<open>i \<le> n\<close> n(1) by (auto simp: in_set_conv_nth intro!: exI [of _ i])
    moreover have "in_window score (call_at (cs ! n)) (call_at (cs ! i))"
      using assms(6) [of "cs ! n" "cs ! i"] i assms(8) len n(1) by (simp add: N_def)
    ultimately show "call_at (cs ! i) \<in> ?V" by (auto simp: counted_times_def)
  qed
  moreover have "inj_on (\<lambda>i. call_at (cs ! i)) N"
  proof (rule inj_onI)
    fix i j assume ij: "i \<in> N" "j \<in> N" "call_at (cs ! i) = call_at (cs ! j)"
    have "distinct (map call_at cs)" using assms(2) by (simp add: strict_sorted_iff)
    with ij show "i = j" using nth_eq_iff_index_eq [of "map call_at cs" i j] by (simp add: N_def)
  qed
  moreover have "finite ?V" by simp
  ultimately have "card N \<le> card ?V" using card_inj_on_le by blast
  then show ?thesis using T [OF n] by linarith
qed

end

section \<open>Properties\<close>

text \<open>C33: the quota bounds the allowed calls of an interval. Take any run of calls of one user to one server on an unused
  key, at strictly increasing nanosecond times, with any limits and any failures of Redis, and a server whose scores tell
  two times apart that differ by \<open>grain\<close> or more (257 nanoseconds for the doubles of a sorted set at this epoch, whose spacing is 256). Then no
  interval of 60 seconds less \<open>grain\<close> holds more allowed calls than the greatest limit of the allowed calls in it.\<close>

theorem limiter_never_exceeds_quota:
  fixes a quota :: int
  assumes "redis_zsets Z zview score" and "\<And>t. zview z (RateLimitKey u s) t = (\<lambda>_. None)"
    and "sorted_wrt (<) (map call_at cs)" and "length cs < 2 ^ 63" and "0 \<le> grain" and "grain \<le> seconds 60"
    and "\<And>c d. c \<in> set cs \<Longrightarrow> d \<in> set cs \<Longrightarrow> call_at c - seconds 60 + grain \<le> call_at d \<Longrightarrow>
      score (dec_int (call_at c - seconds 60)) < score (dec_int (call_at d))"
    and "N = {i. i < length cs \<and> res_Allowed (fst (traffic Z u s cs z) ! i) \<and> a \<le> call_at (cs ! i) \<and>
      call_at (cs ! i) \<le> a + seconds 60 - grain}"
    and "0 \<le> quota" and "\<And>i. i \<in> N \<Longrightarrow> sint (call_max (cs ! i)) \<le> quota"
  shows "int (card N) \<le> quota"
proof (cases "N = {}")
  case False
  have w: "window_nano = seconds 60" by (simp add: window_nano_def RateLimitWindow_def)
  have N: "N = {i. i < length cs \<and> res_Allowed (fst (traffic Z u s cs z) ! i) \<and> a \<le> call_at (cs ! i) \<and>
      call_at (cs ! i) \<le> a + (window_nano - grain)}"
    using assms(8) by (simp add: w algebra_simps)
  have fin: "finite N" by (rule finite_subset [of _ "{..<length cs}"]) (auto simp: assms(8))
  then have "Max N \<in> N" "\<And>i. i \<in> N \<Longrightarrow> i \<le> Max N" using False by simp_all
  moreover have "in_window score (call_at c) (call_at d)"
    if "c \<in> set cs" "d \<in> set cs" "call_at c - call_at d \<le> window_nano - grain" for c d
    using assms(7) [OF that(1,2)] that(3) by (simp add: in_window_def w)
  ultimately have "int (card N) \<le> sint (call_max (cs ! Max N))"
    using redis_zsets.allowed_in_interval [OF assms(1,2,3,4,5), of "Max N" a] assms(6) unfolding w [symmetric] N by blast
  with assms(10) [OF \<open>Max N \<in> N\<close>] show ?thesis by linarith
qed (use assms(9) in simp)

text \<open>Three calls, of which the second is lost on its way back.\<close>

definition demo_calls :: "call list" where
  "demo_calls = [\<lparr>call_link = Up, call_max = 2, call_at = 0\<rparr>, \<lparr>call_link = Lost, call_max = 2, call_at = 1000\<rparr>,
    \<lparr>call_link = Up, call_max = 2, call_at = 2000\<rparr>]"

theorem limiter_never_exceeds_quota_witness:
  "int (card {i. i < length demo_calls \<and> res_Allowed (fst (traffic mem_zredis ''u'' ''s'' demo_calls empty_zspace) ! i) \<and>
    0 \<le> call_at (demo_calls ! i) \<and> call_at (demo_calls ! i) \<le> 0 + seconds 60 - 256}) \<le> 2"
proof (rule limiter_never_exceeds_quota [OF zmem.redis_zsets_axioms, where z = empty_zspace and u = "''u''" and s = "''s''"
      and cs = demo_calls and grain = 256 and a = 0])
  fix c d
  show "call_at c - seconds 60 + 256 \<le> call_at d \<Longrightarrow> zs_score (dec_int (call_at c - seconds 60)) < zs_score (dec_int (call_at d))"
    unfolding zs_score_dec_int by linarith
next
  fix i
  assume "i \<in> {i. i < length demo_calls \<and> res_Allowed (fst (traffic mem_zredis ''u'' ''s'' demo_calls empty_zspace) ! i) \<and>
    0 \<le> call_at (demo_calls ! i) \<and> call_at (demo_calls ! i) \<le> 0 + seconds 60 - 256}"
  then have "i = 0 \<or> i = 1 \<or> i = 2" by (auto simp: demo_calls_def)
  then show "sint (call_max (demo_calls ! i)) \<le> 2" by (elim disjE) (simp_all add: demo_calls_def numeral_2_eq_2)
qed (simp_all add: empty_zspace_view demo_calls_def seconds_def)

text \<open>Two calls of the same nanosecond are one member of the set: with a quota of one, both are allowed.\<close>

theorem same_instant_exceeds_quota:
  "i < 2 \<Longrightarrow> res_Allowed (fst (calls mem_zredis u s 1 [t, t] empty_zspace) ! i)"
proof -
  assume i: "i < 2"
  then have "{v \<in> set (take (Suc i) [t, t]). in_window zs_score ([t, t] ! i) v} = {t}"
    using zs_window_self by (cases i) auto
  then show ?thesis
    using zmem.calls_exact_fresh [of empty_zspace u s "[t, t]" 1 i] i by (simp add: empty_zspace_view zs_window_self)
qed

end
