(* ===== verification/Store_Props.thy ===== *)
theory Store_Props
  imports Policy_Props
begin

text \<open>
  Properties of the relational store as a whole: the schema is an invariant of everything the program does
  to it, the audit log only grows, a policy that was written is what the policy engine decides by, and the
  pages of the audit log tile it.
\<close>

section \<open>The schema\<close>

text \<open>C24: the schema is an invariant. Whatever statements of the program run, in any order and with any
  connection failure between them, ids, role names, e-mails, server names and (role, server, tool) triples stay
  unique, every reference points to a row, and the checked columns hold only permitted values.\<close>

theorem store_schema_invariant:
  assumes "db_reachable pg s"
  shows "keys_ok (db_tables s) \<and> unique_ok (db_tables s) \<and> refs_ok (db_tables s) \<and> checks_ok (db_tables s)"
  using db_reachable_ok [OF assms] by (simp add: tables_ok_def)

definition demo_role :: CreateRoleParams where
  "demo_role = \<lparr>cr_name = ''hr'', cr_desc = None\<rparr>"

lemma demo_role_created:
  "db_tables (snd (exec demo_pg (CreateRole demo_role) empty_db)) = (db_tables empty_db)
    \<lparr>t_roles := [\<lparr>role_id = replicate 16 4, role_name = ''hr'', role_desc = None, role_created = 0\<rparr>]\<rparr>"
  by (simp add: exec_def demo_pg_def CreateRole_def demo_role_def empty_db_def Let_def text_ok_def opt_text_ok_def
      utf8_len_def)

theorem store_schema_invariant_witness:
  "unique_ok ((db_tables empty_db)
    \<lparr>t_roles := [\<lparr>role_id = replicate 16 4, role_name = ''hr'', role_desc = None, role_created = 0\<rparr>]\<rparr>)"
  using store_schema_invariant [OF db_reachable.step [OF db_reachable.start db_step.CreateRole], of demo_pg demo_role]
  unfolding demo_role_created by blast

section \<open>The audit log\<close>

lemma exec_appends:
  assumes "\<And>e t. \<exists>rows. t_events (snd (q e t)) = t_events t @ rows"
  shows "\<exists>rows. t_events (db_tables (snd (exec pg q s))) = t_events (db_tables s) @ rows"
  using exec_tables [of pg q s] assms [of "pg_env pg (db_calls s)" "db_tables s"] by fastforce

lemma exec_keeps_log:
  assumes "\<And>e t. t_events (snd (q e t)) = t_events t"
  shows "\<exists>rows. t_events (db_tables (snd (exec pg q s))) = t_events (db_tables s) @ rows"
  using exec_tables [of pg q s] assms by fastforce

lemma insert_event_appends: "\<exists>rows. t_events (snd (insert_event row t)) = t_events t @ rows"
  by (simp add: insert_event_def)

lemma audit_inserts_append:
  "\<exists>rows. t_events (snd (CreateAuditEvent pg arg e t)) = t_events t @ rows"
  "\<exists>rows. t_events (snd (InsertAuditEventWithID pg arg' e t)) = t_events t @ rows"
  by (auto simp: CreateAuditEvent_def InsertAuditEventWithID_def insert_event_appends split: option.split)

lemma db_step_appends: "db_step pg s s' \<Longrightarrow> \<exists>rows. t_events (db_tables s') = t_events (db_tables s) @ rows"
proof (induction rule: db_step.induct)
  case (CreateAuditEvent pg s arg)
  show ?case by (rule exec_appends) (rule audit_inserts_append)
next
  case (InsertAuditEventWithID pg s arg)
  show ?case by (rule exec_appends) (rule audit_inserts_append)
qed (rule exec_keeps_log,
    simp add: CreateRole_def DeleteRole_def UpdateRole_def CreateUser_def SetUserActive_def UpdateUserRole_def
      CreateDownstreamServer_def SetDownstreamServerActive_def UpdateToolManifest_def UpdateDownstreamServer_def
      DeletePoliciesByRole_def DeletePolicy_def UpsertPolicy_def Let_def split: option.split)+

lemma db_steps_append:
  "(db_step pg)\<^sup>*\<^sup>* s s' \<Longrightarrow> \<exists>rows. t_events (db_tables s') = t_events (db_tables s) @ rows"
proof (induction rule: rtranclp_induct)
  case (step s' s'')
  then show ?case using db_step_appends [of pg s' s''] by fastforce
qed simp

text \<open>C36: the audit log is append-only. No sequence of statements of the program changes or removes a row of
  it: the log of an earlier state is a prefix of the log of every later one.\<close>

theorem audit_log_append_only:
  assumes "(db_step pg)\<^sup>*\<^sup>* s s'"
  shows "\<exists>rows. t_events (db_tables s') = t_events (db_tables s) @ rows"
  by (rule db_steps_append [OF assms])

theorem audit_log_append_only_witness:
  "\<exists>rows. t_events (db_tables (snd (exec demo_pg (DeletePolicy id3) (demo_db True)))) = t_events (db_tables (demo_db True)) @ rows"
  by (rule audit_log_append_only, rule r_into_rtranclp, rule db_step.DeletePolicy)

lemma audit_page:
  assumes "n < 2 ^ 31" and "i < 2 ^ 31"
  shows "fst (ListAuditEvents \<lparr>la_limit = word_of_nat n, la_offset = word_of_nat i\<rparr> e t)
    = Inr (take n (drop i (recent (t_events t))))"
proof -
  have "sint (word_of_nat k :: 32 word) = int k" if "k < 2 ^ 31" for k
    using that by (simp add: signed_of_nat signed_take_bit_int_eq_self)
  with assms show ?thesis by (simp add: ListAuditEvents_def reading_def page_def)
qed

lemma take_drop_tiles: "concat (map (\<lambda>i. take n (drop (i * n) xs)) [0..<k]) = take (k * n) xs"
proof (induction k)
  case (Suc k)
  then show ?case by (simp add: take_add [of "k * n" n xs, symmetric] add.commute)
qed simp

text \<open>Paging through the audit log shows every event once, newest first: the first \<open>k\<close> pages of \<open>n\<close>
  rows, read one after the other from the same tables, are the first \<open>k * n\<close> rows of the log sorted by time.\<close>

theorem audit_pages_tile_log:
  assumes "n < 2 ^ 31" and "k * n < 2 ^ 31"
  shows "concat (map (\<lambda>i. case fst (ListAuditEvents \<lparr>la_limit = word_of_nat n, la_offset = word_of_nat (i * n)\<rparr> e t) of
        Inl err \<Rightarrow> [] | Inr rows \<Rightarrow> rows) [0..<k])
      = take (k * n) (recent (t_events t)) \<and>
    set (recent (t_events t)) = set (t_events t) \<and> length (recent (t_events t)) = length (t_events t) \<and>
    sorted_wrt (\<lambda>a b. ae_at b \<le> ae_at a) (recent (t_events t))"
proof (intro conjI)
  have "i * n < 2 ^ 31" if "i < k" for i
    using mult_right_mono [of i k n] assms(2) that by linarith
  then have "map (\<lambda>i. case fst (ListAuditEvents \<lparr>la_limit = word_of_nat n, la_offset = word_of_nat (i * n)\<rparr> e t) of
      Inl err \<Rightarrow> [] | Inr rows \<Rightarrow> rows) [0..<k] = map (\<lambda>i. take n (drop (i * n) (recent (t_events t)))) [0..<k]"
    using audit_page [OF assms(1)] by (simp del: of_nat_mult)
  then show "concat (map (\<lambda>i. case fst (ListAuditEvents \<lparr>la_limit = word_of_nat n, la_offset = word_of_nat (i * n)\<rparr> e t) of
      Inl err \<Rightarrow> [] | Inr rows \<Rightarrow> rows) [0..<k]) = take (k * n) (recent (t_events t))"
    by (simp only: take_drop_tiles)
  have "sorted (map (\<lambda>a. - ae_at a) (recent (t_events t)))"
    by (simp add: recent_def)
  then show "sorted_wrt (\<lambda>a b. ae_at b \<le> ae_at a) (recent (t_events t))"
    by (simp add: sorted_map)
qed (simp_all add: recent_def)

theorem audit_pages_tile_log_witness:
  "concat (map (\<lambda>i. case fst (ListAuditEvents \<lparr>la_limit = word_of_nat 50, la_offset = word_of_nat (i * 50)\<rparr> (pg_env demo_pg 0)
      (db_tables (demo_db True))) of Inl err \<Rightarrow> [] | Inr rows \<Rightarrow> rows) [0..<2]) = []"
  using audit_pages_tile_log [of 50 2 "pg_env demo_pg 0" "db_tables (demo_db True)"] by (simp add: demo_db_def recent_def)

section \<open>From the administration to the policy engine\<close>

text \<open>C28: a policy takes effect. After a policy was written for a role, a server and a tool, the next
  evaluation of that triple that does not find a cache entry, and whose query is answered, decides exactly by the
  policy that was written, whether it was new or replaced another one.\<close>

theorem upserted_policy_decides:
  assumes "store_good d" and "q_UpsertPolicy (queries pg) arg d = (Inr p, d')"
    and "scan roleID = Some (up_role arg)" and "scan serverID = Some (up_server arg)"
    and "cache_lookup R (PolicyKey roleID serverID (up_tool arg)) now r = None"
    and "ce_link (pg_env pg (db_calls d')) = Up"
  shows "\<exists>redact. up_redact arg = Some redact \<and>
    ev_decision (fst (Evaluate scan (db_engine R pg) roleID serverID (up_tool arg) now r d')) =
      \<lparr>Allowed = up_allowed arg, RedactFields = redact, MaxCallsPerMinute = up_max arg\<rparr>"
proof -
  let ?arg = "\<lparr>gp_role = up_role arg, gp_server = up_server arg, gp_tool = up_tool arg\<rparr>"
  obtain e where up: "UpsertPolicy arg e (db_tables d) = (Inr p, db_tables d')"
    using assms(2) by (auto simp: queries_def exec_def Let_def split: link.splits prod.splits)
  have "tables_ok (db_tables d)" using assms(1) by (simp add: store_good_def)
  note row = upsert_then_lookup [OF this up]
  have "q_GetPolicyByRoleServerTool (queries pg) ?arg d' = (Inr p, d'\<lparr>db_calls := db_calls d' + 1\<rparr>)"
    using row(1) assms(6) by (simp add: queries_def exec_def Let_def)
  then show ?thesis
    using row(2-4) assms(3-5)
    by (auto simp: Evaluate_def Let_def db_engine_def decision_of_def)
qed

definition demo_upsert :: UpsertPolicyParams where
  "demo_upsert = \<lparr>up_role = id1, up_server = id2, up_tool = ''read'', up_allowed = False, up_redact = Some [], up_max = 7\<rparr>"

lemma demo_upserted: "q_UpsertPolicy (queries demo_pg) demo_upsert (demo_db True) =
    (Inr (policy_update demo_upsert [] (demo_policy True)),
     (demo_db True)\<lparr>db_calls := 1,
       db_tables := (db_tables (demo_db True))\<lparr>t_policies := [policy_update demo_upsert [] (demo_policy True)]\<rparr>\<rparr>)"
  by (simp add: queries_def exec_def demo_pg_def demo_db_def demo_upsert_def UpsertPolicy_def Let_def demo_text_ok
      matches_def demo_policy_def modify_def)

lemma demo_upsert_args: "up_tool demo_upsert = ''read''" "up_allowed demo_upsert = False"
  "up_redact demo_upsert = Some []" "up_max demo_upsert = 7"
  by (simp_all add: demo_upsert_def)

lemma demo_upsert_scans: "ref_scan (format_uuid id1) = Some (up_role demo_upsert)"
  "ref_scan (format_uuid id2) = Some (up_server demo_upsert)"
  using uuid_scanner_ref by (simp_all add: demo_upsert_def uuid_scanner_def)

lemma demo_link: "ce_link (pg_env demo_pg n) = Up"
  by (simp add: demo_pg_def)

theorem upserted_policy_decides_witness:
  "ev_decision (fst (Evaluate ref_scan (db_engine mem_redis demo_pg) (format_uuid id1) (format_uuid id2) ''read'' 0
      empty_keyspace (snd (q_UpsertPolicy (queries demo_pg) demo_upsert (demo_db True)))))
    = \<lparr>Allowed = False, RedactFields = [], MaxCallsPerMinute = 7\<rparr>"
  using upserted_policy_decides [OF demo_db_good demo_upserted demo_upsert_scans demo_fresh, of 0]
  by (simp add: demo_upserted demo_upsert_args demo_link)

end
