(* ===== verification/Json_Compact.thy ===== *)
theory Json_Compact
  imports Json_Round
begin

text \<open>
  What \<open>compact\<close> does to JSON. Printed documents are compact already (\<open>compact_printed\<close>), so a document
  that passed through \<^verbatim>\<open>Marshal\<close> once and travels as a \<^verbatim>\<open>RawMessage\<close> is printed unchanged inside another message;
  and compacting any raw value gives a raw value (\<open>raw_value_compact\<close>), so a message that was decoded can
  always be printed again.
\<close>

section \<open>Compacting what was printed\<close>

definition plain :: "char \<Rightarrow> bool" where
  "plain c \<longleftrightarrow> c \<notin> {CHR ''<'', CHR ''>'', CHR ''&'', CHR 0xE2, BSL, DQ} \<and> \<not> is_ws c"

definition plain_in :: "char \<Rightarrow> bool" where
  "plain_in c \<longleftrightarrow> c \<notin> {CHR ''<'', CHR ''>'', CHR ''&'', CHR 0xE2, BSL, DQ}"

lemma compact_plain: "list_all plain t \<Longrightarrow> compact False (t @ r) = t @ compact False r"
  by (induction t) (auto simp: plain_def)

lemma compact_plain_in: "list_all plain_in t \<Longrightarrow> compact True (t @ r) = t @ compact True r"
  by (induction t) (auto simp: plain_in_def)

lemma compact_escape_char: "e \<noteq> CHR ''<'' \<Longrightarrow> compact True (BSL # e # r) = BSL # e # compact True r"
  by simp

lemma hex_chars_plain: "c \<in> hex_chars \<Longrightarrow> plain_in c"
  by (auto simp: hex_chars_def plain_in_def)

lemma low_hex_plain: "list_all plain_in (low_hex n)"
  using hex_digit_in hex_chars_plain by (simp add: low_hex_def)

lemma compact_escape_ascii:
  assumes "code c < 128"
  shows "compact True (escape_ascii c @ r) = escape_ascii c @ compact True r"
proof -
  have "c \<noteq> CHR 0xE2" using assms by auto
  moreover have "compact True (''00'' @ low_hex (code c) @ r) = ''00'' @ low_hex (code c) @ compact True r"
    using compact_plain_in [of "''00'' @ low_hex (code c)" r] low_hex_plain by (simp add: plain_in_def)
  ultimately show ?thesis by (auto simp: escape_ascii_def)
qed

lemma high_not_special: "128 \<le> code c \<Longrightarrow> c \<noteq> CHR 0xE2 \<Longrightarrow> plain_in c"
  by (auto simp: plain_in_def)

lemma cont_plain: "is_cont c \<Longrightarrow> plain_in c"
  by (rule high_not_special) (auto simp: is_cont_def)

lemma snd_plain: "snd_lo x \<le> code b \<Longrightarrow> code b \<le> snd_hi x \<Longrightarrow> plain_in b"
  by (rule high_not_special) (auto simp: snd_lo_def snd_hi_def split: if_splits)

text \<open>A multi-byte character: everything after its first byte is plain.\<close>

lemma chunk_tail_plain:
  assumes "utf8_len (c # r) \<noteq> 0"
  shows "list_all plain_in (take (utf8_len (c # r) - 1) r)"
  using assms
  by (auto simp: utf8_len_def Let_def cont_plain snd_plain split: if_splits list.splits)

lemma compact_chunk:
  assumes "128 \<le> code c" and "utf8_len (c # r) \<noteq> 0"
    and "take 3 (c # r) \<noteq> [CHR 0xE2, CHR 0x80, CHR 0xA8]" and "take 3 (c # r) \<noteq> [CHR 0xE2, CHR 0x80, CHR 0xA9]"
  shows "compact True (c # take (utf8_len (c # r) - 1) r @ x) = c # take (utf8_len (c # r) - 1) r @ compact True x"
proof -
  let ?t = "take (utf8_len (c # r) - 1) r"
  have tail: "compact True (?t @ x) = ?t @ compact True x"
    by (rule compact_plain_in [OF chunk_tail_plain [OF assms(2)]])
  show ?thesis
  proof (cases "c = CHR 0xE2")
    case True
    then obtain a b r' where r: "r = a # b # r'" and n: "utf8_len (c # r) = 3"
      using assms(2) by (auto simp: utf8_len_def Let_def split: if_splits list.splits)
    have "take 2 (?t @ x) \<noteq> [CHR 0x80, CHR 0xA8]" "take 2 (?t @ x) \<noteq> [CHR 0x80, CHR 0xA9]"
      using assms(3,4) True r n by auto
    with tail True show ?thesis by simp
  next
    case False
    then have "plain_in c" using assms(1) by (rule high_not_special [rotated])
    with tail show ?thesis by (simp add: plain_in_def)
  qed
qed

lemma compact_escape: "compact True (escape s @ r) = escape s @ compact True r"
proof (induction s rule: escape.induct)
  case (2 c s)
  show ?case
  proof (cases "code c < 128")
    case True
    then show ?thesis using "2.IH"(1) [OF True] compact_escape_ascii [OF True] by simp
  next
    case high: False
    have u: "compact True (''u2028'' @ x) = ''u2028'' @ compact True x"
      "compact True (''u2029'' @ x) = ''u2029'' @ compact True x"
      "compact True (''ufffd'' @ x) = ''ufffd'' @ compact True x" for x
      by (rule compact_plain_in, simp add: plain_in_def)+
    consider "utf8_len (c # s) = 0" | "utf8_len (c # s) \<noteq> 0" "take 3 (c # s) = [CHR 0xE2, CHR 0x80, CHR 0xA8]"
      | "utf8_len (c # s) \<noteq> 0" "take 3 (c # s) = [CHR 0xE2, CHR 0x80, CHR 0xA9]"
      | "utf8_len (c # s) \<noteq> 0" "take 3 (c # s) \<noteq> [CHR 0xE2, CHR 0x80, CHR 0xA8]"
        "take 3 (c # s) \<noteq> [CHR 0xE2, CHR 0x80, CHR 0xA9]" by blast
    then show ?thesis
    proof cases
      case 1
      then show ?thesis using "2.IH"(2) [OF high 1] u(3) high by simp
    next
      case 2
      then show ?thesis using "2.IH"(3) [OF high 2] u(1) high by simp
    next
      case 3
      then have "take 3 (c # s) \<noteq> [CHR 0xE2, CHR 0x80, CHR 0xA8]" by simp
      with 3 show ?thesis using "2.IH"(4) [OF high 3(1) _ 3(2)] u(2) high by simp
    next
      case 4
      let ?n = "utf8_len (c # s) - 1"
      have eq: "escape (c # s) = c # take ?n s @ escape (drop ?n s)"
        using 4 high by simp
      have "128 \<le> code c" using high by simp
      from compact_chunk [OF this 4, of "escape (drop ?n s) @ r"] "2.IH"(5) [OF high 4]
      show ?thesis unfolding eq by (simp del: compact.simps)
    qed
  qed
qed simp

lemma compact_quote: "compact False (quote s @ r) = quote s @ compact False r"
  using compact_escape [of s "DQ # r"] by (simp add: quote_def is_ws_def)

text \<open>The characters of a number.\<close>

definition number_char :: "char \<Rightarrow> bool" where
  "number_char c \<longleftrightarrow> is_digit c \<or> c \<in> set ''+-.eE''"

lemma number_chars:
  assumes "is_number t"
  shows "list_all number_char t"
proof -
  have digits: "list_all number_char ds" if "span_digits s = (ds, x)" for s ds x
    using that by (induction s arbitrary: ds) (auto simp: number_char_def split: if_splits prod.splits)
  have d: "list_all number_char ds" if "scan_digits s = Some (ds, x)" for s ds x
    using that digits by (auto simp: scan_digits_def split: prod.splits list.splits)
  have i: "list_all number_char ds" if "scan_int s = Some (ds, x)" for s ds x
    using that d by (auto simp: scan_int_def number_char_def is_digit_def split: list.splits if_splits)
  have f: "list_all number_char ds" if "scan_frac s = Some (ds, x)" for s ds x
    using that d by (auto simp: scan_frac_def prepend_eq_Some number_char_def split: list.splits if_splits)
  have sg: "list_all number_char ds" if "scan_sign cs s = (ds, x)" "set cs \<subseteq> {CHR ''-'', CHR ''+''}" for cs s ds x
    using that by (auto simp: scan_sign_def number_char_def split: list.splits if_splits)
  have e: "list_all number_char ds" if "scan_exp s = Some (ds, x)" for s ds x
  proof (cases s)
    case (Cons c r)
    obtain g u where g: "scan_sign ''+-'' r = (g, u)" by (cases "scan_sign ''+-'' r")
    have "list_all number_char g" using sg [OF g] by simp
    then show ?thesis using that g d Cons
      by (auto simp: scan_exp_def prepend_eq_Some number_char_def split: if_splits)
  qed (use that in \<open>simp add: scan_exp_def\<close>)
  obtain g u where g: "scan_sign ''-'' t = (g, u)" by (cases "scan_sign ''-'' t")
  have "list_all number_char g" using sg [OF g] by simp
  then show ?thesis using assms g i f e
    by (fastforce simp: is_number_def scan_number_def prepend_eq_Some split: option.splits)
qed

lemma number_plain: "is_number t \<Longrightarrow> list_all plain t"
  by (rule list.pred_mono_strong [OF number_chars]) (auto simp: number_char_def plain_def is_digit_def is_ws_def)

lemma compact_commas:
  assumes "\<And>x r. x \<in> set xs \<Longrightarrow> compact False (x @ r) = x @ compact False r"
  shows "compact False (commas xs @ r) = commas xs @ compact False r"
  using assms by (induction xs arbitrary: r rule: commas.induct) (auto simp: is_ws_def)

lemma compact_print: "json_ok f d v \<Longrightarrow> compact False (json_print v @ r) = json_print v @ compact False r"
proof (induction v arbitrary: d r)
  case (JNum t)
  then show ?case using number_plain [of t] by (simp add: compact_plain)
next
  case (JStr s)
  then show ?case by (simp add: compact_quote)
next
  case (JArr vs)
  have "compact False (commas (map json_print vs) @ x) = commas (map json_print vs) @ compact False x" for x
    using JArr by (intro compact_commas) auto
  then show ?case by (simp add: is_ws_def)
next
  case (JObj kvs)
  have "compact False (print_member e @ x) = print_member e @ compact False x" if "e \<in> set kvs" for e x
  proof (cases e)
    case (Pair k v)
    then have "compact False (json_print v @ x) = json_print v @ compact False x"
      using JObj.prems that by (intro JObj.IH [OF that, of v "d - 1"]) auto
    then show ?thesis using compact_quote [of k "CHR '':'' # json_print v @ x"] Pair by (simp add: is_ws_def)
  qed
  then have "compact False (commas (map print_member kvs) @ x) = commas (map print_member kvs) @ compact False x" for x
    by (intro compact_commas) auto
  then show ?case by (simp add: is_ws_def)
qed (simp_all add: is_ws_def)

lemma compact_printed [simp]: "json_ok f d v \<Longrightarrow> compact False (json_print v) = json_print v"
  using compact_print [of f d v "[]"] by simp

section \<open>Compacting raw values\<close>

lemma hex4_plain: "hex4 a b c d = Some n \<Longrightarrow> list_all plain_in [a, b, c, d]"
proof -
  have "plain_in x" if "hex_val x = Some m" for x m
    using that by (cases "x \<in> {CHR ''<'', CHR ''>'', CHR ''&'', CHR 0xE2, BSL, DQ}")
      (auto simp: plain_in_def hex_val_def)
  then show "hex4 a b c d = Some n \<Longrightarrow> list_all plain_in [a, b, c, d]"
    by (auto simp: hex4_def split: option.splits)
qed

lemma take2_quote: "take 2 (u @ DQ # r) = [a, b] \<Longrightarrow> a \<noteq> DQ \<Longrightarrow> b \<noteq> DQ \<Longrightarrow> \<exists>u2. u = a # b # u2"
  by (cases u; cases "tl u") auto

text \<open>A string literal: escaping inside it leaves a string literal.\<close>

lemma compact_string:
  "scan_string s = Some (u, t) \<Longrightarrow>
    \<exists>u'. (\<forall>r. compact True (u @ DQ # r) = u' @ DQ # compact False r) \<and> (\<forall>y. scan_string (u' @ DQ # y) = Some (u', y))"
proof (induction s arbitrary: u rule: scan_string.induct)
  case (2 c r)
  consider "c = DQ" | (u) r1 w r2 where "c = BSL" "r = CHR ''u'' # r1" "read_u r1 = Some (w, r2)"
    | (esc) e r1 where "c = BSL" "r = e # r1" "e \<noteq> CHR ''u''" "e \<in> set (''bfnrt/'' @ [BSL, DQ])"
    | (plain) "c \<noteq> DQ" "c \<noteq> BSL" "\<not> code c < 32"
    using "2.prems" by (auto split: if_splits list.splits option.splits)
  then show ?case
  proof cases
    case 1
    then show ?thesis using "2.prems" by (intro exI [of _ "[]"]) simp
  next
    case u
    then obtain h1 h2 h3 h4 where r1: "r1 = h1 # h2 # h3 # h4 # r2" and h: "hex4 h1 h2 h3 h4 = Some w"
      by (auto simp: read_u_def split: list.splits)
    have ru: "read_u (h1 # h2 # h3 # h4 # z) = Some (w, z)" for z
      using h by (simp add: read_u_def)
    from "2.prems" u obtain v where v: "scan_string r2 = Some (v, t)" "u = [c, CHR ''u'', h1, h2, h3, h4] @ v"
      by (auto simp: prepend_eq_Some r1)
    obtain v' where v': "\<And>r. compact True (v @ DQ # r) = v' @ DQ # compact False r"
      "\<And>y. scan_string (v' @ DQ # y) = Some (v', y)"
      using "2.IH"(1) [OF _ u(1) u(2) refl u(3) refl] u(1) v(1) by auto
    have "compact True (h1 # h2 # h3 # h4 # x) = h1 # h2 # h3 # h4 # compact True x" for x
      using compact_plain_in [OF hex4_plain [OF h], of x] by simp
    then show ?thesis using v' u v(2) ru
      by (intro exI [of _ "[c, CHR ''u'', h1, h2, h3, h4] @ v'"]) (simp del: read_u_def)
  next
    case esc
    then obtain v where v: "scan_string r1 = Some (v, t)" "u = [c, e] @ v"
      using "2.prems" by (auto simp: prepend_eq_Some)
    obtain v' where v': "\<And>r. compact True (v @ DQ # r) = v' @ DQ # compact False r"
      "\<And>y. scan_string (v' @ DQ # y) = Some (v', y)"
      using "2.IH"(2) [OF _ esc(1,2,3,4)] esc(1) v(1) by auto
    show ?thesis using v' esc v(2) by (intro exI [of _ "[c, e] @ v'"]) auto
  next
    case plain
    then obtain v where v: "scan_string r = Some (v, t)" "u = c # v"
      using "2.prems" by (auto simp: prepend_eq_Some)
    obtain v' where v': "\<And>r. compact True (v @ DQ # r) = v' @ DQ # compact False r"
      "\<And>y. scan_string (v' @ DQ # y) = Some (v', y)"
      using "2.IH"(3) [OF plain] v(1) by auto
    have low: ?thesis if c: "c = CHR ''<'' \<or> c = CHR ''>'' \<or> c = CHR ''&''"
    proof -
      have e: "escape_ascii c = BSL # ''u00'' @ low_hex (code c)" "code c < 128"
        using c by (auto simp: escape_ascii_def)
      have "compact True (c # x) = escape_ascii c @ compact True x" for x
        unfolding e(1) using c by auto
      then show ?thesis using v(2) v' scan_string_escape_ascii [OF e(2)]
        by (intro exI [of _ "escape_ascii c @ v'"]) (simp del: compact.simps)
    qed
    have line: ?thesis if c: "c = CHR 0xE2 \<and> v = CHR 0x80 # b # v2 \<and> b \<in> {CHR 0xA8, CHR 0xA9}" for b v2
    proof -
      define e where "e = (if b = CHR 0xA8 then BSL # ''u2028'' else BSL # ''u2029'')"
      have e: "scan_string (e @ y) = prepend e (scan_string y)" for y
        using scan_string_u_literals(2,3) [of y] by (simp add: e_def)
      have cut: "CHR 0x80 # b # compact True (v2 @ DQ # r) = v' @ DQ # compact False r" for r
        using v'(1) [of r] c by auto
      then obtain v2' where v2': "v' = CHR 0x80 # b # v2'"
        using c cut [of "[]"] by (cases v'; cases "tl v'") auto
      show ?thesis
        using c v(2) e cut v'(2) by (intro exI [of _ "e @ v2'"]) (auto simp: v2' e_def prepend_eq_Some)
    qed
    consider "c = CHR ''<'' \<or> c = CHR ''>'' \<or> c = CHR ''&''"
      | b v2 where "c = CHR 0xE2 \<and> v = CHR 0x80 # b # v2 \<and> b \<in> {CHR 0xA8, CHR 0xA9}"
      | (keep) "\<not> (c = CHR ''<'' \<or> c = CHR ''>'' \<or> c = CHR ''&'')"
        "c = CHR 0xE2 \<longrightarrow> (\<forall>r. take 2 (v @ DQ # r) \<noteq> [CHR 0x80, CHR 0xA8] \<and> take 2 (v @ DQ # r) \<noteq> [CHR 0x80, CHR 0xA9])"
      using take2_quote [of v _ "CHR 0x80" "CHR 0xA8"] take2_quote [of v _ "CHR 0x80" "CHR 0xA9"] by fastforce
    then show ?thesis
    proof cases
      case keep
      then have "compact True (c # v @ DQ # r) = c # compact True (v @ DQ # r)" for r
        using plain by auto
      then show ?thesis using v(2) v' plain by (intro exI [of _ "c # v'"]) auto
    qed (use low line in blast)+
  qed
qed simp

lemma compact_ws: "list_all is_ws w \<Longrightarrow> compact False (w @ r) = compact False r"
  by (induction w) (auto simp: is_ws_def)

definition compacts :: "(string \<Rightarrow> ('a \<times> string) option) \<Rightarrow> string \<Rightarrow> string \<Rightarrow> (string \<Rightarrow> bool) \<Rightarrow> bool" where
  "compacts p s t ok \<longleftrightarrow> (\<exists>x x' v'. s = x @ t \<and> (\<forall>r. compact False (x @ r) = x' @ compact False r) \<and>
    (\<forall>y. ok y \<longrightarrow> p (x' @ y) = Some (v', y)))"

lemma compactsI:
  assumes "s = x @ t" and "\<And>r. compact False (x @ r) = x' @ compact False r" and "\<And>y. ok y \<Longrightarrow> p (x' @ y) = Some (v', y)"
  shows "compacts p s t ok"
  using assms unfolding compacts_def by blast

lemma compactsE:
  assumes "compacts p s t ok"
  obtains x x' v' where "s = x @ t" and "\<And>r. compact False (x @ r) = x' @ compact False r"
    and "\<And>y. ok y \<Longrightarrow> p (x' @ y) = Some (v', y)"
  using assms unfolding compacts_def by blast

lemma compact_key:
  assumes "scan_key s = Some (k, c # t)"
  obtains z z' k' where "s = z @ c # t" and "\<And>r. compact False (z @ r) = z' @ compact False r"
    and "\<And>b y. \<not> is_ws b \<Longrightarrow> scan_key (z' @ b # y) = Some (k', b # y)"
proof -
  from assms obtain s1 u s2 s3 where s: "s = DQ # s1" and u: "scan_string s1 = Some (u, s2)"
    and s3: "skip_ws s2 = CHR '':'' # s3" and t: "skip_ws s3 = c # t"
    by (auto simp: scan_key_def cut_prefix_Some_iff split: option.splits)
  obtain w where w: "s2 = w @ CHR '':'' # s3" "list_all is_ws w"
    using skip_ws_swap [OF s3] by blast
  obtain w' where w': "s3 = w' @ c # t" "list_all is_ws w'"
    using skip_ws_swap [OF t] by blast
  obtain u' where u': "\<And>r. compact True (u @ DQ # r) = u' @ DQ # compact False r" "\<And>y. scan_string (u' @ DQ # y) = Some (u', y)"
    using compact_string [OF u] by blast
  have str: "s1 = u @ DQ # s2" using scan_string_swap [OF u] by blast
  let ?z = "DQ # u @ DQ # w @ CHR '':'' # w'" and ?z' = "DQ # u' @ DQ # '':''"
  have "compact False (?z @ r) = ?z' @ compact False r" for r
    using u'(1) w(2) w'(2) by (simp add: compact_ws is_ws_def del: compact.simps(2)) (simp add: compact_ws is_ws_def)
  moreover have "scan_key (?z' @ b # y) = Some (unquote u', b # y)" if "\<not> is_ws b" for b y
    using u'(2) that is_ws_def [of "CHR '':''"] by (simp add: scan_key_def cut_prefix_char)
  moreover have "s = ?z @ c # t" using s str w(1) w'(1) by simp
  ultimately show ?thesis by (rule that [rotated])
qed

lemma scan_number_text:
  assumes "scan_number s = Some (l, t)"
  shows "s = l @ t"
proof -
  have d: "s = ds @ x" if "scan_digits s = Some (ds, x)" for s ds x
    using that span_digits_swap [of s] by (auto simp: scan_digits_def split: prod.splits list.splits)
  have i: "s = ds @ x" if "scan_int s = Some (ds, x)" for s ds x
    using that d by (auto simp: scan_int_def split: list.splits if_splits)
  have f: "s = ds @ x" if "scan_frac s = Some (ds, x)" for s ds x
    using that d by (auto simp: scan_frac_def prepend_eq_Some split: list.splits if_splits)
  have e: "s = ds @ x" if "scan_exp s = Some (ds, x)" for s ds x
    using that d by (auto simp: scan_exp_def prepend_eq_Some split: list.splits if_splits prod.splits)
      (use scan_sign_swap in fastforce)+
  obtain g u where g: "scan_sign ''-'' s = (g, u)" by (cases "scan_sign ''-'' s")
  with assms i f e scan_sign_swap [OF g] show ?thesis
    by (fastforce simp: scan_number_def prepend_eq_Some split: option.splits)
qed

lemma compact_number:
  assumes "scan_number s = Some (l, t)"
  shows "compact False (l @ r) = l @ compact False r"
proof -
  obtain x where x: "s = x @ t" "\<And>y. same_head y t \<Longrightarrow> scan_number (x @ y) = Some (l, y)"
    using local_scanE [OF local_scan_number assms] by blast
  with scan_number_text [OF assms] x(2) [of "[]"] have "is_number l" by (simp add: is_number_def)
  then show ?thesis by (intro compact_plain number_plain)
qed

lemma compact_keywords:
  "compact False (''true'' @ r) = ''true'' @ compact False r"
  "compact False (''false'' @ r) = ''false'' @ compact False r"
  "compact False (''null'' @ r) = ''null'' @ compact False r"
  by (rule compact_plain, simp add: plain_def is_ws_def)+

lemma compact_value:
  "parse_value f n d s = Some (v, t) \<Longrightarrow> compacts (parse_value f n d) s t delim"
  "parse_elems f n d s = Some (vs, t) \<Longrightarrow> compacts (parse_elems f n d) s t (\<lambda>_. True)"
  "parse_members f n d s = Some (kvs, t) \<Longrightarrow> compacts (parse_members f n d) s t (\<lambda>_. True)"
proof (induction f n d s and f n d s and f n d s arbitrary: v t and vs t and kvs t
    rule: parse_value_parse_elems_parse_members.induct)
  case (2 f n d s)
  from "2.prems" obtain c r where s: "s = c # r" by (cases s) (auto simp: parse_value.simps)
  consider (obj) "c = CHR ''{''" | (arr) "c = CHR ''[''" | (str) "c = DQ" | (t) "c = CHR ''t''" | (f) "c = CHR ''f''"
    | (n) "c = CHR ''n''" | (num) "c \<notin> {CHR ''{'', CHR ''['', DQ, CHR ''t'', CHR ''f'', CHR ''n''}"
    by auto
  then show ?case
  proof cases
    case obj
    then have d: "d \<noteq> 0" using "2.prems" by (auto simp: s parse_value.simps split: if_splits)
    show ?thesis
    proof (cases "cut_prefix (skip_ws r) ''}''")
      case (Some u)
      then have u: "skip_ws r = CHR ''}'' # t" using "2.prems" d obj
        by (auto simp: s parse_value.simps cut_prefix_Some_iff cut_prefix_char)
      obtain w where w: "r = w @ CHR ''}'' # t" "list_all is_ws w"
        using skip_ws_swap [OF u] by blast
      show ?thesis
        by (rule compactsI [of _ "c # w @ ''}''" _ "''{}''"])
          (use s w d obj in \<open>simp_all add: parse_value.simps cut_prefix_char compact_ws is_ws_def\<close>)
    next
      case None
      then obtain kvs where kvs: "parse_members f n (d - 1) (skip_ws r) = Some (kvs, t)"
        using "2.prems" d obj by (auto simp: s parse_value.simps)
      from "2.IH"(1) [OF s obj d None kvs] obtain x x' v' where
        x: "skip_ws r = x @ t" "\<And>r. compact False (x @ r) = x' @ compact False r"
        "\<And>y. parse_members f n (d - 1) (x' @ y) = Some (v', y)"
        by (auto elim: compactsE)
      obtain b q where b: "x' = b # q" "\<not> is_ws b" "b \<noteq> CHR ''}''"
        using parse_head [of f n "d - 1" "x' @ []"] x(3) [of "[]"] by (metis append_Nil2)
      obtain w where w: "r = w @ x @ t" "list_all is_ws w"
        using skip_ws_split [of r] x(1) by auto
      show ?thesis
        by (rule compactsI [of _ "c # w @ x" _ "CHR ''{'' # x'"])
          (use s w x b d obj in \<open>simp_all add: parse_value.simps cut_prefix_char compact_ws is_ws_def\<close>)
    qed
  next
    case arr
    then have d: "d \<noteq> 0" using "2.prems" by (auto simp: s parse_value.simps split: if_splits)
    show ?thesis
    proof (cases "cut_prefix (skip_ws r) '']''")
      case (Some u)
      then have u: "skip_ws r = CHR '']'' # t" using "2.prems" d arr
        by (auto simp: s parse_value.simps cut_prefix_Some_iff cut_prefix_char)
      obtain w where w: "r = w @ CHR '']'' # t" "list_all is_ws w"
        using skip_ws_swap [OF u] by blast
      show ?thesis
        by (rule compactsI [of _ "c # w @ '']''" _ "''[]''"])
          (use s w d arr in \<open>simp_all add: parse_value.simps cut_prefix_char compact_ws is_ws_def\<close>)
    next
      case None
      then obtain vs where vs: "parse_elems f n (d - 1) (skip_ws r) = Some (vs, t)"
        using "2.prems" d arr by (auto simp: s parse_value.simps)
      have "c \<noteq> CHR ''{''" using arr by simp
      from "2.IH"(2) [OF s this arr d None vs] obtain x x' v' where
        x: "skip_ws r = x @ t" "\<And>r. compact False (x @ r) = x' @ compact False r"
        "\<And>y. parse_elems f n (d - 1) (x' @ y) = Some (v', y)"
        by (auto elim: compactsE)
      obtain b q where b: "x' = b # q" "\<not> is_ws b" "b \<noteq> CHR '']''"
        using parse_head [of f n "d - 1" "x' @ []"] x(3) [of "[]"] by (metis append_Nil2)
      obtain w where w: "r = w @ x @ t" "list_all is_ws w"
        using skip_ws_split [of r] x(1) by auto
      show ?thesis
        by (rule compactsI [of _ "c # w @ x" _ "CHR ''['' # x'"])
          (use s w x b d arr in \<open>simp_all add: parse_value.simps cut_prefix_char compact_ws is_ws_def\<close>)
    qed
  next
    case str
    then obtain u where u: "scan_string r = Some (u, t)"
      using "2.prems" by (auto simp: s parse_value.simps)
    obtain u' where u': "\<And>r. compact True (u @ DQ # r) = u' @ DQ # compact False r" "\<And>y. scan_string (u' @ DQ # y) = Some (u', y)"
      using compact_string [OF u] by blast
    have "r = u @ DQ # t" using scan_string_swap [OF u] by blast
    then show ?thesis
      by (intro compactsI [of _ "c # u @ [DQ]" _ "DQ # u' @ [DQ]"])
        (use s u' str in \<open>simp_all add: parse_value.simps\<close>)
  next
    case t
    then have "cut_prefix s ''true'' = Some t" using "2.prems" by (auto simp: s parse_value.simps)
    then show ?thesis using keyword_value(1)
      by (intro compactsI [of _ "''true''" _ "''true''", OF _ compact_keywords(1)]) (auto simp: cut_prefix_Some_iff)
  next
    case f
    then have "cut_prefix s ''false'' = Some t" using "2.prems" by (auto simp: s parse_value.simps)
    then show ?thesis using keyword_value(2)
      by (intro compactsI [of _ "''false''" _ "''false''", OF _ compact_keywords(2)]) (auto simp: cut_prefix_Some_iff)
  next
    case n
    then have "cut_prefix s ''null'' = Some t" using "2.prems" by (auto simp: s parse_value.simps)
    then show ?thesis using keyword_value(3)
      by (intro compactsI [of _ "''null''" _ "''null''", OF _ compact_keywords(3)]) (auto simp: cut_prefix_Some_iff)
  next
    case num
    then obtain l u where l: "scan_number (c # r) = Some (l, t)" "f l = Some u"
      using "2.prems" by (auto simp: s parse_value.simps split: option.splits)
    have s': "s = l @ t" using scan_number_text [OF l(1)] s by simp
    then have "parse_value f (Suc n) d (l @ y) = Some (v, y)" if "delim y" for y
      using parse_value_swap(1) [OF "2.prems"] delim_same_head [OF that] by (auto elim: swapsE)
    with s' compact_number [OF l(1)] show ?thesis by (intro compactsI [of _ l _ l])
  qed
next
  case (4 f n d s)
  from "4.prems" obtain v r where v: "parse_value f n d s = Some (v, r)"
    by (auto simp: parse_elems.simps split: option.splits)
  with "4.prems" obtain c t1 where t1: "skip_ws r = c # t1"
    by (auto simp: parse_elems.simps split: list.splits)
  obtain w where w: "r = w @ c # t1" "list_all is_ws w"
    using skip_ws_swap [OF t1] by blast
  have nws: "\<not> is_ws c" using skip_ws_head [OF t1] .
  obtain x x' v' where x: "s = x @ w @ c # t1" "\<And>r. compact False (x @ r) = x' @ compact False r"
    "\<And>y. delim y \<Longrightarrow> parse_value f n d (x' @ y) = Some (v', y)"
    using "4.IH"(1) [OF v] w(1) by (auto elim!: compactsE)
  show ?case
  proof (cases "c = CHR '']''")
    case True
    show ?thesis
      by (rule compactsI [of _ "x @ w @ '']''" _ "x' @ '']''"])
        (use "4.prems" v t1 x w True in \<open>simp_all add: parse_elems.simps compact_ws is_ws_def delim_Cons\<close>)
  next
    case False
    then obtain vs' where c: "c = CHR '',''" and vs: "parse_elems f n d (skip_ws t1) = Some (vs', t)"
      using "4.prems" v t1 by (auto simp: parse_elems.simps split: if_splits)
    obtain z z' u' where z: "skip_ws t1 = z @ t" "\<And>r. compact False (z @ r) = z' @ compact False r"
      "\<And>y. parse_elems f n d (z' @ y) = Some (u', y)"
      using "4.IH"(2) [OF v refl t1 False c vs] by (auto elim: compactsE)
    obtain b q where b: "z' = b # q" "\<not> is_ws b"
      using parse_head [of f n d "z' @ []"] z(3) [of "[]"] by (metis append_Nil2)
    obtain w' where w': "t1 = w' @ z @ t" "list_all is_ws w'"
      using skip_ws_split [of t1] z(1) by auto
    show ?thesis
      by (rule compactsI [of _ "x @ w @ c # w' @ z" _ "x' @ c # z'"])
        (use x w z w' b c in \<open>simp_all add: parse_elems.simps compact_ws is_ws_def delim_Cons\<close>)
  qed
next
  case (6 f n d s)
  from "6.prems" obtain k s3 where k: "scan_key s = Some (k, s3)"
    by (auto simp: parse_members.simps split: option.splits)
  with "6.prems" obtain v r where v: "parse_value f n d s3 = Some (v, r)"
    by (auto simp: parse_members.simps split: option.splits)
  with k "6.prems" obtain c t1 where t1: "skip_ws r = c # t1"
    by (auto simp: parse_members.simps split: list.splits)
  obtain w where w: "r = w @ c # t1" "list_all is_ws w"
    using skip_ws_swap [OF t1] by blast
  obtain a s4 where a: "s3 = a # s4" using parse_value_start [OF v] by blast
  obtain z z' k' where z: "s = z @ s3" "\<And>r. compact False (z @ r) = z' @ compact False r"
    "\<And>b y. \<not> is_ws b \<Longrightarrow> scan_key (z' @ b # y) = Some (k', b # y)"
    using compact_key [of s k a s4] k a by metis
  obtain x x' v' where x: "s3 = x @ w @ c # t1" "\<And>r. compact False (x @ r) = x' @ compact False r"
    "\<And>y. delim y \<Longrightarrow> parse_value f n d (x' @ y) = Some (v', y)"
    using "6.IH"(1) [OF k refl v] w(1) by (auto elim!: compactsE)
  obtain a' x0 where x0: "x' = a' # x0" "\<not> is_ws a'"
    using parse_value_start [OF x(3) [OF delim_Nil]] by (metis append_Nil2)
  show ?case
  proof (cases "c = CHR ''}''")
    case True
    show ?thesis
      by (rule compactsI [of _ "z @ x @ w @ ''}''" _ "z' @ x' @ ''}''"])
        (use "6.prems" k v t1 x x0 w z True in \<open>simp_all add: parse_members.simps compact_ws is_ws_def [of "CHR ''}''"] delim_Cons\<close>)
  next
    case False
    then obtain kvs' where c: "c = CHR '',''" and kvs: "parse_members f n d (skip_ws t1) = Some (kvs', t)"
      using "6.prems" k v t1 by (auto simp: parse_members.simps split: if_splits)
    obtain q q' u' where q: "skip_ws t1 = q @ t" "\<And>r. compact False (q @ r) = q' @ compact False r"
      "\<And>y. parse_members f n d (q' @ y) = Some (u', y)"
      using "6.IH"(2) [OF k refl v refl t1 False c kvs] by (auto elim: compactsE)
    obtain b q0 where b: "q' = b # q0" "\<not> is_ws b"
      using parse_head [of f n d "q' @ []"] q(3) [of "[]"] by (metis append_Nil2)
    obtain w' where w': "t1 = w' @ q @ t" "list_all is_ws w'"
      using skip_ws_split [of t1] q(1) by auto
    show ?thesis
      by (rule compactsI [of _ "z @ x @ w @ c # w' @ q" _ "z' @ x' @ c # q'"])
        (use z x x0 w q w' b c in \<open>simp_all add: parse_members.simps compact_ws is_ws_def [of "CHR '',''"] delim_Cons\<close>)
  qed
qed (simp_all add: parse_value.simps parse_elems.simps parse_members.simps)

text \<open>So what \<^verbatim>\<open>Marshal\<close> prints for a raw message is a raw value again.\<close>

lemma raw_value_compact:
  assumes "raw_value d x"
  shows "raw_value d (compact False x)" and "\<And>r. compact False (x @ r) = compact False x @ compact False r"
proof -
  obtain n v where "parse_value Some n d x = Some (v, [])" using assms by (auto simp: raw_value_def raw_at_def)
  from compact_value(1) [OF this] obtain x' v' where x': "\<And>r. compact False (x @ r) = x' @ compact False r"
    "\<And>y. delim y \<Longrightarrow> parse_value Some n d (x' @ y) = Some (v', y)" by (auto elim: compactsE)
  have eq: "x' = compact False x" using x'(1) [of "[]"] by simp
  then show "raw_value d (compact False x)"
    using x'(2) [of "[]"] by (auto simp: raw_value_def raw_at_def)
  show "compact False (x @ r) = compact False x @ compact False r" for r
    using x'(1) eq by simp
qed

lemma raw_value_raw_text:
  assumes "raw_value d x"
  shows "raw_value d (raw_text x)"
proof -
  have "x \<noteq> []" using assms by (auto simp: raw_value_def elim: raw_at_start)
  then show ?thesis using raw_value_compact(1) [OF assms] by (simp add: raw_text_def)
qed

section \<open>Raw fields\<close>

text \<open>A \<^verbatim>\<open>RawMessage\<close> field: nil, or JSON of a bounded depth.\<close>

definition raw_field :: "nat \<Rightarrow> string \<Rightarrow> bool" where
  "raw_field d r \<longleftrightarrow> r = [] \<or> raw_value d r"

lemma raw_field_Nil [simp]: "raw_field d []"
  by (simp add: raw_field_def)

lemma raw_field_value: "raw_value d r \<Longrightarrow> raw_field d r"
  by (simp add: raw_field_def)

lemma raw_field_mono: "raw_field d r \<Longrightarrow> d \<le> d' \<Longrightarrow> raw_field d' r"
  unfolding raw_field_def using raw_value_mono by blast

lemma raw_field_ok: "raw_field d r \<Longrightarrow> d \<le> max_depth \<Longrightarrow> raw_ok r"
  unfolding raw_field_def using raw_value_ok by (auto simp: raw_ok_def)

lemma raw_field_text: "raw_field d r \<Longrightarrow> raw_value d (raw_text r)"
  using raw_value_null raw_value_raw_text [of d r] by (auto simp: raw_field_def raw_text_def)

lemma raw_value_nonempty: "raw_value d r \<Longrightarrow> r \<noteq> []"
  unfolding raw_value_def by (auto elim: raw_at_start)

lemma raw_value_int: "raw_value d (int_text w)"
  using raw_value_print [of d "JNum (int_text w)"] by (simp add: int_text_def is_number_dec_int)

text \<open>What reading makes of a field that was printed: a nil message that is printed comes back as \<^verbatim>\<open>null\<close>.\<close>

definition reread_optional :: "string \<Rightarrow> string" where
  "reread_optional r = (if r = [] then [] else raw_text r)"

end
