(* ===== verification/Audit_Event.thy ===== *)
theory Audit_Event
  imports Json_Compact
begin

text \<open>
  Audit events (\<^verbatim>\<open>internal/audit/event.go\<close>): the event, its routing key, its validation, and its JSON form
  as the publisher sends it and the writer reads it. A time is a count of nanoseconds; its RFC 3339
  text is the parameter \<open>clock\<close> (the formatting and the parsing of \<^verbatim>\<open>time.Time\<close>), and what the round
  trip relies on of it is \<open>clock_ok\<close>.
\<close>

section \<open>Constants\<close>

definition OutcomeAllowed :: string where "OutcomeAllowed = ''allowed''"
definition OutcomeDenied :: string where "OutcomeDenied = ''denied''"
definition OutcomeRateLimited :: string where "OutcomeRateLimited = ''rate_limited''"
definition OutcomeError :: string where "OutcomeError = ''error''"

lemmas outcome_defs = OutcomeAllowed_def OutcomeDenied_def OutcomeRateLimited_def OutcomeError_def

definition ExchangeAudit :: string where "ExchangeAudit = ''mcp_gate.audit''"
definition ExchangeDLX :: string where "ExchangeDLX = ''mcp_gate.audit.dlx''"
definition QueuePersist :: string where "QueuePersist = ''mcp_gate.audit.persist''"
definition QueueAlerting :: string where "QueueAlerting = ''mcp_gate.audit.alerting''"
definition QueueDLQ :: string where "QueueDLQ = ''mcp_gate.audit.dlq''"

definition RoutingKeyAllowed :: string where "RoutingKeyAllowed = ''audit.allowed''"
definition RoutingKeyDenied :: string where "RoutingKeyDenied = ''audit.denied''"
definition RoutingKeyRateLimited :: string where "RoutingKeyRateLimited = ''audit.rate_limited''"
definition RoutingKeyError :: string where "RoutingKeyError = ''audit.error''"
definition RoutingKeyAll :: string where "RoutingKeyAll = ''audit.*''"

definition RoutingKey :: "string \<Rightarrow> string" where
  "RoutingKey outcome =
    (if outcome = OutcomeAllowed then RoutingKeyAllowed
     else if outcome = OutcomeDenied then RoutingKeyDenied
     else if outcome = OutcomeRateLimited then RoutingKeyRateLimited
     else if outcome = OutcomeError then RoutingKeyError
     else ''audit.'' @ outcome)"

lemma RoutingKey_eq: "RoutingKey outcome = ''audit.'' @ outcome"
  by (simp add: RoutingKey_def outcome_defs RoutingKeyAllowed_def RoutingKeyDenied_def
      RoutingKeyRateLimited_def RoutingKeyError_def)

section \<open>Events\<close>

record Event =
  event_ID :: string
  event_UserID :: string
  event_ServerID :: string
  event_Tool :: string
  event_Params :: string
  event_Outcome :: string
  event_Summary :: string
  event_Latency :: "32 word option"
  event_At :: int

text \<open>The fresh id (\<^verbatim>\<open>uuid.New\<close>) and the time are arguments.\<close>

definition NewEvent ::
  "string \<Rightarrow> int \<Rightarrow> string \<Rightarrow> string \<Rightarrow> string \<Rightarrow> string \<Rightarrow> string \<Rightarrow> string \<Rightarrow> 32 word option \<Rightarrow> Event" where
  "NewEvent fresh now userID serverID toolName outcome inputParams responseSummary latencyMs =
    \<lparr>event_ID = fresh, event_UserID = userID, event_ServerID = serverID, event_Tool = toolName,
     event_Params = inputParams, event_Outcome = outcome, event_Summary = responseSummary,
     event_Latency = latencyMs, event_At = now\<rparr>"

datatype event_error = NoID | NoUser | NoServer | NoTool | BadOutcome string

definition Validate_event :: "Event \<Rightarrow> event_error option" where
  "Validate_event e =
    (if event_ID e = [] then Some NoID
     else if event_UserID e = [] then Some NoUser
     else if event_ServerID e = [] then Some NoServer
     else if event_Tool e = [] then Some NoTool
     else if event_Outcome e \<in> {OutcomeAllowed, OutcomeDenied, OutcomeRateLimited, OutcomeError} then None
     else Some (BadOutcome (event_Outcome e)))"

section \<open>The JSON form\<close>

record clock =
  time_text :: "int \<Rightarrow> string option"
  time_parse :: "string \<Rightarrow> int option"

text \<open>The zero \<^verbatim>\<open>time.Time\<close>, January 1 of year 1.\<close>

definition zero_time :: int where
  "zero_time = - 62135596800 * 1000000000"

text \<open>\<^verbatim>\<open>Marshal\<close> of an event: \<open>None\<close> when a raw message is not JSON or the time has no text.\<close>

definition event_text :: "clock \<Rightarrow> Event \<Rightarrow> string option" where
  "event_text clk e =
    (if \<not> (raw_ok (event_Params e) \<and> raw_ok (event_Summary e)) then None
     else map_option (\<lambda>at. object_text
       ([(''id'', quote (event_ID e)), (''user_id'', quote (event_UserID e)),
         (''downstream_server_id'', quote (event_ServerID e)), (''tool_name'', quote (event_Tool e))]
        @ optional (event_Params e \<noteq> []) ''input_params_redacted'' (raw_text (event_Params e))
        @ [(''outcome'', quote (event_Outcome e))]
        @ optional (event_Summary e \<noteq> []) ''response_summary'' (raw_text (event_Summary e))
        @ (case event_Latency e of None \<Rightarrow> [] | Some l \<Rightarrow> [(''latency_ms'', int_text l)])
        @ [(''occurred_at'', DQ # at @ [DQ])])) (time_text clk (event_At e)))"

definition dec_time :: "clock \<Rightarrow> int decoder" where
  "dec_time clk s old =
    (if is_null s then Some old
     else case cut_prefix s [DQ] of None \<Rightarrow> None | Some r \<Rightarrow> time_parse clk (butlast r))"

definition event_field :: "clock \<Rightarrow> string \<Rightarrow> string \<Rightarrow> Event \<Rightarrow> Event option" where
  "event_field clk k raw x =
    (if k = ''ID'' then map_option (\<lambda>v. x\<lparr>event_ID := v\<rparr>) (dec_string raw (event_ID x))
     else if k = ''USER_ID'' then map_option (\<lambda>v. x\<lparr>event_UserID := v\<rparr>) (dec_string raw (event_UserID x))
     else if k = ''DOWNSTREAM_SERVER_ID'' then
       map_option (\<lambda>v. x\<lparr>event_ServerID := v\<rparr>) (dec_string raw (event_ServerID x))
     else if k = ''TOOL_NAME'' then map_option (\<lambda>v. x\<lparr>event_Tool := v\<rparr>) (dec_string raw (event_Tool x))
     else if k = ''INPUT_PARAMS_REDACTED'' then
       map_option (\<lambda>v. x\<lparr>event_Params := v\<rparr>) (dec_raw raw (event_Params x))
     else if k = ''OUTCOME'' then map_option (\<lambda>v. x\<lparr>event_Outcome := v\<rparr>) (dec_string raw (event_Outcome x))
     else if k = ''RESPONSE_SUMMARY'' then
       map_option (\<lambda>v. x\<lparr>event_Summary := v\<rparr>) (dec_raw raw (event_Summary x))
     else if k = ''LATENCY_MS'' then
       map_option (\<lambda>v. x\<lparr>event_Latency := v\<rparr>) (dec_ptr dec_word 0 raw (event_Latency x))
     else if k = ''OCCURRED_AT'' then map_option (\<lambda>v. x\<lparr>event_At := v\<rparr>) (dec_time clk raw (event_At x))
     else Some x)"

definition zero_Event :: Event where
  "zero_Event = \<lparr>event_ID = [], event_UserID = [], event_ServerID = [], event_Tool = [], event_Params = [],
    event_Outcome = [], event_Summary = [], event_Latency = None, event_At = zero_time\<rparr>"

definition read_event :: "clock \<Rightarrow> string \<Rightarrow> Event option" where
  "read_event clk body = unmarshal (dec_struct (event_field clk)) zero_Event body"

section \<open>The round trip\<close>

text \<open>
  Documented behaviour of \<^verbatim>\<open>time.Time\<close>: its JSON text is printable ASCII without quotes or backslashes,
  and parsing it gives the time back.
\<close>

definition clock_ok :: "clock \<Rightarrow> bool" where
  "clock_ok clk \<longleftrightarrow> (\<forall>t s. time_text clk t = Some s \<longrightarrow>
    time_parse clk s = Some t \<and> utf8_ok s \<and> escape s = s)"

text \<open>The event with JSON in its raw messages, and what reading makes of it when it was printed.\<close>

definition event_typed :: "Event \<Rightarrow> bool" where
  "event_typed e \<longleftrightarrow> raw_field (max_depth - 1) (event_Params e) \<and> raw_field (max_depth - 1) (event_Summary e)"

definition reread_event :: "Event \<Rightarrow> Event" where
  "reread_event e = \<lparr>event_ID = utf8_fix (event_ID e), event_UserID = utf8_fix (event_UserID e),
    event_ServerID = utf8_fix (event_ServerID e), event_Tool = utf8_fix (event_Tool e),
    event_Params = reread_optional (event_Params e), event_Outcome = utf8_fix (event_Outcome e),
    event_Summary = reread_optional (event_Summary e), event_Latency = event_Latency e, event_At = event_At e\<rparr>"

lemma folded_event_keys:
  "fold_name ''id'' = ''ID''" "fold_name ''user_id'' = ''USER_ID''"
  "fold_name ''downstream_server_id'' = ''DOWNSTREAM_SERVER_ID''" "fold_name ''tool_name'' = ''TOOL_NAME''"
  "fold_name ''input_params_redacted'' = ''INPUT_PARAMS_REDACTED''" "fold_name ''outcome'' = ''OUTCOME''"
  "fold_name ''response_summary'' = ''RESPONSE_SUMMARY''" "fold_name ''latency_ms'' = ''LATENCY_MS''"
  "fold_name ''occurred_at'' = ''OCCURRED_AT''"
  by code_simp+

lemma event_keys: "list_all utf8_ok [''id'', ''user_id'', ''downstream_server_id'', ''tool_name'', ''input_params_redacted'',
    ''outcome'', ''response_summary'', ''latency_ms'', ''occurred_at'']"
  by code_simp

lemma event_field_values:
  "event_field clk ''ID'' raw x = map_option (\<lambda>v. x\<lparr>event_ID := v\<rparr>) (dec_string raw (event_ID x))"
  "event_field clk ''USER_ID'' raw x = map_option (\<lambda>v. x\<lparr>event_UserID := v\<rparr>) (dec_string raw (event_UserID x))"
  "event_field clk ''DOWNSTREAM_SERVER_ID'' raw x =
    map_option (\<lambda>v. x\<lparr>event_ServerID := v\<rparr>) (dec_string raw (event_ServerID x))"
  "event_field clk ''TOOL_NAME'' raw x = map_option (\<lambda>v. x\<lparr>event_Tool := v\<rparr>) (dec_string raw (event_Tool x))"
  "event_field clk ''INPUT_PARAMS_REDACTED'' raw x = Some (x\<lparr>event_Params := raw\<rparr>)"
  "event_field clk ''OUTCOME'' raw x = map_option (\<lambda>v. x\<lparr>event_Outcome := v\<rparr>) (dec_string raw (event_Outcome x))"
  "event_field clk ''RESPONSE_SUMMARY'' raw x = Some (x\<lparr>event_Summary := raw\<rparr>)"
  "event_field clk ''LATENCY_MS'' raw x =
    map_option (\<lambda>v. x\<lparr>event_Latency := v\<rparr>) (dec_ptr dec_word 0 raw (event_Latency x))"
  "event_field clk ''OCCURRED_AT'' raw x = map_option (\<lambda>v. x\<lparr>event_At := v\<rparr>) (dec_time clk raw (event_At x))"
  by (simp_all add: event_field_def dec_raw_def)

lemma quote_plain: "escape s = s \<Longrightarrow> DQ # s @ [DQ] = quote s"
  by (simp add: quote_def)

lemma dec_time_quote:
  assumes "clock_ok clk" and "time_text clk t = Some s"
  shows "dec_time clk (quote s) old = Some t"
proof -
  have "escape s = s" "time_parse clk s = Some t" using assms by (auto simp: clock_ok_def)
  then show ?thesis using cut_prefix_append [of "[DQ]" "s @ [DQ]"]
    by (simp add: dec_time_def is_null_def quote_def)
qed

lemma dec_ptr_int_text [simp]: "dec_ptr dec_word 0 (int_text w) None = Some (Some w)"
  using int_text_not_null [of w] by (simp add: dec_ptr_def is_null_def)

lemma event_text_typed:
  assumes "event_typed e" and "time_text clk (event_At e) = Some at"
  shows "event_text clk e \<noteq> None"
  using assms by (auto simp: event_text_def event_typed_def intro: raw_field_ok)

lemma event_read:
  assumes "clock_ok clk" and "event_typed e" and "event_text clk e = Some body"
  shows "read_event clk body = Some (reread_event e)"
proof -
  obtain at where at: "time_text clk (event_At e) = Some at"
    using assms(3) by (auto simp: event_text_def split: if_splits)
  then have esc: "escape at = at" using assms(1) by (auto simp: clock_ok_def)
  let ?ms = "[(''id'', quote (event_ID e)), (''user_id'', quote (event_UserID e)),
         (''downstream_server_id'', quote (event_ServerID e)), (''tool_name'', quote (event_Tool e))]
        @ optional (event_Params e \<noteq> []) ''input_params_redacted'' (raw_text (event_Params e))
        @ [(''outcome'', quote (event_Outcome e))]
        @ optional (event_Summary e \<noteq> []) ''response_summary'' (raw_text (event_Summary e))
        @ (case event_Latency e of None \<Rightarrow> [] | Some l \<Rightarrow> [(''latency_ms'', int_text l)])
        @ [(''occurred_at'', quote at)]"
  have raw: "\<forall>m \<in> set ?ms. member_raw m"
    using assms(2) event_keys
    by (auto simp: member_raw_def event_typed_def raw_value_quote raw_value_int raw_field_text optional_def
        simp del: utf8_ok.simps split: option.splits)
  have body: "body = object_text ?ms"
    using assms(3) at quote_plain [OF esc] by (auto simp: event_text_def split: if_splits)
  have "set_fields (event_field clk) ?ms zero_Event = Some (reread_event e)"
    using dec_time_quote [OF assms(1) at]
    by (cases "event_Params e = []"; cases "event_Summary e = []"; cases "event_Latency e")
      (simp_all add: set_fields_Cons folded_event_keys event_field_values optional_def zero_Event_def dec_string_fix
        reread_event_def reread_optional_def del: fold_name.simps)
  then show ?thesis
    unfolding read_event_def body using unmarshal_raw_object [OF raw, of "event_field clk" zero_Event] by metis
qed

text \<open>Reading an event again does not change its validity.\<close>

lemma utf8_fix_empty: "utf8_fix s = [] \<longleftrightarrow> s = []"
  by (cases s) (auto simp: replacement_def)

lemma valid_reread: "Validate_event e = None \<Longrightarrow> Validate_event (reread_event e) = None"
proof -
  have "utf8_fix OutcomeAllowed = OutcomeAllowed" "utf8_fix OutcomeDenied = OutcomeDenied"
    "utf8_fix OutcomeRateLimited = OutcomeRateLimited" "utf8_fix OutcomeError = OutcomeError"
    unfolding outcome_defs by code_simp+
  then show "Validate_event e = None \<Longrightarrow> Validate_event (reread_event e) = None"
    by (auto simp: Validate_event_def reread_event_def utf8_fix_empty split: if_splits)
qed

text \<open>For an event of well-formed texts, whose raw messages were printed from documents, nothing changes at all.\<close>

definition printed_raw :: "string \<Rightarrow> bool" where
  "printed_raw r \<longleftrightarrow> r = [] \<or> (\<exists>v. json_ok Some (max_depth - 1) v \<and> r = json_print v)"

definition event_ok :: "Event \<Rightarrow> bool" where
  "event_ok e \<longleftrightarrow> utf8_ok (event_ID e) \<and> utf8_ok (event_UserID e) \<and> utf8_ok (event_ServerID e) \<and>
    utf8_ok (event_Tool e) \<and> utf8_ok (event_Outcome e) \<and> printed_raw (event_Params e) \<and> printed_raw (event_Summary e)"

lemma printed_raw_field: "printed_raw r \<Longrightarrow> raw_field (max_depth - 1) r \<and> reread_optional r = r"
  unfolding printed_raw_def raw_field_def reread_optional_def
  using raw_value_print compact_printed by (auto simp: raw_text_def)

lemma event_roundtrip:
  assumes "clock_ok clk" and "event_ok e" and "event_text clk e = Some body"
  shows "read_event clk body = Some e"
proof -
  have "event_typed e" "reread_event e = e"
    using assms(2) printed_raw_field [of "event_Params e"] printed_raw_field [of "event_Summary e"]
    by (simp_all add: event_ok_def event_typed_def reread_event_def utf8_fix_id)
  with event_read [OF assms(1) _ assms(3)] show ?thesis by simp
qed

end
