(* ===== verification/Audit_Publisher.thy ===== *)
theory Audit_Publisher
  imports Audit_Event
begin

text \<open>
  The publishers of \<^verbatim>\<open>internal/audit/publisher.go\<close>. The interface \<^verbatim>\<open>Publisher\<close> is the locale \<open>publisher\<close>, with
  the three implementations of the file as interpretations. \<open>RabbitMQPublisher\<close> is also a state machine
  (\<open>rb_step\<close>), because \<open>Publish\<close>, the worker and \<open>Close\<close> run concurrently: \<open>Publish\<close> looks at the closed flag
  under a lock, but puts the event into the channel after it has released the lock.

  The AMQP broker is a parameter: a function from a call and the state of the broker to its success and
  the next state.
\<close>

section \<open>The broker\<close>

datatype amqp_call =
    Dial
  | OpenChannel
  | ExchangeDeclare string
  | QueueDeclare string "string option"
  | QueueBind string string string
  | Qos nat
  | Consume string string
  | CloseChannel
  | CloseConn

type_synonym 'b broker = "amqp_call \<Rightarrow> 'b \<Rightarrow> bool \<times> 'b"

text \<open>The calls of a setup, in order; when one fails, the channel and the connection are closed.\<close>

fun run_setup :: "'b broker \<Rightarrow> amqp_call list \<Rightarrow> 'b \<Rightarrow> amqp_call option \<times> 'b" where
  "run_setup br [] b = (None, b)"
| "run_setup br (c # cs) b =
    (case br c b of (ok, b') \<Rightarrow>
      if ok then run_setup br cs b' else (Some c, snd (br CloseConn (snd (br CloseChannel b')))))"

definition connect :: "'b broker \<Rightarrow> amqp_call list \<Rightarrow> 'b \<Rightarrow> amqp_call option \<times> 'b" where
  "connect br cs b =
    (case br Dial b of (ok, b1) \<Rightarrow>
      if \<not> ok then (Some Dial, b1)
      else case br OpenChannel b1 of (ok, b2) \<Rightarrow>
        if \<not> ok then (Some OpenChannel, snd (br CloseConn b2)) else run_setup br cs b2)"

section \<open>The publisher interface\<close>

datatype publish_error = PublisherClosed | BufferFull

text \<open>\<open>recorded\<close> is a ghost: the events that the publisher has taken over.\<close>

locale publisher =
  fixes publish :: "Event \<Rightarrow> 'p \<Rightarrow> publish_error option \<times> 'p"
    and close :: "'p \<Rightarrow> 'p"
    and recorded :: "'p \<Rightarrow> Event list"
  assumes published: "publish e p = (None, p') \<Longrightarrow> recorded p' = recorded p @ [e] \<or> recorded p' = recorded p"
    and rejected: "publish e p = (Some err, p') \<Longrightarrow> recorded p' = recorded p"
    and closed: "recorded (close p) = recorded p"
begin

lemma at_most_once: "\<exists>es. recorded (snd (publish e p)) = recorded p @ es \<and> (es = [] \<or> es = [e])"
  using published rejected by (cases "publish e p"; cases "fst (publish e p)") fastforce+

end

section \<open>RabbitMQPublisher\<close>

record rabbit =
  rb_queue :: "Event list"
  rb_cap :: nat
  rb_done :: bool
  rb_stopped :: bool
  rb_sent :: "Event list"
  rb_checked :: "Event list"
  rb_accepted :: "Event list"
  rb_late :: "Event list"

text \<open>
  \<open>rb_queue\<close> is the buffered channel, \<open>rb_done\<close> the closed flag, \<open>rb_stopped\<close> says that the worker has
  returned, \<open>rb_sent\<close> lists the events given to \<open>send\<close>. Ghosts: \<open>rb_checked\<close>, the \<open>Publish\<close> calls that have
  passed the check of the flag and not yet touched the channel; \<open>rb_accepted\<close>, the events for which
  \<open>Publish\<close> returned nil; \<open>rb_late\<close>, those of them that were put into the channel after the worker returned.
\<close>

definition new_rabbit :: "int \<Rightarrow> rabbit" where
  "new_rabbit bufferSize = \<lparr>rb_queue = [], rb_cap = (if bufferSize \<le> 0 then 2048 else nat bufferSize),
    rb_done = False, rb_stopped = False, rb_sent = [], rb_checked = [], rb_accepted = [], rb_late = []\<rparr>"

definition NewRabbitMQPublisher :: "'b broker \<Rightarrow> int \<Rightarrow> 'b \<Rightarrow> (amqp_call + rabbit) \<times> 'b" where
  "NewRabbitMQPublisher br bufferSize b =
    (case connect br [ExchangeDeclare ExchangeAudit] b of
      (Some c, b') \<Rightarrow> (Inl c, b')
    | (None, b') \<Rightarrow> (Inr (new_rabbit bufferSize), b'))"

text \<open>The non-blocking send to the channel.\<close>

definition enqueue :: "Event \<Rightarrow> rabbit \<Rightarrow> publish_error option \<times> rabbit" where
  "enqueue e p =
    (if length (rb_queue p) < rb_cap p
     then (None, p\<lparr>rb_queue := rb_queue p @ [e], rb_accepted := rb_accepted p @ [e],
        rb_late := (if rb_stopped p then rb_late p @ [e] else rb_late p)\<rparr>)
     else (Some BufferFull, p))"

definition Publish :: "Event \<Rightarrow> rabbit \<Rightarrow> publish_error option \<times> rabbit" where
  "Publish e p = (if rb_done p then (Some PublisherClosed, p) else enqueue e p)"

text \<open>What \<open>send\<close> gives to the channel: exchange, routing key, message id and body.\<close>

definition send_message :: "clock \<Rightarrow> Event \<Rightarrow> (string \<times> string \<times> string \<times> string) option" where
  "send_message clk e =
    map_option (\<lambda>data. (ExchangeAudit, RoutingKey (event_Outcome e), event_ID e, data)) (event_text clk e)"

text \<open>One event from the channel to \<open>send\<close>; the draining loop after \<open>Close\<close> does the same.\<close>

definition worker_take :: "rabbit \<Rightarrow> rabbit option" where
  "worker_take p =
    (if rb_stopped p then None
     else case rb_queue p of [] \<Rightarrow> None
     | e # q \<Rightarrow> Some (p\<lparr>rb_queue := q, rb_sent := rb_sent p @ [e]\<rparr>))"

definition worker_return :: "rabbit \<Rightarrow> rabbit option" where
  "worker_return p =
    (if \<not> rb_stopped p \<and> rb_done p \<and> rb_queue p = [] then Some (p\<lparr>rb_stopped := True\<rparr>) else None)"

text \<open>
  The part of \<open>Close\<close> before it waits for the worker, and the part after: the channel and the connection
  are closed, and the first error is returned.
\<close>

definition Close_begin :: "rabbit \<Rightarrow> rabbit" where
  "Close_begin p = p\<lparr>rb_done := True\<rparr>"

definition Close_finish :: "'b broker \<Rightarrow> 'b \<Rightarrow> amqp_call option \<times> 'b" where
  "Close_finish br b =
    (case br CloseChannel b of (ch_ok, b1) \<Rightarrow>
     (case br CloseConn b1 of (conn_ok, b2) \<Rightarrow>
      (if \<not> ch_ok then Some CloseChannel else if \<not> conn_ok then Some CloseConn else None, b2)))"

inductive rb_step :: "rabbit \<Rightarrow> rabbit \<Rightarrow> bool" where
  check: "\<not> rb_done p \<Longrightarrow> rb_step p (p\<lparr>rb_checked := rb_checked p @ [e]\<rparr>)"
| put: "rb_checked p = xs @ e # ys \<Longrightarrow> enqueue e (p\<lparr>rb_checked := xs @ ys\<rparr>) = (r, p') \<Longrightarrow> rb_step p p'"
| take_one: "worker_take p = Some p' \<Longrightarrow> rb_step p p'"
| return: "worker_return p = Some p' \<Longrightarrow> rb_step p p'"
| close: "\<not> rb_done p \<Longrightarrow> rb_step p (Close_begin p)"

inductive_cases rb_stepE [elim]: "rb_step p p'"

inductive rb_reachable :: "int \<Rightarrow> rabbit \<Rightarrow> bool" for n where
  start: "rb_reachable n (new_rabbit n)"
| step: "rb_reachable n p \<Longrightarrow> rb_step p p' \<Longrightarrow> rb_reachable n p'"

definition rb_inv :: "int \<Rightarrow> rabbit \<Rightarrow> bool" where
  "rb_inv n p \<longleftrightarrow> rb_accepted p = rb_sent p @ rb_queue p \<and> length (rb_queue p) \<le> rb_cap p \<and>
    rb_cap p = rb_cap (new_rabbit n) \<and>
    (if rb_stopped p then rb_done p \<and> rb_queue p = rb_late p else rb_late p = [])"

lemma rb_inv_step: "rb_step p p' \<Longrightarrow> rb_inv n p \<Longrightarrow> rb_inv n p'"
  by (induction rule: rb_step.induct)
    (auto simp: rb_inv_def enqueue_def worker_take_def worker_return_def Close_begin_def
      split: if_splits list.splits)

lemma rb_inv_reachable: "rb_reachable n p \<Longrightarrow> rb_inv n p"
proof (induction rule: rb_reachable.induct)
  case start
  show ?case by (simp add: rb_inv_def new_rabbit_def)
qed (rule rb_inv_step)

lemma stopped_stays: "rb_step p p' \<Longrightarrow> rb_stopped p \<Longrightarrow> rb_stopped p' \<and> rb_sent p' = rb_sent p"
  by (induction rule: rb_step.induct)
    (auto simp: enqueue_def worker_take_def worker_return_def Close_begin_def split: if_splits list.splits)

section \<open>Shutting down\<close>

text \<open>What is left to do once the closed flag is set: a \<open>Publish\<close> call that has passed the check may put its event,
  the worker may take it, and then return.\<close>

definition rb_work :: "rabbit \<Rightarrow> nat" where
  "rb_work p = 2 * length (rb_checked p) + length (rb_queue p) + (if rb_stopped p then 0 else 1)"

lemma closed_stays: "rb_step p p' \<Longrightarrow> rb_done p \<Longrightarrow> rb_done p'"
  by (induction rule: rb_step.induct)
    (auto simp: enqueue_def worker_take_def worker_return_def Close_begin_def split: if_splits list.splits)

lemma closed_work: "rb_step p p' \<Longrightarrow> rb_done p \<Longrightarrow> rb_work p' < rb_work p"
  by (induction rule: rb_step.induct)
    (auto simp: rb_work_def enqueue_def worker_take_def worker_return_def split: if_splits list.splits)

lemma closed_steps: "(rb_step ^^ k) p p' \<Longrightarrow> rb_done p \<Longrightarrow> rb_done p' \<and> k + rb_work p' \<le> rb_work p"
proof (induction k arbitrary: p')
  case (Suc k)
  then obtain q where q: "(rb_step ^^ k) p q" and step: "rb_step q p'" by auto
  from Suc.IH [OF q] Suc.prems(2) have "rb_done q" "k + rb_work q \<le> rb_work p" by simp_all
  with closed_stays [OF step] closed_work [OF step] show ?case by simp
qed simp

lemma closed_no_step:
  assumes "rb_done p" and "\<And>p'. \<not> rb_step p p'"
  shows "rb_stopped p \<and> rb_checked p = []"
proof
  show checked: "rb_checked p = []"
  proof (cases "rb_checked p")
    case (Cons e ys)
    obtain r p' where "enqueue e (p\<lparr>rb_checked := ys\<rparr>) = (r, p')" by fastforce
    with Cons assms(2) rb_step.put [of p "[]" e ys] show ?thesis by auto
  qed simp
  show "rb_stopped p"
  proof (rule ccontr)
    assume running: "\<not> rb_stopped p"
    then have "worker_take p \<noteq> None \<or> worker_return p \<noteq> None"
      using assms(1) by (cases "rb_queue p") (simp_all add: worker_take_def worker_return_def)
    with assms(2) rb_step.take_one rb_step.return show False by blast
  qed
qed

lemma closed_quiet_step:
  assumes "rb_step p p'" and "rb_done p" and "rb_checked p = []"
  shows "rb_checked p' = [] \<and> rb_accepted p' = rb_accepted p \<and> rb_late p' = rb_late p"
  using assms
  by (induction rule: rb_step.induct)
    (auto simp: enqueue_def worker_take_def worker_return_def split: if_splits list.splits)

lemma closed_quiet:
  assumes "(rb_step ^^ k) p p'" and "rb_done p" and "rb_checked p = []"
  shows "rb_checked p' = [] \<and> rb_accepted p' = rb_accepted p \<and> rb_late p' = rb_late p"
  using assms
proof (induction k arbitrary: p')
  case (Suc k)
  then obtain q where q: "(rb_step ^^ k) p q" and step: "rb_step q p'" by auto
  with Suc closed_steps [OF q] closed_quiet_step [OF step] show ?case by simp
qed simp

lemma rb_reachable_steps: "(rb_step ^^ k) p p' \<Longrightarrow> rb_reachable n p \<Longrightarrow> rb_reachable n p'"
  by (induction k arbitrary: p') (auto intro: rb_reachable.step)

interpretation rabbit: publisher Publish Close_begin rb_accepted
  by unfold_locales (auto simp: Publish_def enqueue_def Close_begin_def split: if_splits)

section \<open>MemoryPublisher and NopPublisher\<close>

definition NewMemoryPublisher :: "Event list" where
  "NewMemoryPublisher = []"

definition Memory_Publish :: "Event \<Rightarrow> Event list \<Rightarrow> publish_error option \<times> Event list" where
  "Memory_Publish e m = (None, m @ [e])"

definition Memory_Events :: "Event list \<Rightarrow> Event list" where
  "Memory_Events m = m"

definition Memory_Reset :: "Event list \<Rightarrow> Event list" where
  "Memory_Reset m = take 0 m"

text \<open>Both \<open>Close\<close> methods return no error and change nothing.\<close>

definition Memory_Close :: "Event list \<Rightarrow> amqp_call option \<times> Event list" where
  "Memory_Close m = (None, m)"

definition Nop_Close :: "unit \<Rightarrow> amqp_call option \<times> unit" where
  "Nop_Close u = (None, u)"

definition Nop_Publish :: "Event \<Rightarrow> unit \<Rightarrow> publish_error option \<times> unit" where
  "Nop_Publish e u = (None, u)"

interpretation mem_pub: publisher Memory_Publish "\<lambda>m. snd (Memory_Close m)" Memory_Events
  by unfold_locales (auto simp: Memory_Publish_def Memory_Events_def Memory_Close_def)

interpretation nop_pub: publisher Nop_Publish "\<lambda>u. snd (Nop_Close u)" "\<lambda>_. []"
  by unfold_locales (auto simp: Nop_Publish_def)

section \<open>Properties\<close>

text \<open>C19: the publisher loses nothing that it accepted while its worker runs. In every interleaving of
  \<open>Publish\<close>, the worker and \<open>Close\<close>, the accepted events are those sent followed by those in the buffer, in order;
  the buffer never exceeds its capacity; and once the worker has returned, every event it was handed before is sent,
  and only events that were put into the buffer later remain.\<close>

theorem publisher_keeps_accepted_events:
  assumes "rb_reachable n p"
  shows "rb_accepted p = rb_sent p @ rb_queue p \<and> length (rb_queue p) \<le> rb_cap p \<and>
    rb_cap p = (if n \<le> 0 then 2048 else nat n) \<and>
    (rb_stopped p \<longrightarrow> rb_done p \<and> rb_accepted p = rb_sent p @ rb_late p)"
  using rb_inv_reachable [OF assms] by (auto simp: rb_inv_def new_rabbit_def)

definition demo_event :: Event where
  "demo_event = NewEvent ''id'' 0 ''u'' ''s'' ''t'' OutcomeAllowed [] [] None"

text \<open>The interleaving of the witness and of the next property: \<open>Publish\<close> passes the check, \<open>Close\<close> sets the flag, the
  worker drains the empty buffer and returns, and only then the event is put into the buffer.\<close>

definition raced :: rabbit where
  "raced = \<lparr>rb_queue = [demo_event], rb_cap = 1, rb_done = True, rb_stopped = True, rb_sent = [], rb_checked = [],
    rb_accepted = [demo_event], rb_late = [demo_event]\<rparr>"

lemma raced_reachable: "rb_reachable 1 raced"
proof -
  let ?p0 = "new_rabbit 1"
  let ?p1 = "?p0\<lparr>rb_checked := [demo_event]\<rparr>"
  let ?p2 = "?p1\<lparr>rb_done := True\<rparr>"
  let ?p3 = "?p2\<lparr>rb_stopped := True\<rparr>"
  have 1: "rb_step ?p0 ?p1" using rb_step.check [of ?p0 demo_event] by (simp add: new_rabbit_def)
  have 2: "rb_step ?p1 ?p2" using rb_step.close [of ?p1] by (simp add: new_rabbit_def Close_begin_def)
  have 3: "rb_step ?p2 ?p3" by (rule rb_step.return) (simp add: worker_return_def new_rabbit_def)
  have 4: "rb_step ?p3 raced"
    by (rule rb_step.put [where xs = "[]" and ys = "[]" and e = demo_event and r = None])
      (simp_all add: enqueue_def new_rabbit_def raced_def)
  show ?thesis
    by (rule rb_reachable.step [OF rb_reachable.step [OF rb_reachable.step [OF rb_reachable.step [OF
            rb_reachable.start 1] 2] 3] 4])
qed

theorem publisher_keeps_accepted_events_witness:
  "rb_accepted raced = rb_sent raced @ rb_late raced \<and> length (rb_queue raced) \<le> 1"
  using publisher_keeps_accepted_events [OF raced_reachable] by (simp add: raced_def)

definition later :: "rabbit \<Rightarrow> rabbit \<Rightarrow> bool" where
  "later p p' \<longleftrightarrow> rb_step\<^sup>*\<^sup>* p p'"

text \<open>Closing races with publishing. There is an interleaving in which \<open>Publish\<close> returns nil for an event
  after the worker has returned: the event stays in the buffer, and in no later state is it sent.\<close>

theorem accepted_event_can_be_lost:
  "\<exists>p e. rb_reachable 1 p \<and> e \<in> set (rb_accepted p) \<and> (\<forall>p'. later p p' \<longrightarrow> e \<notin> set (rb_sent p'))"
proof -
  have "rb_stopped p' \<and> rb_sent p' = []" if "rb_step\<^sup>*\<^sup>* raced p'" for p'
    using that
  proof (induction rule: rtranclp_induct)
    case base
    show ?case by (simp add: raced_def)
  next
    case (step p p')
    then show ?case using stopped_stays [of p p'] by simp
  qed
  then have "\<forall>p'. later raced p' \<longrightarrow> demo_event \<notin> set (rb_sent p')" by (auto simp: later_def)
  moreover have "demo_event \<in> set (rb_accepted raced)" by (simp add: raced_def)
  ultimately show ?thesis using raced_reachable by blast
qed

theorem accepted_event_can_be_lost_witness:
  "\<exists>p. rb_reachable 1 p \<and> rb_accepted p \<noteq> []"
  using accepted_event_can_be_lost by fastforce

text \<open>C21: \<open>Close\<close> returns. Once the closed flag is set, every run of the publisher is finite: it has at most
  two steps for each \<open>Publish\<close> call still under way, one for each buffered event and one for the return of the
  worker. A run that cannot go on has stopped the worker, with no call under way; and if no call was under way when
  the flag was set and the worker was still running, everything that was ever accepted has then been sent.\<close>

theorem close_terminates:
  assumes "rb_reachable n p" and "rb_done p" and "(rb_step ^^ k) p p'"
  shows "k \<le> 2 * length (rb_checked p) + length (rb_queue p) + (if rb_stopped p then 0 else 1) \<and>
    ((\<nexists>q. rb_step p' q) \<longrightarrow>
      rb_stopped p' \<and> rb_checked p' = [] \<and>
      (rb_checked p = [] \<and> \<not> rb_stopped p \<longrightarrow> rb_sent p' = rb_accepted p))"
proof -
  have work: "rb_done p' \<and> k + rb_work p' \<le> rb_work p" by (rule closed_steps [OF assms(3,2)])
  have "rb_sent p' = rb_accepted p"
    if "rb_stopped p'" "rb_checked p = []" "\<not> rb_stopped p"
    using rb_inv_reachable [OF rb_reachable_steps [OF assms(3,1)]] rb_inv_reachable [OF assms(1)]
      closed_quiet [OF assms(3,2) that(2)] that by (simp add: rb_inv_def)
  with work closed_no_step [of p'] show ?thesis unfolding rb_work_def by auto
qed

theorem close_terminates_witness:
  "let p = (new_rabbit 1)\<lparr>rb_queue := [demo_event], rb_accepted := [demo_event], rb_done := True\<rparr>;
       p' = (new_rabbit 1)\<lparr>rb_sent := [demo_event], rb_accepted := [demo_event], rb_done := True, rb_stopped := True\<rparr>
   in (rb_step ^^ 2) p p' \<and> rb_sent p' = rb_accepted p"
proof -
  let ?p0 = "new_rabbit 1"
  let ?p1 = "?p0\<lparr>rb_checked := [demo_event]\<rparr>"
  let ?p2 = "?p0\<lparr>rb_queue := [demo_event], rb_accepted := [demo_event]\<rparr>"
  let ?p3 = "?p2\<lparr>rb_done := True\<rparr>"
  let ?p4 = "?p3\<lparr>rb_queue := [], rb_sent := [demo_event]\<rparr>"
  let ?p5 = "?p4\<lparr>rb_stopped := True\<rparr>"
  have 1: "rb_step ?p0 ?p1" using rb_step.check [of ?p0 demo_event] by (simp add: new_rabbit_def)
  have 2: "rb_step ?p1 ?p2"
    by (rule rb_step.put [where xs = "[]" and ys = "[]" and e = demo_event and r = None])
      (simp_all add: enqueue_def new_rabbit_def)
  have 3: "rb_step ?p2 ?p3" using rb_step.close [of ?p2] by (simp add: new_rabbit_def Close_begin_def)
  have 4: "rb_step ?p3 ?p4" by (rule rb_step.take_one) (simp add: worker_take_def new_rabbit_def)
  have 5: "rb_step ?p4 ?p5" by (rule rb_step.return) (simp add: worker_return_def new_rabbit_def)
  have reach: "rb_reachable 1 ?p3"
    by (rule rb_reachable.step [OF rb_reachable.step [OF rb_reachable.step [OF rb_reachable.start 1] 2] 3])
  have run: "(rb_step ^^ 2) ?p3 ?p5" using 4 5 by (auto simp: numeral_2_eq_2)
  have stuck: "\<not> rb_step ?p5 q" for q
    by (auto simp: new_rabbit_def worker_take_def worker_return_def)
  have "rb_sent ?p5 = rb_accepted ?p3"
    using close_terminates [OF reach _ run] stuck by (simp add: new_rabbit_def)
  with run show ?thesis by (simp add: new_rabbit_def)
qed

end
