(* ===== verification/Audit_Consumers.thy ===== *)
theory Audit_Consumers
  imports Audit_Publisher Store_Props "HOL-Library.Multiset"
begin

text \<open>
  The worker process: the writer that stores audit events (\<^verbatim>\<open>internal/audit/writer.go\<close>), the alerting consumer
  (\<^verbatim>\<open>internal/audit/alerting.go\<close>) and the start-up of \<^verbatim>\<open>cmd/worker/main.go\<close>.

  Two interfaces are locales: \<open>event_store\<close>, what the writer relies on of the query that inserts an
  event, provided by the database (\<open>db_events\<close>); and \<open>alerter\<close>, the Go interface \<^verbatim>\<open>Alerter\<close>, provided by
  \<^verbatim>\<open>LogAlerter\<close>. The broker is not part of the repository: \<open>amqp_broker\<close> states when it accepts a call,
  \<open>amqp_queue\<close> what becomes of a delivery that is settled, and both are met by small brokers in memory.
\<close>

section \<open>The writer\<close>

datatype disposition = Ack | Nack bool

definition writer_setup :: "amqp_call list" where
  "writer_setup =
    [ExchangeDeclare ExchangeDLX, QueueDeclare QueueDLQ None, QueueBind QueueDLQ ''#'' ExchangeDLX,
     ExchangeDeclare ExchangeAudit, QueueDeclare QueuePersist (Some ExchangeDLX),
     QueueBind QueuePersist RoutingKeyAll ExchangeAudit, Qos 100]"

definition NewWriter :: "'b broker \<Rightarrow> 'b \<Rightarrow> amqp_call option \<times> 'b" where
  "NewWriter br b = connect br writer_setup b"

definition Writer_Start :: "'b broker \<Rightarrow> 'b \<Rightarrow> bool \<times> 'b" where
  "Writer_Start br b = br (Consume QueuePersist ''mcp_gate_audit_writer'') b"

datatype persist_error = BadEventID | BadUserID | BadServerID | InsertFailed db_error

definition insert_params :: "uuid \<Rightarrow> uuid \<Rightarrow> uuid \<Rightarrow> Event \<Rightarrow> InsertAuditEventWithIDParams" where
  "insert_params idUUID userUUID serverUUID e =
    \<lparr>iae_id = idUUID, iae_user = userUUID, iae_server = serverUUID, iae_tool = event_Tool e,
     iae_params = event_Params e, iae_outcome = event_Outcome e, iae_summary = event_Summary e,
     iae_latency = event_Latency e, iae_at = (if event_At e = zero_time then None else Some (event_At e))\<rparr>"

definition persist ::
  "(string \<Rightarrow> uuid option) \<Rightarrow> (InsertAuditEventWithIDParams \<Rightarrow> ('d, AuditEvent) db_call) \<Rightarrow> Event \<Rightarrow> 'd \<Rightarrow>
    persist_error option \<times> 'd" where
  "persist scan_uuid ins e d =
    (case scan_uuid (event_ID e) of None \<Rightarrow> (Some BadEventID, d)
     | Some idUUID \<Rightarrow>
     (case scan_uuid (event_UserID e) of None \<Rightarrow> (Some BadUserID, d)
      | Some userUUID \<Rightarrow>
      (case scan_uuid (event_ServerID e) of None \<Rightarrow> (Some BadServerID, d)
       | Some serverUUID \<Rightarrow>
       (case ins (insert_params idUUID userUUID serverUUID e) d of
         (Inl err, d') \<Rightarrow> (Some (InsertFailed err), d')
       | (Inr _, d') \<Rightarrow> (None, d')))))"

definition handleDelivery ::
  "clock \<Rightarrow> (string \<Rightarrow> uuid option) \<Rightarrow> (InsertAuditEventWithIDParams \<Rightarrow> ('d, AuditEvent) db_call) \<Rightarrow> string \<Rightarrow> 'd \<Rightarrow>
    disposition \<times> 'd" where
  "handleDelivery clk scan_uuid ins body d =
    (case read_event clk body of
      None \<Rightarrow> (Nack False, d)
    | Some event \<Rightarrow>
      if Validate_event event \<noteq> None then (Nack False, d)
      else (case persist scan_uuid ins event d of
        (Some err, d') \<Rightarrow> (Nack True, d')
      | (None, d') \<Rightarrow> (Ack, d')))"

text \<open>
  What the \<^verbatim>\<open>select\<close> of a consume loop takes, in the order in which it takes it. The loop of the writer gives the
  settlements it made and whether it has returned.
\<close>

datatype loop_event = Delivered string | Cancelled | ChannelClosed

fun writer_loop ::
  "clock \<Rightarrow> (string \<Rightarrow> uuid option) \<Rightarrow> (InsertAuditEventWithIDParams \<Rightarrow> ('d, AuditEvent) db_call) \<Rightarrow>
    loop_event list \<Rightarrow> 'd \<Rightarrow> disposition list \<times> bool \<times> 'd" where
  "writer_loop clk scan_uuid ins [] d = ([], False, d)"
| "writer_loop clk scan_uuid ins (Cancelled # evs) d = ([], True, d)"
| "writer_loop clk scan_uuid ins (ChannelClosed # evs) d = ([], True, d)"
| "writer_loop clk scan_uuid ins (Delivered body # evs) d =
    (case handleDelivery clk scan_uuid ins body d of (x, d1) \<Rightarrow>
     (case writer_loop clk scan_uuid ins evs d1 of (xs, stopped, d2) \<Rightarrow> (x # xs, stopped, d2)))"

text \<open>\<^verbatim>\<open>Stop\<close> after the loop has returned: as for the publisher.\<close>

definition Writer_Stop :: "'b broker \<Rightarrow> 'b \<Rightarrow> amqp_call option \<times> 'b" where
  "Writer_Stop br b = Close_finish br b"

section \<open>The alerting consumer\<close>

text \<open>\<open>alerts\<close> is a ghost: the events an alert was raised for.\<close>

locale alerter =
  fixes alert :: "Event \<Rightarrow> 's \<Rightarrow> bool \<times> 's"
    and alerts :: "'s \<Rightarrow> Event list"
  assumes alerted: "alert e s = (True, s') \<Longrightarrow> alerts s' = alerts s @ [e]"
    and not_alerted: "alert e s = (False, s') \<Longrightarrow> alerts s' = alerts s"

text \<open>\<^verbatim>\<open>LogAlerter\<close>: the state is the list of the security records in the log.\<close>

definition Log_Alert :: "Event \<Rightarrow> Event list \<Rightarrow> bool \<times> Event list" where
  "Log_Alert event log = (True, log @ [event])"

interpretation log_alerter: alerter Log_Alert "\<lambda>log. log"
  by unfold_locales (auto simp: Log_Alert_def)

definition alert_setup :: "amqp_call list" where
  "alert_setup = QueueDeclare QueueAlerting None #
    map (\<lambda>key. QueueBind QueueAlerting key ExchangeAudit) [RoutingKeyDenied, RoutingKeyRateLimited]"

definition NewAlertConsumer :: "'b broker \<Rightarrow> 'b \<Rightarrow> amqp_call option \<times> 'b" where
  "NewAlertConsumer br b = connect br alert_setup b"

definition Alert_Start :: "'b broker \<Rightarrow> 'b \<Rightarrow> bool \<times> 'b" where
  "Alert_Start br b = br (Consume QueueAlerting ''mcp_gate_alert_consumer'') b"

definition alert_delivery :: "clock \<Rightarrow> (Event \<Rightarrow> 's \<Rightarrow> bool \<times> 's) \<Rightarrow> string \<Rightarrow> 's \<Rightarrow> disposition \<times> 's" where
  "alert_delivery clk alert body s =
    (Ack, case read_event clk body of None \<Rightarrow> s | Some event \<Rightarrow> snd (alert event s))"

fun alert_loop ::
  "clock \<Rightarrow> (Event \<Rightarrow> 's \<Rightarrow> bool \<times> 's) \<Rightarrow> loop_event list \<Rightarrow> 's \<Rightarrow> disposition list \<times> bool \<times> 's" where
  "alert_loop clk alert [] s = ([], False, s)"
| "alert_loop clk alert (Cancelled # evs) s = ([], True, s)"
| "alert_loop clk alert (ChannelClosed # evs) s = ([], True, s)"
| "alert_loop clk alert (Delivered body # evs) s =
    (case alert_delivery clk alert body s of (x, s1) \<Rightarrow>
     (case alert_loop clk alert evs s1 of (xs, stopped, s2) \<Rightarrow> (x # xs, stopped, s2)))"

definition Alert_Stop :: "'b broker \<Rightarrow> 'b \<Rightarrow> amqp_call option \<times> 'b" where
  "Alert_Stop br b = Close_finish br b"

section \<open>The start of the worker\<close>

datatype worker_failure = PoolFailed | PingFailed | WriterInit amqp_call | WriterStart
  | AlertInit amqp_call | AlertStart

text \<open>\<open>None\<close>: the worker is ready. On a failure the process exits, and no deferred call runs.\<close>

definition worker_start :: "'b broker \<Rightarrow> bool \<Rightarrow> bool \<Rightarrow> 'b \<Rightarrow> worker_failure option \<times> 'b" where
  "worker_start br pool_ok ping_ok b =
    (if \<not> pool_ok then (Some PoolFailed, b)
     else if \<not> ping_ok then (Some PingFailed, b)
     else case NewWriter br b of
       (Some c, b1) \<Rightarrow> (Some (WriterInit c), b1)
     | (None, b1) \<Rightarrow>
       (case Writer_Start br b1 of (ok, b2) \<Rightarrow>
        if \<not> ok then (Some WriterStart, b2)
        else case NewAlertConsumer br b2 of
          (Some c, b3) \<Rightarrow> (Some (AlertInit c), b3)
        | (None, b3) \<Rightarrow>
          (case Alert_Start br b3 of (ok, b4) \<Rightarrow> (if ok then None else Some AlertStart, b4))))"

definition worker_stop :: "'b broker \<Rightarrow> 'b \<Rightarrow> 'b" where
  "worker_stop br b = snd (Alert_Stop br (snd (Writer_Stop br b)))"

section \<open>The event store interface\<close>

text \<open>The row that an insertion with these arguments leaves.\<close>

definition row_of :: "InsertAuditEventWithIDParams \<Rightarrow> AuditEvent \<Rightarrow> bool" where
  "row_of arg row \<longleftrightarrow> ae_id row = iae_id arg \<and> ae_user row = iae_user arg \<and> ae_server row = iae_server arg \<and>
    ae_tool row = iae_tool arg \<and> ae_outcome row = iae_outcome arg \<and> ae_latency row = iae_latency arg \<and>
    (\<exists>t. iae_at arg = Some t \<and> ae_at row = pg_time t)"

text \<open>The event is in a log: with its own id, user and server, its tool and its outcome.\<close>

definition persisted :: "(string \<Rightarrow> uuid option) \<Rightarrow> Event \<Rightarrow> AuditEvent list \<Rightarrow> bool" where
  "persisted scan e log \<longleftrightarrow> (\<exists>i u s row. scan (event_ID e) = Some i \<and> scan (event_UserID e) = Some u \<and>
    scan (event_ServerID e) = Some s \<and> row \<in> set log \<and> row_of (insert_params i u s e) row)"

lemma persisted_mono: "persisted scan e log \<Longrightarrow> set log \<subseteq> set log' \<Longrightarrow> persisted scan e log'"
  unfolding persisted_def by blast

locale event_store =
  fixes ins :: "InsertAuditEventWithIDParams \<Rightarrow> ('d, AuditEvent) db_call"
    and events :: "'d \<Rightarrow> AuditEvent list"
  assumes stored: "ins arg d = (Inr row, d') \<Longrightarrow> row_of arg row \<and> row \<in> set (events d')"
    and kept: "ins arg d = (x, d') \<Longrightarrow> set (events d) \<subseteq> set (events d')"
    and fresh: "ins arg d = (Inr row, d') \<Longrightarrow> iae_id arg \<notin> ae_id ` set (events d)"
    and present: "iae_id arg \<in> ae_id ` set (events d) \<Longrightarrow> ins arg d = (x, d') \<Longrightarrow> events d' = events d"
begin

lemma persist_ok: "persist scan ins e d = (None, d') \<Longrightarrow> persisted scan e (events d')"
  using stored
  by (fastforce simp: persist_def persisted_def split: option.splits prod.splits sum.splits)

lemma persist_keeps: "persist scan ins e d = (x, d') \<Longrightarrow> set (events d) \<subseteq> set (events d')"
  using kept by (fastforce simp: persist_def split: option.splits prod.splits sum.splits)

lemma acked:
  assumes "handleDelivery clk scan ins body d = (Ack, d')"
  obtains e where "read_event clk body = Some e" and "Validate_event e = None" and "persisted scan e (events d')"
  using assms persist_ok
  by (fastforce simp: handleDelivery_def split: option.splits prod.splits if_splits)

lemma handle_keeps: "handleDelivery clk scan ins body d = (x, d') \<Longrightarrow> set (events d) \<subseteq> set (events d')"
  using persist_keeps by (fastforce simp: handleDelivery_def split: option.splits prod.splits if_splits)

lemma dead_lettered: "handleDelivery clk scan ins body d = (Nack False, d') \<longleftrightarrow>
    d' = d \<and> (\<forall>e. read_event clk body = Some e \<longrightarrow> Validate_event e \<noteq> None)"
  by (auto simp: handleDelivery_def split: option.splits prod.splits)

text \<open>A redelivery of an event that is in the store is never acknowledged.\<close>

lemma duplicate_requeued:
  assumes "read_event clk body = Some e" and "Validate_event e = None" and "persisted scan e (events d)"
  shows "\<exists>d'. handleDelivery clk scan ins body d = (Nack True, d') \<and> events d' = events d"
proof -
  obtain i u s where ids: "scan (event_ID e) = Some i" "scan (event_UserID e) = Some u" "scan (event_ServerID e) = Some s"
    and there: "iae_id (insert_params i u s e) \<in> ae_id ` set (events d)"
    using assms(3) by (force simp: persisted_def row_of_def)
  obtain x d' where ins: "ins (insert_params i u s e) d = (x, d')" by fastforce
  then have "\<exists>err. x = Inl err" using fresh there by (cases x) blast+
  then show ?thesis
    using assms(1,2) ids ins present [OF there ins] by (auto simp: handleDelivery_def persist_def)
qed

end

abbreviation db_insert :: "pg \<Rightarrow> InsertAuditEventWithIDParams \<Rightarrow> (db, AuditEvent) db_call" where
  "db_insert pg \<equiv> q_InsertAuditEventWithID (queries pg)"

abbreviation log_of :: "db \<Rightarrow> AuditEvent list" where
  "log_of s \<equiv> t_events (db_tables s)"

lemma insert_stored:
  assumes "InsertAuditEventWithID pg arg e t = (Inr row, t')"
  shows "row_of arg row \<and> t_events t' = t_events t @ [row] \<and> iae_id arg \<notin> ae_id ` set (t_events t)"
  using assms
  by (auto simp: InsertAuditEventWithID_def insert_event_def row_of_def
      split: option.splits if_splits)

lemma insert_present:
  assumes "iae_id arg \<in> ae_id ` set (t_events t)"
  shows "t_events (snd (InsertAuditEventWithID pg arg e t)) = t_events t"
  using assms
  by (auto simp: InsertAuditEventWithID_def insert_event_def split: option.splits)

interpretation db_events: event_store "db_insert pg" log_of for pg
proof unfold_locales
  fix arg d row d'
  assume "db_insert pg arg d = (Inr row, d')"
  then obtain e where "InsertAuditEventWithID pg arg e (db_tables d) = (Inr row, db_tables d')"
    by (auto simp: queries_def exec_def Let_def split: link.splits prod.splits)
  from insert_stored [OF this] show "row_of arg row \<and> row \<in> set (log_of d')"
    and "iae_id arg \<notin> ae_id ` set (log_of d)" by simp_all
next
  fix arg d x d'
  assume "db_insert pg arg d = (x, d')"
  then have d': "d' = snd (exec pg (InsertAuditEventWithID pg arg) d)" by (simp add: queries_def)
  show "set (log_of d) \<subseteq> set (log_of d')"
    unfolding d' using exec_appends [of "InsertAuditEventWithID pg arg" pg d, OF audit_inserts_append(2)] by fastforce
  show "log_of d' = log_of d" if "iae_id arg \<in> ae_id ` set (log_of d)"
    unfolding d' using exec_tables [of pg "InsertAuditEventWithID pg arg" d] insert_present [OF that] by metis
qed

section \<open>Properties of the writer\<close>

text \<open>C10: an acknowledged event is stored. When the writer acknowledges a delivery, its body decodes to a valid event,
  and the audit log of that moment has a row with the id, the user, the server, the tool, the outcome, the latency
  and (to the microsecond) the time of the event.\<close>

theorem acknowledged_event_is_stored:
  assumes "handleDelivery clk scan (db_insert pg) body d = (Ack, d')"
  shows "\<exists>e i u s row. read_event clk body = Some e \<and> Validate_event e = None \<and>
    scan (event_ID e) = Some i \<and> scan (event_UserID e) = Some u \<and> scan (event_ServerID e) = Some s \<and>
    row \<in> set (log_of d') \<and> ae_id row = i \<and> ae_user row = u \<and> ae_server row = s \<and>
    ae_tool row = event_Tool e \<and> ae_outcome row = event_Outcome e \<and> ae_latency row = event_Latency e \<and>
    ae_at row = pg_time (event_At e)"
  using assms
proof (rule db_events.acked)
  fix e
  assume "read_event clk body = Some e" "Validate_event e = None" "persisted scan e (log_of d')"
  then show ?thesis by (auto simp: persisted_def row_of_def insert_params_def split: if_splits)
qed

text \<open>Only what can never be stored is dead-lettered. A delivery is rejected without requeue exactly when its
  body does not decode or the event is not valid, and then the store is not touched.\<close>

theorem dead_letter_iff_invalid:
  "handleDelivery clk scan (db_insert pg) body d = (Nack False, d') \<longleftrightarrow>
    d' = d \<and> (read_event clk body = None \<or> (\<exists>e err. read_event clk body = Some e \<and> Validate_event e = Some err))"
  unfolding db_events.dead_lettered by (cases "read_event clk body") auto

section \<open>The worker and its queue\<close>

text \<open>
  What becomes of a delivery that is settled, of the queue with a dead-letter exchange that \<open>writer_setup\<close>
  declares: an acknowledgement removes it, a rejection moves it to the dead letters or back to the queue. A
  settlement that gets lost leaves the message in the queue, which delivers it again.
\<close>

locale amqp_queue =
  fixes pending :: "'b \<Rightarrow> string multiset"
    and dead :: "'b \<Rightarrow> string multiset"
    and settle :: "disposition \<Rightarrow> string \<Rightarrow> 'b \<Rightarrow> 'b"
  assumes ack_pending: "pending (settle Ack m b) \<in> {pending b, pending b - {#m#}}"
    and ack_dead: "dead (settle Ack m b) = dead b"
    and requeue: "pending (settle (Nack True) m b) = pending b \<and> dead (settle (Nack True) m b) = dead b"
    and reject: "m \<in># pending b \<Longrightarrow>
      pending (settle (Nack False) m b) = pending b - {#m#} \<and> dead (settle (Nack False) m b) = dead b + {#m#} \<or>
      pending (settle (Nack False) m b) = pending b \<and> dead (settle (Nack False) m b) = dead b"

record 'b worker_sys =
  ws_broker :: 'b
  ws_db :: db
  ws_published :: "string list"

inductive wk_step ::
  "clock \<Rightarrow> (string \<Rightarrow> uuid option) \<Rightarrow> pg \<Rightarrow> ('b \<Rightarrow> string multiset) \<Rightarrow> ('b \<Rightarrow> string multiset) \<Rightarrow>
    (disposition \<Rightarrow> string \<Rightarrow> 'b \<Rightarrow> 'b) \<Rightarrow> 'b worker_sys \<Rightarrow> 'b worker_sys \<Rightarrow> bool"
  for clk scan pg pending dead settle where
  publish: "pending b' = pending (ws_broker s) + {#m#} \<Longrightarrow> dead b' = dead (ws_broker s) \<Longrightarrow>
    wk_step clk scan pg pending dead settle s (s\<lparr>ws_broker := b', ws_published := m # ws_published s\<rparr>)"
| handle: "m \<in># pending (ws_broker s) \<Longrightarrow> handleDelivery clk scan (db_insert pg) m (ws_db s) = (x, d') \<Longrightarrow>
    wk_step clk scan pg pending dead settle s (s\<lparr>ws_broker := settle x m (ws_broker s), ws_db := d'\<rparr>)"
| other: "db_step pg (ws_db s) d' \<Longrightarrow> wk_step clk scan pg pending dead settle s (s\<lparr>ws_db := d'\<rparr>)"

inductive wk_reachable ::
  "clock \<Rightarrow> (string \<Rightarrow> uuid option) \<Rightarrow> pg \<Rightarrow> ('b \<Rightarrow> string multiset) \<Rightarrow> ('b \<Rightarrow> string multiset) \<Rightarrow>
    (disposition \<Rightarrow> string \<Rightarrow> 'b \<Rightarrow> 'b) \<Rightarrow> 'b worker_sys \<Rightarrow> bool"
  for clk scan pg pending dead settle where
  init: "pending b = {#} \<Longrightarrow> dead b = {#} \<Longrightarrow>
    wk_reachable clk scan pg pending dead settle \<lparr>ws_broker = b, ws_db = d, ws_published = []\<rparr>"
| step: "wk_reachable clk scan pg pending dead settle s \<Longrightarrow> wk_step clk scan pg pending dead settle s s' \<Longrightarrow>
    wk_reachable clk scan pg pending dead settle s'"

text \<open>The event of a body, when the writer takes it for valid.\<close>

definition valid_event :: "clock \<Rightarrow> string \<Rightarrow> Event \<Rightarrow> bool" where
  "valid_event clk m e \<longleftrightarrow> read_event clk m = Some e \<and> Validate_event e = None"

definition wk_inv :: "clock \<Rightarrow> (string \<Rightarrow> uuid option) \<Rightarrow> ('b \<Rightarrow> string multiset) \<Rightarrow> 'b worker_sys \<Rightarrow> bool" where
  "wk_inv clk scan pending s \<longleftrightarrow>
    (\<forall>m \<in> set (ws_published s). \<forall>e. valid_event clk m e \<longrightarrow>
      m \<in># pending (ws_broker s) \<or> persisted scan e (log_of (ws_db s)))"

context amqp_queue
begin

lemma settle_keeps_others: "m' \<in># pending b \<Longrightarrow> m' \<noteq> m \<Longrightarrow> m \<in># pending b \<Longrightarrow> m' \<in># pending (settle x m b)"
  using ack_pending [of m b] requeue [of m b] reject [of m b]
  by (cases x; cases "x = Nack True") (auto simp: in_diff_count)

lemma wk_inv_handle:
  assumes inv: "wk_inv clk scan pending s" and m: "m \<in># pending (ws_broker s)"
    and h: "handleDelivery clk scan (db_insert pg) m (ws_db s) = (x, d')"
  shows "wk_inv clk scan pending (s\<lparr>ws_broker := settle x m (ws_broker s), ws_db := d'\<rparr>)"
  unfolding wk_inv_def
proof (intro ballI allI impI)
  fix m' e
  assume m': "m' \<in> set (ws_published (s\<lparr>ws_broker := settle x m (ws_broker s), ws_db := d'\<rparr>))" and e: "valid_event clk m' e"
  have kept: "set (log_of (ws_db s)) \<subseteq> set (log_of d')" by (rule db_events.handle_keeps [OF h])
  consider (done_before) "persisted scan e (log_of (ws_db s))" | (other) "m' \<in># pending (ws_broker s)" "m' \<noteq> m"
    | (same) "m' = m"
    using inv m' e by (auto simp: wk_inv_def)
  then show "m' \<in># pending (ws_broker (s\<lparr>ws_broker := settle x m (ws_broker s), ws_db := d'\<rparr>)) \<or>
    persisted scan e (log_of (ws_db (s\<lparr>ws_broker := settle x m (ws_broker s), ws_db := d'\<rparr>)))"
  proof cases
    case done_before
    then show ?thesis using persisted_mono [OF _ kept] by simp
  next
    case other
    then show ?thesis using settle_keeps_others [OF _ _ m] by simp
  next
    case same
    show ?thesis
    proof (cases x)
      case Ack
      with h obtain e' where "read_event clk m = Some e'" "persisted scan e' (log_of d')"
        using db_events.acked by metis
      then show ?thesis using e same by (simp add: valid_event_def)
    next
      case (Nack requeued)
      then show ?thesis
        using h m e same requeue [of m "ws_broker s"] db_events.dead_lettered [of clk scan pg m "ws_db s" d']
        by (cases requeued) (auto simp: valid_event_def)
    qed
  qed
qed

lemma wk_inv_step: "wk_step clk scan pg pending dead settle s s' \<Longrightarrow> wk_inv clk scan pending s \<Longrightarrow> wk_inv clk scan pending s'"
proof (induction rule: wk_step.induct)
  case (publish b' s m)
  then show ?case by (auto simp: wk_inv_def)
next
  case (handle m s x d')
  then show ?case by (blast intro: wk_inv_handle)
next
  case (other s d')
  then obtain rows where "log_of d' = log_of (ws_db s) @ rows" using db_step_appends by blast
  then have kept: "set (log_of (ws_db s)) \<subseteq> set (log_of d')" by simp
  show ?case using other(2) by (auto simp: wk_inv_def dest: persisted_mono [OF _ kept])
qed

lemma wk_inv_reachable: "wk_reachable clk scan pg pending dead settle s \<Longrightarrow> wk_inv clk scan pending s"
proof (induction rule: wk_reachable.induct)
  case (step s s')
  then show ?case by (blast intro: wk_inv_step)
qed (simp add: wk_inv_def)

end

text \<open>A queue in memory: the pending messages and the dead letters.\<close>

definition mem_settle :: "disposition \<Rightarrow> string \<Rightarrow> string multiset \<times> string multiset \<Rightarrow> string multiset \<times> string multiset" where
  "mem_settle x m b = (case x of
      Ack \<Rightarrow> (fst b - {#m#}, snd b)
    | Nack True \<Rightarrow> b
    | Nack False \<Rightarrow> (if m \<in># fst b then (fst b - {#m#}, snd b + {#m#}) else b))"

interpretation mem_queue: amqp_queue fst snd mem_settle
  by unfold_locales (auto simp: mem_settle_def)

end
