(* ===== verification/Worker_Props.thy ===== *)
theory Worker_Props
  imports Audit_Consumers
begin

text \<open>
  Properties of the audit pipeline from the queue to the store: that the worker loses no event, that a redelivered event is never settled, that the worker starts
  on an empty broker, and what its two loops do with a sequence of deliveries.
\<close>

section \<open>A small pipeline\<close>

definition demo_clock :: clock where
  "demo_clock = \<lparr>time_text = \<lambda>t. if t = 0 then Some ''0'' else None,
    time_parse = \<lambda>s. if s = ''0'' then Some 0 else None\<rparr>"

lemma demo_clock_ok: "clock_ok demo_clock"
  by (auto simp: clock_ok_def demo_clock_def utf8_len_def escape_ascii_def split: if_splits)

definition demo_audit :: Event where
  "demo_audit = NewEvent (format_uuid id1) 0 (format_uuid id3) (format_uuid id2) ''read'' OutcomeDenied [] [] None"

definition demo_body :: string where
  "demo_body = the (event_text demo_clock demo_audit)"

lemma utf8_ids: "utf8_ok (format_uuid id1)" "utf8_ok (format_uuid id2)" "utf8_ok (format_uuid id3)"
  unfolding id1_def id2_def id3_def by code_simp+

lemma demo_audit_ok: "event_ok demo_audit" "Validate_event demo_audit = None"
  using utf8_ids
  by (simp_all add: event_ok_def demo_audit_def NewEvent_def printed_raw_def Validate_event_def outcome_defs
      utf8_len_def format_uuid_def)

lemma demo_body_text: "event_text demo_clock demo_audit = Some demo_body"
  by (simp add: demo_body_def event_text_def demo_audit_def NewEvent_def raw_ok_def demo_clock_def)

lemma demo_body_read: "read_event demo_clock demo_body = Some demo_audit"
  by (rule event_roundtrip [OF demo_clock_ok demo_audit_ok(1) demo_body_text])

lemma demo_valid: "valid_event demo_clock demo_body demo_audit"
  by (simp add: valid_event_def demo_body_read demo_audit_ok)

lemma ref_scan_ids: "ref_scan (format_uuid id1) = Some id1" "ref_scan (format_uuid id2) = Some id2"
  "ref_scan (format_uuid id3) = Some id3"
  using uuid_scanner_ref by (simp_all add: uuid_scanner_def)

definition demo_row :: AuditEvent where
  "demo_row = \<lparr>ae_id = id1, ae_user = id3, ae_server = id2, ae_tool = ''read'', ae_params = None,
    ae_outcome = OutcomeDenied, ae_summary = None, ae_latency = None, ae_at = 0\<rparr>"

definition demo_logged :: db where
  "demo_logged = (demo_db True)\<lparr>db_calls := 1, db_tables := (db_tables (demo_db True))\<lparr>t_events := [demo_row]\<rparr>\<rparr>"

lemma demo_text_denied: "text_ok ''denied''"
  by (simp add: text_ok_def utf8_len_def)

lemma demo_persisted: "persist ref_scan (db_insert demo_pg) demo_audit (demo_db True) = (None, demo_logged)"
  by (simp add: persist_def demo_audit_def NewEvent_def ref_scan_ids queries_def exec_def demo_pg_def
      InsertAuditEventWithID_def insert_params_def demo_text_ok demo_text_denied jsonb_arg_def zero_time_def
      outcome_defs outcomes_def insert_event_def demo_db_def demo_logged_def demo_row_def pg_time_def)

lemma demo_handled:
  "handleDelivery demo_clock ref_scan (db_insert demo_pg) demo_body (demo_db True) = (Ack, demo_logged)"
  by (simp add: handleDelivery_def demo_body_read demo_audit_ok demo_persisted)

theorem acknowledged_event_is_stored_witness:
  "\<exists>row \<in> set (log_of demo_logged). ae_id row = id1 \<and> ae_outcome row = ''denied''"
  using acknowledged_event_is_stored [OF demo_handled] ref_scan_ids
  by (auto simp: demo_body_read demo_audit_def NewEvent_def outcome_defs)

section \<open>No event is lost\<close>

text \<open>C13: the worker loses no event. In every state that publishing, deliveries in any order, lost settlements,
  failing stores and other statements on the store can reach, a valid event that was published is still in the
  queue, or its row is in the audit log.\<close>

theorem no_event_lost:
  assumes "amqp_queue pending dead settle" and "wk_reachable clk scan pg pending dead settle s"
    and "m \<in> set (ws_published s)" and "valid_event clk m e"
  shows "m \<in># pending (ws_broker s) \<or> persisted scan e (log_of (ws_db s))"
  using amqp_queue.wk_inv_reachable [OF assms(1,2)] assms(3,4) by (simp add: wk_inv_def)

lemma demo_pipeline_reachable:
  "wk_reachable demo_clock ref_scan demo_pg fst snd mem_settle
    \<lparr>ws_broker = ({#}, {#}), ws_db = demo_logged, ws_published = [demo_body]\<rparr>"
proof -
  let ?reach = "wk_reachable demo_clock ref_scan demo_pg fst snd mem_settle"
  let ?step = "wk_step demo_clock ref_scan demo_pg fst snd mem_settle"
  let ?s0 = "\<lparr>ws_broker = ({#}, {#}), ws_db = demo_db True, ws_published = []\<rparr>"
  let ?s1 = "\<lparr>ws_broker = ({#demo_body#}, {#}), ws_db = demo_db True, ws_published = [demo_body]\<rparr>"
  have 0: "?reach ?s0" by (rule wk_reachable.init) simp_all
  have 1: "?step ?s0 ?s1"
    using wk_step.publish [of fst "({#demo_body#}, {#})" ?s0 demo_body snd] by simp
  have "?step ?s1 (?s1\<lparr>ws_broker := mem_settle Ack demo_body (ws_broker ?s1), ws_db := demo_logged\<rparr>)"
    by (rule wk_step.handle) (simp_all add: demo_handled)
  then have 2: "?step ?s1 \<lparr>ws_broker = ({#}, {#}), ws_db = demo_logged, ws_published = [demo_body]\<rparr>"
    by (simp add: mem_settle_def)
  show ?thesis by (rule wk_reachable.step [OF wk_reachable.step [OF 0 1] 2])
qed

theorem no_event_lost_witness: "persisted ref_scan demo_audit (log_of demo_logged)"
  using no_event_lost [OF mem_queue.amqp_queue_axioms demo_pipeline_reachable _ demo_valid] by simp

text \<open>A redelivered event is never settled. Once the row of an event is in the audit log, every later delivery of
  that event (after a lost acknowledgement, say) adds nothing to the log, and the writer asks for it to be delivered
  again: the insertion is idempotent, but it returns no row, which the writer takes for a failure.\<close>

theorem duplicate_is_requeued:
  assumes "valid_event clk m e" and "persisted scan e (log_of d)" and "(db_step pg)\<^sup>*\<^sup>* d d'"
  shows "\<exists>d''. handleDelivery clk scan (db_insert pg) m d' = (Nack True, d'') \<and> log_of d'' = log_of d'"
proof -
  obtain rows where "log_of d' = log_of d @ rows" using db_steps_append [OF assms(3)] by blast
  then have "persisted scan e (log_of d')" using persisted_mono [OF assms(2)] by simp
  then show ?thesis
    using db_events.duplicate_requeued [of clk m e scan d' pg] assms(1) by (simp add: valid_event_def)
qed

lemma demo_row_persisted: "persisted ref_scan demo_audit (log_of demo_logged)"
  using db_events.persist_ok [OF demo_persisted] .

theorem duplicate_is_requeued_witness:
  "fst (handleDelivery demo_clock ref_scan (db_insert demo_pg) demo_body demo_logged) = Nack True"
  using duplicate_is_requeued [OF demo_valid demo_row_persisted rtranclp.rtrancl_refl, of demo_pg] by auto

section \<open>Deliveries\<close>

fun delivered :: "loop_event list \<Rightarrow> string list" where
  "delivered (Delivered body # evs) = body # delivered evs"
| "delivered _ = []"

fun stops :: "loop_event list \<Rightarrow> bool" where
  "stops [] = False"
| "stops (Delivered body # evs) = stops evs"
| "stops _ = True"

lemma writer_loop_settles:
  "writer_loop clk scan ins evs d = (xs, stopped, d') \<Longrightarrow> length xs = length (delivered evs) \<and> stopped = stops evs"
  by (induction clk scan ins evs d arbitrary: xs rule: writer_loop.induct) (auto split: prod.splits)

lemma writer_loop_append:
  "\<not> stops evs \<Longrightarrow> writer_loop clk scan ins (evs @ evs') d =
    (case writer_loop clk scan ins evs d of (xs, _, d1) \<Rightarrow>
      case writer_loop clk scan ins evs' d1 of (ys, stopped, d2) \<Rightarrow> (xs @ ys, stopped, d2))"
  by (induction clk scan ins evs d rule: writer_loop.induct) (auto split: prod.splits)

text \<open>The writer settles every delivery once, in order. For every sequence of what its loop takes from the channel
  and the context, it makes exactly one settlement for each delivery before a cancellation or a closed channel, the
  settlement that \<open>handleDelivery\<close> decides in the store that the deliveries before have left, and it returns when
  and only when one of these comes.\<close>

theorem writer_settles_each_delivery:
  "writer_loop clk scan ins evs d = (xs, stopped, d') \<Longrightarrow>
    length xs = length (delivered evs) \<and> stopped = stops evs \<and>
    (\<forall>pre body post. evs = pre @ Delivered body # post \<and> \<not> stops pre \<longrightarrow>
      xs ! length (delivered pre) =
        fst (handleDelivery clk scan ins body (snd (snd (writer_loop clk scan ins pre d)))))"
proof (intro conjI allI impI)
  assume loop: "writer_loop clk scan ins evs d = (xs, stopped, d')"
  show "length xs = length (delivered evs)" and "stopped = stops evs"
    by (simp_all add: writer_loop_settles [OF loop])
  fix pre body post
  assume evs: "evs = pre @ Delivered body # post \<and> \<not> stops pre"
  obtain ys b d1 where pre: "writer_loop clk scan ins pre d = (ys, b, d1)" by (metis prod_cases3)
  have "length ys = length (delivered pre)" using writer_loop_settles [OF pre] by blast
  then show "xs ! length (delivered pre) =
      fst (handleDelivery clk scan ins body (snd (snd (writer_loop clk scan ins pre d))))"
    using loop evs pre by (auto simp: writer_loop_append nth_append split: prod.splits)
qed

theorem writer_settles_each_delivery_witness:
  "fst (writer_loop demo_clock ref_scan (db_insert demo_pg) [Delivered demo_body, Cancelled, Delivered ''x''] (demo_db True))
    = [Ack]"
  using writer_settles_each_delivery [of demo_clock ref_scan "db_insert demo_pg"
      "[Delivered demo_body, Cancelled, Delivered ''x'']" "demo_db True" "[Ack]" True demo_logged]
  by (simp add: demo_handled)

lemma alert_loop_acks:
  "fst (alert_loop clk alert evs s) = replicate (length (delivered evs)) Ack
    \<and> fst (snd (alert_loop clk alert evs s)) = stops evs"
  by (induction clk alert evs s rule: alert_loop.induct) (auto simp: alert_delivery_def split: prod.splits)

text \<open>The events an alerter is called for: the deliveries that decode, in order.\<close>

definition alarming :: "clock \<Rightarrow> loop_event list \<Rightarrow> Event list" where
  "alarming clk evs = List.map_filter (read_event clk) (delivered evs)"

lemma alarming_simps:
  "alarming clk [] = []" "alarming clk (Cancelled # evs) = []" "alarming clk (ChannelClosed # evs) = []"
  "alarming clk (Delivered m # evs) = (case read_event clk m of None \<Rightarrow> [] | Some e \<Rightarrow> [e]) @ alarming clk evs"
  by (auto simp: alarming_def map_filter_simps split: option.split)

context alerter
begin

text \<open>The alerts are among the events the alerter is called for, in order; an alerter that never fails misses none.\<close>

lemma loop_alerts:
  "\<exists>es. alerts (snd (snd (alert_loop clk alert evs s))) = alerts s @ es \<and> set es \<subseteq> set (alarming clk evs) \<and>
    ((\<forall>e s. fst (alert e s)) \<longrightarrow> es = alarming clk evs)"
proof (induction evs arbitrary: s)
  case (Cons x evs)
  show ?case
  proof (cases x)
    case (Delivered m)
    let ?s = "snd (alert_delivery clk alert m s)"
    obtain es where es: "alerts (snd (snd (alert_loop clk alert evs ?s))) = alerts ?s @ es"
      "set es \<subseteq> set (alarming clk evs)" "(\<forall>e s. fst (alert e s)) \<longrightarrow> es = alarming clk evs"
      using Cons.IH by blast
    have 1: "snd (snd (alert_loop clk alert (x # evs) s)) = snd (snd (alert_loop clk alert evs ?s))"
      by (simp add: Delivered split: prod.split)
    show ?thesis
    proof (cases "read_event clk m")
      case None
      then show ?thesis using es 1 Delivered by (simp add: alert_delivery_def alarming_simps)
    next
      case (Some e)
      then have s: "?s = snd (alert e s)" by (simp add: alert_delivery_def)
      have "alerts ?s = alerts s @ [e] \<or> alerts ?s = alerts s \<and> \<not> fst (alert e s)"
        unfolding s using alerted not_alerted by (metis (full_types) prod.collapse)
      then show ?thesis
        using es 1 Some Delivered by (elim disjE) (force simp: alarming_simps)+
    qed
  qed (simp_all add: alarming_simps)
qed (simp add: alarming_simps)

end

text \<open>Every blocked call raises an alert. The alerting loop acknowledges every delivery it takes, and with the
  log alerter the security records are exactly the decodable events of those deliveries, in order.\<close>

theorem alerts_are_logged_in_order:
  "alert_loop clk Log_Alert evs log = (replicate (length (delivered evs)) Ack, stops evs, log @ alarming clk evs)"
proof -
  have "snd (snd (alert_loop clk Log_Alert evs log)) = log @ alarming clk evs"
    using log_alerter.loop_alerts [of clk evs log] by (auto simp: Log_Alert_def)
  then show ?thesis using alert_loop_acks [of clk Log_Alert evs log] by (simp add: prod_eq_iff)
qed

end
