(* ===== verification/Audit_Topology.thy ===== *)
theory Audit_Topology
  imports Audit_Consumers
begin

text \<open>
  The topology of the audit exchange: which queues the keys of the program reach, that the worker sets it up in
  an order a broker accepts, and that a setup that fails leaves no connection open. How a broker matches topic
  patterns is the contract \<open>topic_ok\<close>, which \<open>topic_match\<close> meets; when it accepts a call is the locale
  \<open>amqp_broker\<close>, which \<open>mem_broker\<close> meets.
\<close>

section \<open>Topic patterns\<close>

definition wild :: "char set" where
  "wild = {CHR ''*'', CHR ''#''}"

text \<open>
  Documented behaviour of a topic exchange: a pattern without wildcards matches itself only, a final \<^verbatim>\<open>*\<close> matches
  any one word, and \<^verbatim>\<open>#\<close> alone matches every key.
\<close>

definition topic_ok :: "(string \<Rightarrow> string \<Rightarrow> bool) \<Rightarrow> bool" where
  "topic_ok tm \<longleftrightarrow>
    (\<forall>p k. set p \<inter> wild = {} \<longrightarrow> tm p k = (p = k)) \<and>
    (\<forall>p w. set p \<inter> wild = {} \<and> CHR ''.'' \<notin> set w \<longrightarrow> tm (p @ ''.*'') (p @ CHR ''.'' # w)) \<and>
    (\<forall>k. tm ''#'' k)"

fun split_dots :: "string \<Rightarrow> string list" where
  "split_dots [] = [[]]"
| "split_dots (c # r) =
    (if c = CHR ''.'' then [] # split_dots r
     else case split_dots r of [] \<Rightarrow> [[c]] | w # ws \<Rightarrow> (c # w) # ws)"

fun join_dots :: "string list \<Rightarrow> string" where
  "join_dots [] = []"
| "join_dots [w] = w"
| "join_dots (w # v # ws) = w @ CHR ''.'' # join_dots (v # ws)"

fun match_words :: "string list \<Rightarrow> string list \<Rightarrow> bool" where
  "match_words [] ks = (ks = [])"
| "match_words (p # ps) [] = (p = ''#'' \<and> match_words ps [])"
| "match_words (p # ps) (k # ks) =
    (if p = ''#'' then match_words ps (k # ks) \<or> match_words (p # ps) ks
     else (p = ''*'' \<or> p = k) \<and> match_words ps ks)"

definition topic_match :: "string \<Rightarrow> string \<Rightarrow> bool" where
  "topic_match p k = match_words (split_dots p) (split_dots k)"

lemma split_dots_nonempty [simp]: "split_dots s \<noteq> []"
  by (induction s) (auto split: list.split)

lemma join_dots_Cons: "ws \<noteq> [] \<Longrightarrow> join_dots (w # ws) = w @ CHR ''.'' # join_dots ws"
  by (cases ws) simp_all

lemma join_split [simp]: "join_dots (split_dots s) = s"
proof (induction s)
  case (Cons c s)
  obtain w ws where "split_dots s = w # ws" using split_dots_nonempty [of s] by (cases "split_dots s") blast+
  then show ?case using Cons by (cases ws) (auto simp: join_dots_Cons)
qed simp

lemma split_dots_inj: "split_dots a = split_dots b \<longleftrightarrow> a = b"
  by (metis join_split)

lemma split_dots_append: "split_dots (a @ CHR ''.'' # b) = split_dots a @ split_dots b"
proof (induction a)
  case (Cons c a)
  then show ?case by (cases "split_dots a") auto
qed simp

lemma split_dots_word: "CHR ''.'' \<notin> set w \<Longrightarrow> split_dots w = [w]"
  by (induction w) auto

lemma set_split_dots: "w \<in> set (split_dots s) \<Longrightarrow> set w \<subseteq> set s"
proof (induction s arbitrary: w)
  case (Cons c s)
  then show ?case by (cases "split_dots s") (force split: if_splits)+
qed simp

lemma split_dots_plain: "set p \<inter> wild = {} \<Longrightarrow> w \<in> set (split_dots p) \<Longrightarrow> w \<noteq> ''*'' \<and> w \<noteq> ''#''"
  using set_split_dots [of w p] by (auto simp: wild_def)

lemma match_plain: "\<forall>w \<in> set ps. w \<noteq> ''*'' \<and> w \<noteq> ''#'' \<Longrightarrow> match_words ps ks = (ps = ks)"
  by (induction ps ks rule: match_words.induct) auto

lemma match_plain_star: "\<forall>w \<in> set ps. w \<noteq> ''*'' \<and> w \<noteq> ''#'' \<Longrightarrow> match_words (ps @ [''*'']) (ps @ [w])"
  by (induction ps) auto

lemma match_hash: "match_words [''#''] ks"
  by (induction ks) auto

lemma topic_match_ok: "topic_ok topic_match"
  unfolding topic_ok_def
proof (intro conjI allI impI)
  fix p k :: string
  assume "set p \<inter> wild = {}"
  then show "topic_match p k = (p = k)"
    by (simp add: topic_match_def match_plain split_dots_plain split_dots_inj)
next
  fix p w :: string
  assume *: "set p \<inter> wild = {} \<and> CHR ''.'' \<notin> set w"
  have "split_dots (p @ ''.*'') = split_dots p @ [''*'']" using split_dots_append [of p "''*''"] by simp
  then show "topic_match (p @ ''.*'') (p @ CHR ''.'' # w)"
    using * match_plain_star [of "split_dots p" w] split_dots_plain [of p]
    by (simp add: topic_match_def split_dots_append split_dots_word)
next
  fix k :: string
  show "topic_match ''#'' k" by (simp add: topic_match_def match_hash)
qed

text \<open>The queues that a key reaches from an exchange, by the bindings of a setup.\<close>

definition routed :: "(string \<Rightarrow> string \<Rightarrow> bool) \<Rightarrow> amqp_call list \<Rightarrow> string \<Rightarrow> string \<Rightarrow> string list" where
  "routed tm calls exch key =
    concat (map (\<lambda>c. case c of QueueBind q p x \<Rightarrow> (if x = exch \<and> tm p key then [q] else []) | _ \<Rightarrow> []) calls)"

abbreviation worker_setup :: "amqp_call list" where
  "worker_setup \<equiv> writer_setup @ alert_setup"

text \<open>C35: audit events reach the right queues. With the bindings that the worker declares, the routing key of every
  valid event reaches the persist queue, it reaches the alerting queue exactly when the call was denied or rate
  limited, and whatever the persist queue rejects reaches the dead-letter queue.\<close>

theorem audit_events_are_routed:
  assumes "topic_ok tm" and "Validate_event e = None"
  shows "QueuePersist \<in> set (routed tm worker_setup ExchangeAudit (RoutingKey (event_Outcome e))) \<and>
    (QueueAlerting \<in> set (routed tm worker_setup ExchangeAudit (RoutingKey (event_Outcome e))) \<longleftrightarrow>
      event_Outcome e = OutcomeDenied \<or> event_Outcome e = OutcomeRateLimited) \<and>
    QueueDeclare QueuePersist (Some ExchangeDLX) \<in> set worker_setup \<and>
    QueueDLQ \<in> set (routed tm worker_setup ExchangeDLX (RoutingKey (event_Outcome e)))"
proof -
  let ?o = "event_Outcome e"
  have valid: "?o \<in> {OutcomeAllowed, OutcomeDenied, OutcomeRateLimited, OutcomeError}"
    using assms(2) by (simp add: Validate_event_def split: if_splits)
  then have "CHR ''.'' \<notin> set ?o" by (auto simp: outcome_defs)
  then have star: "tm ''audit.*'' (''audit.'' @ ?o)"
    using assms(1) [unfolded topic_ok_def, THEN conjunct2, THEN conjunct1, rule_format, of "''audit''" ?o]
    by (simp add: wild_def)
  have denied: "tm ''audit.denied'' (''audit.'' @ ?o) \<longleftrightarrow> ?o = OutcomeDenied"
    using assms(1) [unfolded topic_ok_def, THEN conjunct1, rule_format, of "''audit.denied''" "''audit.'' @ ?o"]
    by (auto simp: wild_def OutcomeDenied_def)
  have limited: "tm ''audit.rate_limited'' (''audit.'' @ ?o) \<longleftrightarrow> ?o = OutcomeRateLimited"
    using assms(1) [unfolded topic_ok_def, THEN conjunct1, rule_format, of "''audit.rate_limited''" "''audit.'' @ ?o"]
    by (auto simp: wild_def OutcomeRateLimited_def)
  have hash: "tm ''#'' k" for k using assms(1) by (simp add: topic_ok_def)
  show ?thesis
    using star denied limited hash
    by (simp add: routed_def writer_setup_def alert_setup_def RoutingKey_eq RoutingKeyAll_def RoutingKeyDenied_def
        RoutingKeyRateLimited_def ExchangeAudit_def ExchangeDLX_def QueuePersist_def QueueAlerting_def QueueDLQ_def)
qed

theorem audit_events_are_routed_witness:
  "QueueAlerting \<notin> set (routed topic_match worker_setup ExchangeAudit ''audit.allowed'')"
  using audit_events_are_routed [OF topic_match_ok, of demo_event]
  by (simp add: demo_event_def NewEvent_def Validate_event_def outcome_defs RoutingKey_eq)

section \<open>Setting it up\<close>

text \<open>When a broker accepts a call, given the exchanges and queues that exist, and what the call adds to them.\<close>

definition ready :: "string set \<Rightarrow> string set \<Rightarrow> amqp_call \<Rightarrow> bool" where
  "ready xs qs c = (case c of
      QueueBind q p x \<Rightarrow> q \<in> qs \<and> x \<in> xs
    | Consume q tag \<Rightarrow> q \<in> qs
    | _ \<Rightarrow> True)"

definition new_exchanges :: "amqp_call \<Rightarrow> string set" where
  "new_exchanges c = (case c of ExchangeDeclare x \<Rightarrow> {x} | _ \<Rightarrow> {})"

definition new_queues :: "amqp_call \<Rightarrow> string set" where
  "new_queues c = (case c of QueueDeclare q dlx \<Rightarrow> {q} | _ \<Rightarrow> {})"

locale amqp_broker =
  fixes br :: "'b broker"
    and exchanges :: "'b \<Rightarrow> string set"
    and queues :: "'b \<Rightarrow> string set"
  assumes accepts: "ready (exchanges b) (queues b) c \<Longrightarrow> \<exists>b'. br c b = (True, b')"
    and declared: "br c b = (True, b') \<Longrightarrow>
      exchanges b' = exchanges b \<union> new_exchanges c \<and> queues b' = queues b \<union> new_queues c"

fun well_ordered :: "string set \<Rightarrow> string set \<Rightarrow> amqp_call list \<Rightarrow> bool" where
  "well_ordered xs qs [] = True"
| "well_ordered xs qs (c # cs) =
    (ready xs qs c \<and> well_ordered (xs \<union> new_exchanges c) (qs \<union> new_queues c) cs)"

context amqp_broker
begin

lemma run_setup_succeeds:
  "well_ordered (exchanges b) (queues b) cs \<Longrightarrow> \<exists>b'. run_setup br cs b = (None, b') \<and>
    exchanges b' = exchanges b \<union> (\<Union>c \<in> set cs. new_exchanges c) \<and>
    queues b' = queues b \<union> (\<Union>c \<in> set cs. new_queues c)"
proof (induction cs arbitrary: b)
  case (Cons c cs)
  then obtain b1 where c: "br c b = (True, b1)" using accepts [of b c] by auto
  then show ?case using Cons.IH [of b1] Cons.prems declared [OF c] by (auto simp: Un_assoc)
qed simp

lemma connect_succeeds:
  assumes "well_ordered (exchanges b) (queues b) cs"
  shows "\<exists>b'. connect br cs b = (None, b') \<and>
    exchanges b' = exchanges b \<union> (\<Union>c \<in> set cs. new_exchanges c) \<and>
    queues b' = queues b \<union> (\<Union>c \<in> set cs. new_queues c)"
proof -
  obtain b1 where b1: "br Dial b = (True, b1)" using accepts [of b Dial] by (auto simp: ready_def)
  obtain b2 where b2: "br OpenChannel b1 = (True, b2)" using accepts [of b1 OpenChannel] by (auto simp: ready_def)
  have "exchanges b2 = exchanges b" "queues b2 = queues b"
    using declared [OF b1] declared [OF b2] by (simp_all add: new_exchanges_def new_queues_def)
  then show ?thesis using assms run_setup_succeeds [of b2 cs] b1 b2 by (simp add: connect_def)
qed

lemma worker_ready:
  "\<exists>b'. worker_start br True True b = (None, b') \<and>
    {ExchangeAudit, ExchangeDLX} \<subseteq> exchanges b' \<and> {QueuePersist, QueueDLQ, QueueAlerting} \<subseteq> queues b'"
proof -
  note defs = ready_def new_exchanges_def new_queues_def
  have "well_ordered (exchanges b) (queues b) writer_setup" by (simp add: writer_setup_def defs)
  then obtain b1 where b1: "NewWriter br b = (None, b1)"
    and x1: "{ExchangeAudit, ExchangeDLX} \<subseteq> exchanges b1" "{QueuePersist, QueueDLQ} \<subseteq> queues b1"
    using connect_succeeds [of b writer_setup] by (auto simp: NewWriter_def writer_setup_def defs)
  obtain b2 where b2: "Writer_Start br b1 = (True, b2)"
    using accepts [of b1] x1 by (fastforce simp: Writer_Start_def ready_def)
  then have x2: "exchanges b2 = exchanges b1" "queues b2 = queues b1"
    using declared [OF b2 [unfolded Writer_Start_def]] by (simp_all add: defs)
  have "well_ordered (exchanges b2) (queues b2) alert_setup" using x1 x2 by (simp add: alert_setup_def defs)
  then obtain b3 where b3: "NewAlertConsumer br b2 = (None, b3)"
    and x3: "exchanges b2 \<subseteq> exchanges b3" "insert QueueAlerting (queues b2) \<subseteq> queues b3"
    using connect_succeeds [of b2 alert_setup] by (auto simp: NewAlertConsumer_def alert_setup_def defs)
  obtain b4 where b4: "Alert_Start br b3 = (True, b4)"
    using accepts [of b3] x3 by (fastforce simp: Alert_Start_def ready_def)
  then have "exchanges b4 = exchanges b3" "queues b4 = queues b3"
    using declared [OF b4 [unfolded Alert_Start_def]] by (simp_all add: defs)
  then show ?thesis using b1 b2 b3 b4 x1 x2 x3 by (auto simp: worker_start_def)
qed

end

text \<open>A broker in memory, which refuses to bind or to consume what was not declared.\<close>

definition mem_broker :: "(string list \<times> string list) broker" where
  "mem_broker c b = (case c of
      ExchangeDeclare x \<Rightarrow> (True, (x # fst b, snd b))
    | QueueDeclare q dlx \<Rightarrow> (True, (fst b, q # snd b))
    | QueueBind q p x \<Rightarrow> (q \<in> set (snd b) \<and> x \<in> set (fst b), b)
    | Consume q tag \<Rightarrow> (q \<in> set (snd b), b)
    | _ \<Rightarrow> (True, b))"

interpretation mem_topology: amqp_broker mem_broker "\<lambda>b. set (fst b)" "\<lambda>b. set (snd b)"
  by unfold_locales
    (auto simp: mem_broker_def ready_def new_exchanges_def new_queues_def split: amqp_call.splits)

text \<open>The worker starts on any broker, an empty one included. It declares every exchange and every queue before
  it binds or consumes it (the alerting consumer relies on the exchange that the writer declares before it), so a
  broker that accepts such calls lets it start, and afterwards the whole topology exists.\<close>

theorem worker_starts_on_any_broker:
  assumes "amqp_broker br exchanges queues"
  shows "\<exists>b'. worker_start br True True b = (None, b') \<and>
    {ExchangeAudit, ExchangeDLX} \<subseteq> exchanges b' \<and> {QueuePersist, QueueDLQ, QueueAlerting} \<subseteq> queues b'"
  by (rule amqp_broker.worker_ready [OF assms])

theorem worker_starts_on_any_broker_witness:
  "fst (worker_start mem_broker True True ([], [])) = None"
  using worker_starts_on_any_broker [OF mem_topology.amqp_broker_axioms, of "([], [])"] by auto

section \<open>Failures of the setup\<close>

text \<open>A broker that also records the calls.\<close>

definition traced :: "'b broker \<Rightarrow> ('b \<times> amqp_call list) broker" where
  "traced br c b = (case br c (fst b) of (ok, b') \<Rightarrow> (ok, (b', snd b @ [c])))"

lemma traced_app [simp]: "traced br c (b, tr) = (fst (br c b), snd (br c b), tr @ [c])"
  by (simp add: traced_def case_prod_unfold)

lemma traced_setup:
  "run_setup (traced br) cs (b, tr) = (None, b', tr') \<Longrightarrow> tr' = tr @ cs"
proof (induction cs arbitrary: b tr)
  case (Cons c cs)
  then show ?case using Cons.IH [of "snd (br c b)" "tr @ [c]"] by (simp split: if_splits)
qed simp

lemma traced_setup_failed:
  "run_setup (traced br) cs (b, tr) = (Some c, b', tr') \<Longrightarrow>
    \<exists>pre post. cs = pre @ c # post \<and> tr' = tr @ pre @ [c, CloseChannel, CloseConn]"
proof (induction cs arbitrary: b tr)
  case (Cons a cs)
  show ?case
  proof (cases "fst (br a b)")
    case True
    then have "run_setup (traced br) cs (snd (br a b), tr @ [a]) = (Some c, b', tr')"
      using Cons.prems by simp
    from Cons.IH [OF this] obtain pre post where "cs = pre @ c # post" "tr' = (tr @ [a]) @ pre @ [c, CloseChannel, CloseConn]"
      by blast
    then show ?thesis by (intro exI [of _ "a # pre"] exI [of _ post]) simp
  next
    case False
    then show ?thesis using Cons.prems by auto
  qed
qed simp

text \<open>A setup runs in order or cleans up. When the setup of the publisher, the writer or the alerting consumer
  succeeds, it has made exactly its calls, in order, on one channel of one connection; when a call fails, the calls
  before it were made in order, and then the channel and the connection are closed and nothing else is done.\<close>

theorem setup_in_order_or_closed:
  assumes "connect (traced br) cs (b, []) = (r, b', tr)"
  shows "case r of
      None \<Rightarrow> tr = Dial # OpenChannel # cs
    | Some c \<Rightarrow> (c, tr) = (Dial, [Dial]) \<or> (c, tr) = (OpenChannel, [Dial, OpenChannel, CloseConn]) \<or>
        (\<exists>pre post. cs = pre @ c # post \<and> tr = Dial # OpenChannel # pre @ [c, CloseChannel, CloseConn])"
proof (cases "fst (br Dial b)")
  case dialled: True
  show ?thesis
  proof (cases "fst (br OpenChannel (snd (br Dial b)))")
    case True
    let ?b = "snd (br OpenChannel (snd (br Dial b)))"
    have "run_setup (traced br) cs (?b, [Dial, OpenChannel]) = (r, b', tr)"
      using assms dialled True by (simp add: connect_def)
    then show ?thesis using traced_setup [of br cs ?b] traced_setup_failed [of br cs ?b] by (cases r) fastforce+
  next
    case False
    then show ?thesis using assms dialled by (auto simp: connect_def)
  qed
next
  case False
  then show ?thesis using assms by (auto simp: connect_def)
qed

theorem setup_in_order_or_closed_witness:
  "snd (snd (connect (traced mem_broker) alert_setup (([], []), []))) =
    [Dial, OpenChannel, QueueDeclare QueueAlerting None, QueueBind QueueAlerting RoutingKeyDenied ExchangeAudit,
      CloseChannel, CloseConn]"
proof -
  obtain r b' tr where c: "connect (traced mem_broker) alert_setup (([], []), []) = (r, b', tr)" by (metis prod_cases3)
  have r: "r = Some (QueueBind QueueAlerting RoutingKeyDenied ExchangeAudit)"
    using c by (simp add: connect_def mem_broker_def alert_setup_def)
  show ?thesis
    using setup_in_order_or_closed [OF c] c unfolding r
    by (auto simp: alert_setup_def RoutingKeyDenied_def RoutingKeyRateLimited_def Cons_eq_append_conv)
qed

end
