(* ===== verification/Proxy.thy ===== *)
theory Proxy
  imports Auth_Props Store_Props Ratelimit Audit_Publisher
begin

text \<open>
  The proxy (\<^verbatim>\<open>cmd/proxy/main.go\<close>): the life of one MCP request, from its bytes to the reply, over the components it
  is built from. The record \<open>gateway\<close> holds these components, as \<^verbatim>\<open>makeProxyHandler\<close> takes them: the queries, the
  token manager, the policy engine, the limiter, the forwarder, the publisher. The record \<open>world\<close> holds what they
  change: the strings and the sorted sets of Redis (two parts of one server: their keys are in different
  namespaces), the database, the outside network, the publisher, and the cache writes that evaluations have started.

  What the environment contributes to one request is the record \<open>moment\<close>: the times at which its steps run, the
  connection of the limiter's call, and the fresh event id. The texts of the standard library that appear in
  messages only (\<^verbatim>\<open>%q\<close>, the error of the JSON decoder, the error of the forwarder) are functions of the record \<open>gateway\<close>.
\<close>

section \<open>The components and the world\<close>

record ('r, 'z, 'd, 'w, 'p) gateway =
  gw_queries :: "'d querier"
  gw_tokens :: "'r token_manager"
  gw_engine :: "('r, 'd) engine"
  gw_limiter :: "'z zredis"
  gw_resolve :: "string \<Rightarrow> resolve_error + string"
  gw_url_ok :: "string \<Rightarrow> bool"
  gw_http :: "'w http_client"
  gw_publish :: "Event \<Rightarrow> 'p \<Rightarrow> publish_error option \<times> 'p"
  gw_scan :: "string \<Rightarrow> uuid option"
  gw_f64 :: "string \<Rightarrow> string option"
  gw_quoted :: "string \<Rightarrow> string"
  gw_json_error :: "string \<Rightarrow> string"
  gw_forward_error :: "forward_error \<Rightarrow> string"

record ('r, 'z, 'd, 'w, 'p) world =
  w_redis :: 'r
  w_zsets :: 'z
  w_store :: 'd
  w_net :: 'w
  w_pub :: 'p
  w_jobs :: "cache_job list"

record moment =
  mo_start :: int
  mo_token :: int
  mo_policy :: int
  mo_limit :: int
  mo_link :: link
  mo_end :: int
  mo_event :: int
  mo_fresh :: string

record http_in =
  in_authorization :: string
  in_body :: string

record http_out =
  out_headers :: "(string \<times> string) list"
  out_body :: string

section \<open>Replies\<close>

text \<open>\<^verbatim>\<open>Encode\<close> writes nothing when a raw message in the value is not JSON, and otherwise the text and a newline.\<close>

definition response_ok :: "Response \<Rightarrow> bool" where
  "response_ok x \<longleftrightarrow> raw_ok (resp_ID x) \<and> raw_ok (resp_Result x) \<and>
    (case resp_Error x of None \<Rightarrow> True | Some e \<Rightarrow> raw_ok (err_Data e))"

definition writeJSON :: "(string \<times> string) list \<Rightarrow> Response \<Rightarrow> http_out" where
  "writeJSON headers x =
    \<lparr>out_headers = set_header ''Content-Type'' ''application/json'' headers,
     out_body = (if response_ok x then response_text x @ [CHR 0x0A] else [])\<rparr>"

definition writeRPCError :: "(string \<times> string) list \<Rightarrow> string \<Rightarrow> 64 word \<Rightarrow> string \<Rightarrow> http_out" where
  "writeRPCError headers rid ec msg = writeJSON headers (ErrorResponse rid ec msg)"

section \<open>Reading the request\<close>

definition extractBearer :: "string \<Rightarrow> string option" where
  "extractBearer h =
    (case cut_prefix h ''Bearer '' of None \<Rightarrow> None | Some tok \<Rightarrow> if tok = [] then None else Some tok)"

record call_args =
  ca_Server :: string
  ca_Name :: string
  ca_Arguments :: json_map

definition zero_call_args :: call_args where
  "zero_call_args = \<lparr>ca_Server = [], ca_Name = [], ca_Arguments = None\<rparr>"

definition call_args_field :: "(string \<Rightarrow> string option) \<Rightarrow> string \<Rightarrow> string \<Rightarrow> call_args \<Rightarrow> call_args option" where
  "call_args_field f64 k raw x =
    (if k = ''SERVER'' then map_option (\<lambda>v. x\<lparr>ca_Server := v\<rparr>) (dec_string raw (ca_Server x))
     else if k = ''NAME'' then map_option (\<lambda>v. x\<lparr>ca_Name := v\<rparr>) (dec_string raw (ca_Name x))
     else if k = ''ARGUMENTS'' then map_option (\<lambda>v. x\<lparr>ca_Arguments := v\<rparr>) (dec_map f64 raw (ca_Arguments x))
     else Some x)"

text \<open>The server, the tool and the clean parameters; or the text of the error.\<close>

definition parseToolCall ::
  "('r, 'z, 'd, 'w, 'p) gateway \<Rightarrow> Request \<Rightarrow> string + string \<times> string \<times> string" where
  "parseToolCall g req =
    (if req_Method req \<noteq> ''tools/call''
     then Inl (''proxy only handles tools/call, got '' @ gw_quoted g (req_Method req))
     else case unmarshal (dec_struct (call_args_field (gw_f64 g))) zero_call_args (req_Params req) of
       None \<Rightarrow> Inl (''invalid params: '' @ gw_json_error g (req_Params req))
     | Some p \<Rightarrow>
       if ca_Server p = [] then Inl ''params.server is required''
       else if ca_Name p = [] then Inl ''params.name is required''
       else Inr (ca_Server p, ca_Name p,
         call_params_text \<lparr>call_Name = ca_Name p, call_Arguments = ca_Arguments p\<rparr>))"

section \<open>Steps 2 to 4: the caller and the server\<close>

type_synonym rejection = "64 word \<times> string"

definition authenticate ::
  "('r, 'z, 'd, 'w, 'p) gateway \<Rightarrow> moment \<Rightarrow> string \<Rightarrow> 'r \<Rightarrow> 'd \<Rightarrow> (rejection + string \<times> User) \<times> 'd" where
  "authenticate g mo header r d =
    (case extractBearer header of
      None \<Rightarrow> (Inl (CodeUnauthorized, ''authorization required''), d)
    | Some rawToken \<Rightarrow>
      (case Validate (gw_tokens g) rawToken (mo_token mo) r of
        Inl err \<Rightarrow>
          (if err = ErrTokenNotFound \<or> err = ErrTokenInvalid
           then (Inl (CodeUnauthorized, ''invalid or expired token''), d)
           else (Inl (CodeInternalError, ''internal error''), d))
      | Inr userID \<Rightarrow>
        (case gw_scan g userID of
          None \<Rightarrow> (Inl (CodeInternalError, ''internal error''), d)
        | Some userUUID \<Rightarrow>
          (case q_GetUser (gw_queries g) userUUID d of
            (Inl err, d') \<Rightarrow>
              (if err = NoRows then (Inl (CodeUnauthorized, ''user not found or deactivated''), d')
               else (Inl (CodeInternalError, ''internal error''), d'))
          | (Inr user, d') \<Rightarrow>
              (if user_active user then (Inr (userID, user), d')
               else (Inl (CodeUnauthorized, ''user account is deactivated''), d'))))))"

definition find_server ::
  "('r, 'z, 'd, 'w, 'p) gateway \<Rightarrow> Request \<Rightarrow> 'd \<Rightarrow> (rejection + string \<times> string \<times> DownstreamServer) \<times> 'd" where
  "find_server g req d =
    (case parseToolCall g req of
      Inl msg \<Rightarrow> (Inl (CodeInvalidParams, msg), d)
    | Inr (serverName, toolName, toolParams) \<Rightarrow>
      (case q_GetDownstreamServerByName (gw_queries g) serverName d of
        (Inl err, d') \<Rightarrow>
          (if err = NoRows then (Inl (CodeInvalidParams, ''unknown downstream server: '' @ serverName), d')
           else (Inl (CodeInternalError, ''internal error''), d'))
      | (Inr downstream, d') \<Rightarrow>
          (if srv_active downstream then (Inr (toolName, toolParams, downstream), d')
           else (Inl (CodeForbidden, ''downstream server is inactive''), d'))))"

section \<open>Steps 5 to 8: the decision, the call, the redaction\<close>

text \<open>The latency of the call in milliseconds, cut to 32 bits; the clock of \<^verbatim>\<open>time.Since\<close> is monotonic.\<close>

definition latency :: "moment \<Rightarrow> 32 word" where
  "latency mo = word_of_int ((mo_end mo - mo_start mo) div 1000000)"

definition publish_event ::
  "('r, 'z, 'd, 'w, 'p) gateway \<Rightarrow> moment \<Rightarrow> string \<Rightarrow> string \<Rightarrow> string \<Rightarrow> string \<Rightarrow> string \<Rightarrow> string \<Rightarrow>
    ('r, 'z, 'd, 'w, 'p) world \<Rightarrow> ('r, 'z, 'd, 'w, 'p) world" where
  "publish_event g mo userID serverID tool outcome params summary w =
    w\<lparr>w_pub := snd (gw_publish g
      (NewEvent (mo_fresh mo) (mo_event mo) userID serverID tool outcome params summary (Some (latency mo))) (w_pub w))\<rparr>"

definition redact_response :: "(string \<Rightarrow> string option) \<Rightarrow> string list \<Rightarrow> Response \<Rightarrow> Response" where
  "redact_response f64 flds resp =
    (if resp_Result resp \<noteq> [] \<and> flds \<noteq> [] then
       (case unmarshal dec_tool_result zero_ToolResult (resp_Result resp) of
         None \<Rightarrow> resp
       | Some toolResult \<Rightarrow> resp\<lparr>resp_Result := tool_result_text (Mcp.RedactFields f64 toolResult flds)\<rparr>)
     else resp)"

definition limit_headers :: "Result \<Rightarrow> (string \<times> string) list" where
  "limit_headers rl = set_header ''X-Ratelimit-Remaining'' (int_text (Remaining rl))
    (set_header ''X-Ratelimit-Limit'' (int_text (res_Limit rl)) [])"

definition forward_call ::
  "('r, 'z, 'd, 'w, 'p) gateway \<Rightarrow> moment \<Rightarrow> string \<Rightarrow> string \<Rightarrow> string \<Rightarrow> string \<Rightarrow> DownstreamServer \<Rightarrow> string list \<Rightarrow>
    ('r, 'z, 'd, 'w, 'p) world \<Rightarrow> http_out \<times> ('r, 'z, 'd, 'w, 'p) world" where
  "forward_call g mo rid userID tool params srv flds w =
    (let serverID = format_uuid (srv_id srv);
         forwardReq = \<lparr>req_JSONRPC = ''2.0'', req_ID = rid, req_Method = ''tools/call'', req_Params = params\<rparr>
     in case Forward (gw_resolve g) (gw_url_ok g) (gw_http g) (srv_base_url srv) (srv_auth_type srv) (srv_secret_ref srv)
         forwardReq (w_net w) of
       (Inl err, net) \<Rightarrow>
         (writeRPCError [] rid CodeUpstreamError ''downstream server error'',
          publish_event g mo userID serverID tool OutcomeError (RedactJSONBytes (gw_f64 g) params flds)
            (object_text [(''error'', quote (gw_forward_error g err))]) (w\<lparr>w_net := net\<rparr>))
     | (Inr downstreamResp, net) \<Rightarrow>
         (let resp = redact_response (gw_f64 g) flds downstreamResp
          in (writeJSON [] resp,
              publish_event g mo userID serverID tool OutcomeAllowed (RedactJSONBytes (gw_f64 g) params flds)
                (resp_Result resp) (w\<lparr>w_net := net\<rparr>))))"

definition decide_call ::
  "('r, 'z, 'd, 'w, 'p) gateway \<Rightarrow> moment \<Rightarrow> string \<Rightarrow> string \<Rightarrow> User \<Rightarrow> string \<Rightarrow> string \<Rightarrow> DownstreamServer \<Rightarrow>
    ('r, 'z, 'd, 'w, 'p) world \<Rightarrow> http_out \<times> ('r, 'z, 'd, 'w, 'p) world" where
  "decide_call g mo rid userID user tool params srv w =
    (let roleID = format_uuid (user_role user);
         serverID = format_uuid (srv_id srv)
     in case Evaluate (gw_scan g) (gw_engine g) roleID serverID tool (mo_policy mo) (w_redis w) (w_store w) of
       (ev, d) \<Rightarrow>
         (let decision = ev_decision ev;
              flds = Decision.RedactFields decision;
              w1 = w\<lparr>w_store := d, w_jobs := w_jobs w @ (case ev_job ev of None \<Rightarrow> [] | Some job \<Rightarrow> [job])\<rparr>
          in if \<not> Allowed decision then
               (writeRPCError [] rid CodeForbidden ''tool call denied by policy'',
                publish_event g mo userID serverID tool OutcomeDenied (RedactJSONBytes (gw_f64 g) params flds) [] w1)
             else case Allow (gw_limiter g) (mo_link mo) userID serverID (MaxCallsPerMinute decision) (mo_limit mo) (w_zsets w1) of
               (err, rl, z) \<Rightarrow>
                 (let w2 = w1\<lparr>w_zsets := z\<rparr>
                  in if err then (writeRPCError [] rid CodeRateLimited ''service temporarily unavailable'', w2)
                     else if \<not> res_Allowed rl then
                       (writeRPCError (limit_headers rl) rid CodeRateLimited ''rate limit exceeded'',
                        publish_event g mo userID serverID tool OutcomeRateLimited
                          (RedactJSONBytes (gw_f64 g) params flds) [] w2)
                     else forward_call g mo rid userID tool params srv flds w2)))"

section \<open>The handler\<close>

definition proxy_handler ::
  "('r, 'z, 'd, 'w, 'p) gateway \<Rightarrow> moment \<Rightarrow> http_in \<Rightarrow> ('r, 'z, 'd, 'w, 'p) world \<Rightarrow>
    http_out \<times> ('r, 'z, 'd, 'w, 'p) world" where
  "proxy_handler g mo inp w =
    (case decode dec_request zero_Request (in_body inp) of
      None \<Rightarrow> (writeRPCError [] [] CodeParseError ''parse error'', w)
    | Some req \<Rightarrow>
      (case authenticate g mo (in_authorization inp) (w_redis w) (w_store w) of
        (Inl (ec, msg), d) \<Rightarrow> (writeRPCError [] (req_ID req) ec msg, w\<lparr>w_store := d\<rparr>)
      | (Inr (userID, user), d) \<Rightarrow>
        (case find_server g req d of
          (Inl (ec, msg), d') \<Rightarrow> (writeRPCError [] (req_ID req) ec msg, w\<lparr>w_store := d'\<rparr>)
        | (Inr (tool, params, srv), d') \<Rightarrow>
          decide_call g mo (req_ID req) userID user tool params srv (w\<lparr>w_store := d'\<rparr>))))"

definition healthzHandler :: http_out where
  "healthzHandler =
    \<lparr>out_headers = set_header ''Content-Type'' ''application/json'' [],
     out_body = object_text [(''status'', quote ''ok''), (''service'', quote ''proxy'')] @ [CHR 0x0A]\<rparr>"

end
