(* ===== verification/Proxy_Props.thy ===== *)
theory Proxy_Props
  imports Proxy
begin

text \<open>
  Properties of the proxy as a whole. \<open>handler_cases\<close> and \<open>decide_call_cases\<close> list the ways a request can go; the
  properties read off from them what has happened before a downstream server sees anything.
\<close>

section \<open>The ways of a request\<close>

text \<open>The request that is sent on.\<close>

definition forwarded_request :: "string \<Rightarrow> string \<Rightarrow> Request" where
  "forwarded_request rid params =
    \<lparr>req_JSONRPC = ''2.0'', req_ID = rid, req_Method = ''tools/call'', req_Params = params\<rparr>"

definition forwarding ::
  "('r, 'z, 'd, 'w, 'p) gateway \<Rightarrow> DownstreamServer \<Rightarrow> string \<Rightarrow> string \<Rightarrow> 'w \<Rightarrow> (forward_error + Response) \<times> 'w" where
  "forwarding g srv rid params net = Forward (gw_resolve g) (gw_url_ok g) (gw_http g) (srv_base_url srv) (srv_auth_type srv)
    (srv_secret_ref srv) (forwarded_request rid params) net"

definition event_of ::
  "('r, 'z, 'd, 'w, 'p) gateway \<Rightarrow> moment \<Rightarrow> string \<Rightarrow> DownstreamServer \<Rightarrow> string \<Rightarrow> string \<Rightarrow> string \<Rightarrow> string list \<Rightarrow> string \<Rightarrow> Event" where
  "event_of g mo userID srv tool outcome params flds summary =
    NewEvent (mo_fresh mo) (mo_event mo) userID (format_uuid (srv_id srv)) tool outcome
      (RedactJSONBytes (gw_f64 g) params flds) summary (Some (latency mo))"

lemma publish_event_world:
  "w_net (publish_event g mo u s t oc ps sm w) = w_net w"
  "w_pub (publish_event g mo u s t oc ps sm w) =
    snd (gw_publish g (NewEvent (mo_fresh mo) (mo_event mo) u s t oc ps sm (Some (latency mo))) (w_pub w))"
  "w_store (publish_event g mo u s t oc ps sm w) = w_store w"
  "w_redis (publish_event g mo u s t oc ps sm w) = w_redis w"
  by (simp_all add: publish_event_def)

lemma forward_call_eq:
  "forward_call g mo rid userID tool params srv flds w =
    (case forwarding g srv rid params (w_net w) of
      (Inl err, net) \<Rightarrow>
        (writeRPCError [] rid CodeUpstreamError ''downstream server error'',
         publish_event g mo userID (format_uuid (srv_id srv)) tool OutcomeError (RedactJSONBytes (gw_f64 g) params flds)
           (object_text [(''error'', quote (gw_forward_error g err))]) (w\<lparr>w_net := net\<rparr>))
    | (Inr resp, net) \<Rightarrow>
        (writeJSON [] (redact_response (gw_f64 g) flds resp),
         publish_event g mo userID (format_uuid (srv_id srv)) tool OutcomeAllowed (RedactJSONBytes (gw_f64 g) params flds)
           (resp_Result (redact_response (gw_f64 g) flds resp)) (w\<lparr>w_net := net\<rparr>)))"
  unfolding forward_call_def forwarding_def forwarded_request_def Let_def ..

lemma forward_call_cases:
  assumes "forward_call g mo rid userID tool params srv flds w = (out, w')"
  obtains (failed) err net where "forwarding g srv rid params (w_net w) = (Inl err, net)"
      "out = writeRPCError [] rid CodeUpstreamError ''downstream server error''" "w_net w' = net"
      "w_pub w' = snd (gw_publish g (event_of g mo userID srv tool OutcomeError params flds
        (object_text [(''error'', quote (gw_forward_error g err))])) (w_pub w))"
      "w_redis w' = w_redis w" "w_store w' = w_store w"
    | (answered) resp net where "forwarding g srv rid params (w_net w) = (Inr resp, net)"
      "out = writeJSON [] (redact_response (gw_f64 g) flds resp)" "w_net w' = net"
      "w_pub w' = snd (gw_publish g (event_of g mo userID srv tool OutcomeAllowed params flds
        (resp_Result (redact_response (gw_f64 g) flds resp))) (w_pub w))"
      "w_redis w' = w_redis w" "w_store w' = w_store w"
proof -
  obtain r net where f: "forwarding g srv rid params (w_net w) = (r, net)" by fastforce
  show ?thesis
  proof (cases r)
    case (Inl err)
    then show ?thesis
      using f assms failed [of err net]
      by (auto simp: forward_call_eq event_of_def publish_event_world)
  next
    case (Inr resp)
    then show ?thesis
      using f assms answered [of resp net]
      by (auto simp: forward_call_eq event_of_def publish_event_world)
  qed
qed

text \<open>The policy decision and the limiter's decision of a request.\<close>

definition evaluated ::
  "('r, 'z, 'd, 'w, 'p) gateway \<Rightarrow> moment \<Rightarrow> User \<Rightarrow> DownstreamServer \<Rightarrow> string \<Rightarrow> 'r \<Rightarrow> 'd \<Rightarrow> evaluation \<times> 'd" where
  "evaluated g mo user srv tool r d = Evaluate (gw_scan g) (gw_engine g) (format_uuid (user_role user))
    (format_uuid (srv_id srv)) tool (mo_policy mo) r d"

definition limiting ::
  "('r, 'z, 'd, 'w, 'p) gateway \<Rightarrow> moment \<Rightarrow> string \<Rightarrow> DownstreamServer \<Rightarrow> Decision \<Rightarrow> 'z \<Rightarrow> bool \<times> Result \<times> 'z" where
  "limiting g mo userID srv dec z =
    Allow (gw_limiter g) (mo_link mo) userID (format_uuid (srv_id srv)) (MaxCallsPerMinute dec) (mo_limit mo) z"

lemma decide_call_eq:
  assumes "evaluated g mo user srv tool (w_redis w) (w_store w) = (ev, d)"
    and "limiting g mo userID srv (ev_decision ev) (w_zsets w) = (err, rl, z)"
    and "w1 = w\<lparr>w_store := d, w_jobs := w_jobs w @ (case ev_job ev of None \<Rightarrow> [] | Some job \<Rightarrow> [job])\<rparr>"
  shows "decide_call g mo rid userID user tool params srv w =
    (if \<not> Allowed (ev_decision ev) then
       (writeRPCError [] rid CodeForbidden ''tool call denied by policy'',
        publish_event g mo userID (format_uuid (srv_id srv)) tool OutcomeDenied
          (RedactJSONBytes (gw_f64 g) params (Decision.RedactFields (ev_decision ev))) [] w1)
     else if err then
       (writeRPCError [] rid CodeRateLimited ''service temporarily unavailable'', w1\<lparr>w_zsets := z\<rparr>)
     else if \<not> res_Allowed rl then
       (writeRPCError (limit_headers rl) rid CodeRateLimited ''rate limit exceeded'',
        publish_event g mo userID (format_uuid (srv_id srv)) tool OutcomeRateLimited
          (RedactJSONBytes (gw_f64 g) params (Decision.RedactFields (ev_decision ev))) [] (w1\<lparr>w_zsets := z\<rparr>))
     else forward_call g mo rid userID tool params srv (Decision.RedactFields (ev_decision ev)) (w1\<lparr>w_zsets := z\<rparr>))"
  using assms by (simp add: decide_call_def Let_def evaluated_def limiting_def)

lemma decide_call_cases:
  assumes "decide_call g mo rid userID user tool params srv w = (out, w')"
    and "evaluated g mo user srv tool (w_redis w) (w_store w) = (ev, d)"
    and "limiting g mo userID srv (ev_decision ev) (w_zsets w) = (err, rl, z)"
  obtains (denied) "\<not> Allowed (ev_decision ev)" "out = writeRPCError [] rid CodeForbidden ''tool call denied by policy''"
      "w_net w' = w_net w"
      "w_pub w' = snd (gw_publish g (event_of g mo userID srv tool OutcomeDenied params
        (Decision.RedactFields (ev_decision ev)) []) (w_pub w))"
    | (fault) "Allowed (ev_decision ev)" err
      "out = writeRPCError [] rid CodeRateLimited ''service temporarily unavailable''"
      "w_net w' = w_net w" "w_pub w' = w_pub w"
    | (limited) "Allowed (ev_decision ev)" "\<not> err" "\<not> res_Allowed rl"
      "out = writeRPCError (limit_headers rl) rid CodeRateLimited ''rate limit exceeded''" "w_net w' = w_net w"
      "w_pub w' = snd (gw_publish g (event_of g mo userID srv tool OutcomeRateLimited params
        (Decision.RedactFields (ev_decision ev)) []) (w_pub w))"
    | (forwarded) w2 where "Allowed (ev_decision ev)" "\<not> err" "res_Allowed rl"
      "forward_call g mo rid userID tool params srv (Decision.RedactFields (ev_decision ev)) w2 = (out, w')"
      "w_net w2 = w_net w" "w_pub w2 = w_pub w"
proof -
  note eq = decide_call_eq [OF assms(2,3) refl, of rid params]
  consider "\<not> Allowed (ev_decision ev)" | "Allowed (ev_decision ev)" err
    | "Allowed (ev_decision ev)" "\<not> err" "\<not> res_Allowed rl" | "Allowed (ev_decision ev)" "\<not> err" "res_Allowed rl"
    by blast
  then show ?thesis
  proof cases
    case 1
    with assms(1) eq show ?thesis by (auto intro!: denied simp: event_of_def publish_event_world)
  next
    case 2
    with assms(1) eq show ?thesis by (auto intro!: fault)
  next
    case 3
    with assms(1) eq show ?thesis by (auto intro!: limited simp: event_of_def publish_event_world)
  next
    case 4
    with assms(1) eq show ?thesis by (auto intro!: forwarded)
  qed
qed

text \<open>A request that was decided and reached a server was allowed, and it is the one call to this server.\<close>

lemma decided_contact:
  assumes "decide_call g mo rid userID user tool params srv w = (out, w')"
    and "evaluated g mo user srv tool (w_redis w) (w_store w) = (ev, d)" and "w_net w' \<noteq> w_net w"
  shows "Allowed (ev_decision ev)" and "w_net w' = snd (forwarding g srv rid params (w_net w))"
proof -
  obtain err rl z where rl: "limiting g mo userID srv (ev_decision ev) (w_zsets w) = (err, rl, z)" by (metis prod_cases3)
  from assms(1,2) rl have "Allowed (ev_decision ev) \<and> w_net w' = snd (forwarding g srv rid params (w_net w))"
  proof (cases rule: decide_call_cases)
    case (forwarded w2)
    from forwarded(4) show ?thesis by (cases rule: forward_call_cases) (simp_all add: forwarded(1,5))
  qed (use assms(3) in simp_all)
  then show "Allowed (ev_decision ev)" and "w_net w' = snd (forwarding g srv rid params (w_net w))" by simp_all
qed

text \<open>A caller that was let in, and the server that was found for it.\<close>

definition caller ::
  "('r, 'z, 'd, 'w, 'p) gateway \<Rightarrow> moment \<Rightarrow> string \<Rightarrow> 'r \<Rightarrow> 'd \<Rightarrow> string \<Rightarrow> User \<Rightarrow> 'd \<Rightarrow> bool" where
  "caller g mo header r d userID user d' \<longleftrightarrow> (\<exists>tok uid. header = ''Bearer '' @ tok \<and> tok \<noteq> [] \<and>
    Validate (gw_tokens g) tok (mo_token mo) r = Inr userID \<and> gw_scan g userID = Some uid \<and>
    q_GetUser (gw_queries g) uid d = (Inr user, d') \<and> user_active user)"

definition target ::
  "('r, 'z, 'd, 'w, 'p) gateway \<Rightarrow> Request \<Rightarrow> 'd \<Rightarrow> string \<Rightarrow> string \<Rightarrow> DownstreamServer \<Rightarrow> 'd \<Rightarrow> bool" where
  "target g req d tool params srv d' \<longleftrightarrow> (\<exists>name. parseToolCall g req = Inr (name, tool, params) \<and>
    q_GetDownstreamServerByName (gw_queries g) name d = (Inr srv, d') \<and> srv_active srv)"

lemma authenticate_ok: "authenticate g mo header r d = (Inr (userID, user), d') \<Longrightarrow> caller g mo header r d userID user d'"
  by (auto simp: authenticate_def caller_def extractBearer_def cut_prefix_Some_iff
      split: option.splits sum.splits prod.splits if_splits)

lemma find_server_ok: "find_server g req d = (Inr (tool, params, srv), d') \<Longrightarrow> target g req d tool params srv d'"
  by (auto simp: find_server_def target_def split: sum.splits prod.splits if_splits)

lemma handler_cases:
  assumes "proxy_handler g mo inp w = (out, w')"
  obtains (rejected) rid ec msg d where "out = writeRPCError [] rid ec msg" "w' = w\<lparr>w_store := d\<rparr>"
      "decode dec_request zero_Request (in_body inp) = None \<and> rid = [] \<or>
        (\<exists>req. decode dec_request zero_Request (in_body inp) = Some req \<and> rid = req_ID req)"
    | (decided) req userID user d1 tool params srv d2 where
      "decode dec_request zero_Request (in_body inp) = Some req"
      "caller g mo (in_authorization inp) (w_redis w) (w_store w) userID user d1"
      "target g req d1 tool params srv d2"
      "decide_call g mo (req_ID req) userID user tool params srv (w\<lparr>w_store := d2\<rparr>) = (out, w')"
proof (cases "decode dec_request zero_Request (in_body inp)")
  case None
  with assms show ?thesis by (intro rejected [of "[]" CodeParseError "''parse error''" "w_store w"]) (auto simp: proxy_handler_def)
next
  case (Some req)
  obtain a d1 where a: "authenticate g mo (in_authorization inp) (w_redis w) (w_store w) = (a, d1)" by fastforce
  show ?thesis
  proof (cases a)
    case (Inl e)
    then show ?thesis
      using assms Some a by (intro rejected [of "req_ID req" "fst e" "snd e" d1]) (auto simp: proxy_handler_def split: prod.splits)
  next
    case u: (Inr u)
    obtain b d2 where b: "find_server g req d1 = (b, d2)" by fastforce
    show ?thesis
    proof (cases b)
      case (Inl e)
      then show ?thesis
        using assms Some a u b
        by (intro rejected [of "req_ID req" "fst e" "snd e" d2]) (auto simp: proxy_handler_def split: prod.splits)
    next
      case (Inr v)
      obtain userID user tool params srv where "u = (userID, user)" "v = (tool, params, srv)" by (metis prod_cases3 prod.collapse)
      then show ?thesis
        using assms Some a b u Inr authenticate_ok find_server_ok
        by (intro decided [of req userID user d1 tool params srv d2]) (auto simp: proxy_handler_def)
    qed
  qed
qed

section \<open>Before a server sees anything\<close>

text \<open>C2: nothing reaches a downstream server before every check has passed. When handling a request changes the
  outside world, the request was JSON, it carried a bearer token that the token manager validated to a user id,
  the user was found and is active, the named server was found and is active, the policy engine allowed the tool for
  the role of this user on this server, and the limiter allowed the call; and the outside world changed by exactly
  one \<open>Forward\<close> to that server.\<close>

theorem forwarded_only_after_all_checks:
  assumes "proxy_handler g mo inp w = (out, w')" and "w_net w' \<noteq> w_net w"
  shows "\<exists>req tok userID uid user d1 name tool params srv d2 ev d3 rl z.
    decode dec_request zero_Request (in_body inp) = Some req \<and>
    in_authorization inp = ''Bearer '' @ tok \<and> Validate (gw_tokens g) tok (mo_token mo) (w_redis w) = Inr userID \<and>
    gw_scan g userID = Some uid \<and> q_GetUser (gw_queries g) uid (w_store w) = (Inr user, d1) \<and> user_active user \<and>
    parseToolCall g req = Inr (name, tool, params) \<and>
    q_GetDownstreamServerByName (gw_queries g) name d1 = (Inr srv, d2) \<and> srv_active srv \<and>
    Evaluate (gw_scan g) (gw_engine g) (format_uuid (user_role user)) (format_uuid (srv_id srv)) tool (mo_policy mo)
      (w_redis w) d2 = (ev, d3) \<and> Allowed (ev_decision ev) \<and>
    Allow (gw_limiter g) (mo_link mo) userID (format_uuid (srv_id srv)) (MaxCallsPerMinute (ev_decision ev)) (mo_limit mo)
      (w_zsets w) = (False, rl, z) \<and> res_Allowed rl \<and>
    w_net w' = snd (Forward (gw_resolve g) (gw_url_ok g) (gw_http g) (srv_base_url srv) (srv_auth_type srv)
      (srv_secret_ref srv) \<lparr>req_JSONRPC = ''2.0'', req_ID = req_ID req, req_Method = ''tools/call'', req_Params = params\<rparr>
      (w_net w))"
  using assms(1)
proof (cases rule: handler_cases)
  case rejected
  then show ?thesis using assms(2) by simp
next
  case (decided req userID user d1 tool params srv d2)
  let ?w = "w\<lparr>w_store := d2\<rparr>"
  obtain ev d3 where ev: "evaluated g mo user srv tool (w_redis ?w) (w_store ?w) = (ev, d3)" by fastforce
  obtain err rl z where rl: "limiting g mo userID srv (ev_decision ev) (w_zsets ?w) = (err, rl, z)" by (metis prod_cases3)
  from decided(4) ev rl show ?thesis
  proof (cases rule: decide_call_cases)
    case (forwarded w2)
    have "w_net w' = snd (forwarding g srv (req_ID req) params (w_net w))"
      using forwarded(4) by (cases rule: forward_call_cases) (simp_all add: forwarded(5))
    then show ?thesis
      using decided(1-3) forwarded(1-3) ev rl
      by (auto simp: caller_def target_def evaluated_def limiting_def forwarding_def forwarded_request_def)
  qed (use assms(2) in simp_all)
qed

section \<open>The deployed proxy\<close>

text \<open>The components the program builds: the queries on the database, and one Redis server for tokens and policies.\<close>

definition deployed_on :: "'r redis \<Rightarrow> pg \<Rightarrow> ('r, 'z, db, 'w, 'p) gateway \<Rightarrow> bool" where
  "deployed_on R pg g \<longleftrightarrow> gw_queries g = queries pg \<and> gw_engine g = db_engine R pg \<and> tm_redis (gw_tokens g) = R \<and>
    uuid_scanner (gw_scan g)"

lemma exec_one:
  assumes "exec pg (reading ok (\<lambda>t. one P (rows t))) d = (Inr x, d')"
  shows "P x \<and> x \<in> set (rows (db_tables d)) \<and> db_tables d' = db_tables d"
  using assms exec_read [of pg ok "\<lambda>t. one P (rows t)" d]
  by (auto simp: exec_def Let_def reading_def split: link.splits if_splits dest: one_Inr)

lemma GetUser_row: "q_GetUser (queries pg) uid d = (Inr user, d') \<Longrightarrow>
    user_id user = uid \<and> user \<in> set (t_users (db_tables d)) \<and> db_tables d' = db_tables d"
  using exec_one [of pg True "\<lambda>u. user_id u = uid" t_users d user d'] by (simp add: queries_def GetUser_def)

lemma GetServer_row: "q_GetDownstreamServerByName (queries pg) name d = (Inr srv, d') \<Longrightarrow>
    srv_name srv = name \<and> srv \<in> set (t_servers (db_tables d)) \<and> db_tables d' = db_tables d"
  using exec_one [of pg "text_ok name" "\<lambda>s. srv_name s = name" t_servers d srv d']
  by (simp add: queries_def GetDownstreamServerByName_def)

lemma Evaluate_backed:
  assumes "store_good d" and "uuid_scanner scan" and "uuid_ok rid" and "uuid_ok sid"
    and "Evaluate scan (db_engine R pg) (format_uuid rid) (format_uuid sid) tool now r d = (ev, d')"
    and "Allowed (ev_decision ev)"
  shows "(\<exists>cp. cache_lookup R (policy_key rid sid tool) now r = Some cp \<and> cp_Allowed cp) \<or>
    (\<exists>p \<in> set (t_policies (db_tables d)). matches rid sid tool p \<and> pol_allowed p)"
proof (cases "cache_lookup R (policy_key rid sid tool) now r")
  case None
  then have "cache_lookup (en_redis (db_engine R pg)) (PolicyKey (format_uuid rid) (format_uuid sid) tool) now r = None"
    by (simp add: db_engine_def policy_key_def)
  from db_store.evaluate_fresh [OF assms(1) _ this assms(5,6)] show ?thesis
    using assms(2-4) by (auto simp: db_engine_def uuid_scanner_def store_holds_def)
next
  case (Some cp)
  then have "cp_Allowed cp"
    using evaluate_cached [of "db_engine R pg" "format_uuid rid" "format_uuid sid" tool now r cp scan d] assms(5,6)
    by (auto simp: db_engine_def policy_key_def decision_of_def)
  with Some show ?thesis by blast
qed

text \<open>C1: only authorised calls reach a server. In the deployed proxy over a database that satisfies its schema and has
  16-byte ids, a request that reaches a downstream server carried a token whose hash is a live key in Redis with a
  user id, that id is the id of an active user row, the body decodes as a request for a tool of a named server, the row
  of this name is active, the call is backed by a positive cache entry or by a row of the policies table that allows
  this tool for the role of this user on this server, and the server that was contacted is this one, with this call.\<close>

theorem only_authorised_calls_reach_servers:
  assumes "deployed_on R pg g" and "redis_strings R view" and "store_good (w_store w)"
    and "\<forall>u \<in> set (t_users (db_tables (w_store w))). uuid_ok (user_role u)"
    and "\<forall>s \<in> set (t_servers (db_tables (w_store w))). uuid_ok (srv_id s)"
    and "proxy_handler g mo inp w = (out, w')" and "w_net w' \<noteq> w_net w"
  shows "\<exists>tok userID user req name tool params srv. in_authorization inp = ''Bearer '' @ tok \<and>
    view (w_redis w) (TokenKey (hashToken tok)) (mo_token mo) = Some userID \<and> gw_scan g userID = Some (user_id user) \<and>
    user \<in> set (t_users (db_tables (w_store w))) \<and> user_active user \<and>
    decode dec_request zero_Request (in_body inp) = Some req \<and> parseToolCall g req = Inr (name, tool, params) \<and>
    srv \<in> set (t_servers (db_tables (w_store w))) \<and> srv_active srv \<and> srv_name srv = name \<and>
    ((\<exists>cp. cache_lookup R (policy_key (user_role user) (srv_id srv) tool) (mo_policy mo) (w_redis w) = Some cp \<and> cp_Allowed cp) \<or>
     (\<exists>p \<in> set (t_policies (db_tables (w_store w))). matches (user_role user) (srv_id srv) tool p \<and> pol_allowed p)) \<and>
    w_net w' = snd (Forward (gw_resolve g) (gw_url_ok g) (gw_http g) (srv_base_url srv) (srv_auth_type srv)
      (srv_secret_ref srv) \<lparr>req_JSONRPC = ''2.0'', req_ID = req_ID req, req_Method = ''tools/call'', req_Params = params\<rparr>
      (w_net w))"
  using assms(6)
proof (cases rule: handler_cases)
  case rejected
  then show ?thesis using assms(7) by simp
next
  case (decided req userID user d1 tool params srv d2)
  let ?w = "w\<lparr>w_store := d2\<rparr>"
  obtain ev d3 where ev: "evaluated g mo user srv tool (w_redis ?w) (w_store ?w) = (ev, d3)" by fastforce
  have allowed: "Allowed (ev_decision ev)"
    and net: "w_net w' = snd (forwarding g srv (req_ID req) params (w_net w))"
    using decided_contact [OF decided(4) ev] assms(7) by simp_all
  have g: "gw_queries g = queries pg" "gw_engine g = db_engine R pg" "tm_redis (gw_tokens g) = R" "uuid_scanner (gw_scan g)"
    using assms(1) by (simp_all add: deployed_on_def)
  obtain tok uid where tok: "in_authorization inp = ''Bearer '' @ tok"
      "Validate (gw_tokens g) tok (mo_token mo) (w_redis w) = Inr userID" "gw_scan g userID = Some uid"
    and u: "q_GetUser (queries pg) uid (w_store w) = (Inr user, d1)" "user_active user"
    using decided(2) g(1) by (auto simp: caller_def)
  obtain name where s: "q_GetDownstreamServerByName (queries pg) name d1 = (Inr srv, d2)" "srv_active srv"
    and call: "parseToolCall g req = Inr (name, tool, params)"
    using decided(3) g(1) by (auto simp: target_def)
  have user: "user_id user = uid" "user \<in> set (t_users (db_tables (w_store w)))" "db_tables d1 = db_tables (w_store w)"
    using GetUser_row [OF u(1)] by simp_all
  have srv: "srv_name srv = name" "srv \<in> set (t_servers (db_tables (w_store w)))" and d2: "db_tables d2 = db_tables (w_store w)"
    using GetServer_row [OF s(1)] user(3) by simp_all
  have "(\<exists>cp. cache_lookup R (policy_key (user_role user) (srv_id srv) tool) (mo_policy mo) (w_redis w) = Some cp \<and> cp_Allowed cp) \<or>
     (\<exists>p \<in> set (t_policies (db_tables d2)). matches (user_role user) (srv_id srv) tool p \<and> pol_allowed p)"
  proof (rule Evaluate_backed)
    show "store_good d2" using assms(3) d2 by (simp add: store_good_def)
    show "uuid_ok (user_role user)" "uuid_ok (srv_id srv)" using assms(4,5) user(2) srv(2) by blast+
    show "Evaluate (gw_scan g) (db_engine R pg) (format_uuid (user_role user)) (format_uuid (srv_id srv)) tool (mo_policy mo)
        (w_redis w) d2 = (ev, d3)" using ev g(2) by (simp add: evaluated_def)
  qed (fact g(4) allowed)+
  moreover have "view (w_redis w) (TokenKey (hashToken tok)) (mo_token mo) = Some userID"
    using tok(2) redis_strings.get_val [OF assms(2)] g(3) by (auto simp: Validate_user)
  ultimately show ?thesis
    using tok(1,3) u(2) s(2) user(1,2) srv decided(1) call net unfolding d2 forwarding_def forwarded_request_def
    by (intro exI [of _ tok] exI [of _ userID] exI [of _ user] exI [of _ req] exI [of _ name] exI [of _ tool]
        exI [of _ params] exI [of _ srv]) simp
qed

end
