(* ===== verification/Proxy_Stages.thy ===== *)
theory Proxy_Stages
  imports Proxy_Props
begin

text \<open>
  Where a request ends. The relation \<open>ends\<close> has one rule for each way in which a request can be answered, in terms of
  the operations that the handler calls: it says which check failed, or which verdict the call got. Every request ends
  somewhere (\<open>ends_somewhere\<close>), and where it ends decides the reply, the audit event and whether a server was
  contacted (\<open>ends_handled\<close>).
\<close>

section \<open>The stages\<close>

datatype verdict = Policy_denied | Limiter_failed | Over_quota | Server_failed forward_error | Server_answered Response

text \<open>A decided call: its user, its server, its tool, the parameters that are sent on, the keys to redact, the verdict.\<close>

datatype stage = Caller_refused | Caller_unclear | Call_refused | Server_unclear | Server_off
  | Decided string DownstreamServer string string "string list" verdict

definition bearer :: "http_in \<Rightarrow> string \<Rightarrow> bool" where
  "bearer inp tok \<longleftrightarrow> in_authorization inp = ''Bearer '' @ tok \<and> tok \<noteq> []"

inductive ends ::
  "('r, 'z, 'd, 'w, 'p) gateway \<Rightarrow> moment \<Rightarrow> http_in \<Rightarrow> Request \<Rightarrow> ('r, 'z, 'd, 'w, 'p) world \<Rightarrow> stage \<Rightarrow> bool"
  for g mo inp req w where
  no_token: "\<forall>tok. \<not> bearer inp tok \<Longrightarrow> ends g mo inp req w Caller_refused"
| bad_token: "bearer inp tok \<Longrightarrow> Validate (gw_tokens g) tok (mo_token mo) (w_redis w) = Inl err \<Longrightarrow>
    err \<in> {ErrTokenNotFound, ErrTokenInvalid} \<Longrightarrow> ends g mo inp req w Caller_refused"
| token_fault: "bearer inp tok \<Longrightarrow> Validate (gw_tokens g) tok (mo_token mo) (w_redis w) = Inl err \<Longrightarrow>
    err \<notin> {ErrTokenNotFound, ErrTokenInvalid} \<Longrightarrow> ends g mo inp req w Caller_unclear"
| bad_id: "bearer inp tok \<Longrightarrow> Validate (gw_tokens g) tok (mo_token mo) (w_redis w) = Inr userID \<Longrightarrow>
    gw_scan g userID = None \<Longrightarrow> ends g mo inp req w Caller_unclear"
| no_user: "bearer inp tok \<Longrightarrow> Validate (gw_tokens g) tok (mo_token mo) (w_redis w) = Inr userID \<Longrightarrow>
    gw_scan g userID = Some uid \<Longrightarrow> q_GetUser (gw_queries g) uid (w_store w) = (Inl NoRows, d) \<Longrightarrow>
    ends g mo inp req w Caller_refused"
| user_fault: "bearer inp tok \<Longrightarrow> Validate (gw_tokens g) tok (mo_token mo) (w_redis w) = Inr userID \<Longrightarrow>
    gw_scan g userID = Some uid \<Longrightarrow> q_GetUser (gw_queries g) uid (w_store w) = (Inl dberr, d) \<Longrightarrow> dberr \<noteq> NoRows \<Longrightarrow>
    ends g mo inp req w Caller_unclear"
| user_off: "bearer inp tok \<Longrightarrow> Validate (gw_tokens g) tok (mo_token mo) (w_redis w) = Inr userID \<Longrightarrow>
    gw_scan g userID = Some uid \<Longrightarrow> q_GetUser (gw_queries g) uid (w_store w) = (Inr user, d) \<Longrightarrow> \<not> user_active user \<Longrightarrow>
    ends g mo inp req w Caller_refused"
| bad_call: "caller g mo (in_authorization inp) (w_redis w) (w_store w) userID user d1 \<Longrightarrow>
    parseToolCall g req = Inl msg \<Longrightarrow> ends g mo inp req w Call_refused"
| no_server: "caller g mo (in_authorization inp) (w_redis w) (w_store w) userID user d1 \<Longrightarrow>
    parseToolCall g req = Inr (name, tool, params) \<Longrightarrow>
    q_GetDownstreamServerByName (gw_queries g) name d1 = (Inl NoRows, d2) \<Longrightarrow> ends g mo inp req w Call_refused"
| server_fault: "caller g mo (in_authorization inp) (w_redis w) (w_store w) userID user d1 \<Longrightarrow>
    parseToolCall g req = Inr (name, tool, params) \<Longrightarrow>
    q_GetDownstreamServerByName (gw_queries g) name d1 = (Inl dberr, d2) \<Longrightarrow> dberr \<noteq> NoRows \<Longrightarrow>
    ends g mo inp req w Server_unclear"
| server_off: "caller g mo (in_authorization inp) (w_redis w) (w_store w) userID user d1 \<Longrightarrow>
    parseToolCall g req = Inr (name, tool, params) \<Longrightarrow>
    q_GetDownstreamServerByName (gw_queries g) name d1 = (Inr srv, d2) \<Longrightarrow> \<not> srv_active srv \<Longrightarrow>
    ends g mo inp req w Server_off"
| denied: "caller g mo (in_authorization inp) (w_redis w) (w_store w) userID user d1 \<Longrightarrow>
    target g req d1 tool params srv d2 \<Longrightarrow> evaluated g mo user srv tool (w_redis w) d2 = (ev, d3) \<Longrightarrow>
    \<not> Allowed (ev_decision ev) \<Longrightarrow>
    ends g mo inp req w (Decided userID srv tool params (Decision.RedactFields (ev_decision ev)) Policy_denied)"
| limiter_fault: "caller g mo (in_authorization inp) (w_redis w) (w_store w) userID user d1 \<Longrightarrow>
    target g req d1 tool params srv d2 \<Longrightarrow> evaluated g mo user srv tool (w_redis w) d2 = (ev, d3) \<Longrightarrow>
    Allowed (ev_decision ev) \<Longrightarrow> limiting g mo userID srv (ev_decision ev) (w_zsets w) = (True, rl, z) \<Longrightarrow>
    ends g mo inp req w (Decided userID srv tool params (Decision.RedactFields (ev_decision ev)) Limiter_failed)"
| over_quota: "caller g mo (in_authorization inp) (w_redis w) (w_store w) userID user d1 \<Longrightarrow>
    target g req d1 tool params srv d2 \<Longrightarrow> evaluated g mo user srv tool (w_redis w) d2 = (ev, d3) \<Longrightarrow>
    Allowed (ev_decision ev) \<Longrightarrow> limiting g mo userID srv (ev_decision ev) (w_zsets w) = (False, rl, z) \<Longrightarrow>
    \<not> res_Allowed rl \<Longrightarrow>
    ends g mo inp req w (Decided userID srv tool params (Decision.RedactFields (ev_decision ev)) Over_quota)"
| forwarded: "caller g mo (in_authorization inp) (w_redis w) (w_store w) userID user d1 \<Longrightarrow>
    target g req d1 tool params srv d2 \<Longrightarrow> evaluated g mo user srv tool (w_redis w) d2 = (ev, d3) \<Longrightarrow>
    Allowed (ev_decision ev) \<Longrightarrow> limiting g mo userID srv (ev_decision ev) (w_zsets w) = (False, rl, z) \<Longrightarrow>
    res_Allowed rl \<Longrightarrow> forwarding g srv (req_ID req) params (w_net w) = (answer, net) \<Longrightarrow>
    ends g mo inp req w (Decided userID srv tool params (Decision.RedactFields (ev_decision ev))
      (case answer of Inl err \<Rightarrow> Server_failed err | Inr resp \<Rightarrow> Server_answered resp))"

section \<open>What the stages mean\<close>

text \<open>The reply to a request with this id.\<close>

definition stage_reply :: "('r, 'z, 'd, 'w, 'p) gateway \<Rightarrow> string \<Rightarrow> stage \<Rightarrow> http_out \<Rightarrow> bool" where
  "stage_reply g rid st out \<longleftrightarrow> (case st of
      Caller_refused \<Rightarrow> \<exists>msg. out = writeRPCError [] rid CodeUnauthorized msg
    | Caller_unclear \<Rightarrow> out = writeRPCError [] rid CodeInternalError ''internal error''
    | Call_refused \<Rightarrow> \<exists>msg. out = writeRPCError [] rid CodeInvalidParams msg
    | Server_unclear \<Rightarrow> out = writeRPCError [] rid CodeInternalError ''internal error''
    | Server_off \<Rightarrow> out = writeRPCError [] rid CodeForbidden ''downstream server is inactive''
    | Decided userID srv tool params flds v \<Rightarrow> (case v of
        Policy_denied \<Rightarrow> out = writeRPCError [] rid CodeForbidden ''tool call denied by policy''
      | Limiter_failed \<Rightarrow> out = writeRPCError [] rid CodeRateLimited ''service temporarily unavailable''
      | Over_quota \<Rightarrow> \<exists>hs. out = writeRPCError hs rid CodeRateLimited ''rate limit exceeded''
      | Server_failed err \<Rightarrow> out = writeRPCError [] rid CodeUpstreamError ''downstream server error''
      | Server_answered resp \<Rightarrow> out = writeJSON [] (redact_response (gw_f64 g) flds resp)))"

text \<open>The audit event: its outcome and its summary, in an event of this user, server, tool and redacted parameters.\<close>

definition verdict_record :: "('r, 'z, 'd, 'w, 'p) gateway \<Rightarrow> string list \<Rightarrow> verdict \<Rightarrow> (string \<times> string) option" where
  "verdict_record g flds v = (case v of
      Policy_denied \<Rightarrow> Some (''denied'', [])
    | Limiter_failed \<Rightarrow> None
    | Over_quota \<Rightarrow> Some (''rate_limited'', [])
    | Server_failed err \<Rightarrow> Some (''error'', object_text [(''error'', quote (gw_forward_error g err))])
    | Server_answered resp \<Rightarrow> Some (''allowed'', resp_Result (redact_response (gw_f64 g) flds resp)))"

definition stage_event :: "('r, 'z, 'd, 'w, 'p) gateway \<Rightarrow> moment \<Rightarrow> stage \<Rightarrow> Event option" where
  "stage_event g mo st = (case st of
      Decided userID srv tool params flds v \<Rightarrow>
        map_option (\<lambda>(outcome, summary). \<lparr>event_ID = mo_fresh mo, event_UserID = userID,
          event_ServerID = format_uuid (srv_id srv), event_Tool = tool,
          event_Params = RedactJSONBytes (gw_f64 g) params flds, event_Outcome = outcome, event_Summary = summary,
          event_Latency = Some (latency mo), event_At = mo_event mo\<rparr>) (verdict_record g flds v)
    | _ \<Rightarrow> None)"

definition contacted :: "stage \<Rightarrow> bool" where
  "contacted st \<longleftrightarrow> (\<exists>userID srv tool params flds v. st = Decided userID srv tool params flds v \<and>
    v \<notin> {Policy_denied, Limiter_failed, Over_quota})"

text \<open>The limiter is asked when the policy has allowed the call.\<close>

definition metered :: "stage \<Rightarrow> bool" where
  "metered st \<longleftrightarrow> (\<exists>userID srv tool params flds v. st = Decided userID srv tool params flds v \<and> v \<noteq> Policy_denied)"

lemma stage_event_of:
  "stage_event g mo (Decided userID srv tool params flds Policy_denied) =
    Some (event_of g mo userID srv tool OutcomeDenied params flds [])"
  "stage_event g mo (Decided userID srv tool params flds Limiter_failed) = None"
  "stage_event g mo (Decided userID srv tool params flds Over_quota) =
    Some (event_of g mo userID srv tool OutcomeRateLimited params flds [])"
  "stage_event g mo (Decided userID srv tool params flds (Server_failed err)) =
    Some (event_of g mo userID srv tool OutcomeError params flds (object_text [(''error'', quote (gw_forward_error g err))]))"
  "stage_event g mo (Decided userID srv tool params flds (Server_answered resp)) =
    Some (event_of g mo userID srv tool OutcomeAllowed params flds (resp_Result (redact_response (gw_f64 g) flds resp)))"
  by (simp_all add: stage_event_def verdict_record_def event_of_def NewEvent_def outcome_defs)

section \<open>The handler and the stages\<close>

lemma bearer_extract: "bearer inp tok \<Longrightarrow> extractBearer (in_authorization inp) = Some tok"
  using cut_prefix_append [of "''Bearer ''" tok] by (simp add: bearer_def extractBearer_def)

lemma no_bearer_extract: "\<forall>tok. \<not> bearer inp tok \<Longrightarrow> extractBearer (in_authorization inp) = None"
  by (auto simp: bearer_def extractBearer_def cut_prefix_Some_iff split: option.split)

lemma caller_authenticate:
  assumes "caller g mo header r d userID user d'"
  shows "authenticate g mo header r d = (Inr (userID, user), d')"
proof -
  obtain tok uid where tok: "header = ''Bearer '' @ tok" "tok \<noteq> []" "Validate (gw_tokens g) tok (mo_token mo) r = Inr userID"
    "gw_scan g userID = Some uid" "q_GetUser (gw_queries g) uid d = (Inr user, d')" "user_active user"
    using assms by (auto simp: caller_def)
  then have "extractBearer header = Some tok"
    using cut_prefix_append [of "''Bearer ''" tok] by (simp add: extractBearer_def)
  with tok show ?thesis by (simp add: authenticate_def)
qed

lemma target_find_server: "target g req d tool params srv d' \<Longrightarrow> find_server g req d = (Inr (tool, params, srv), d')"
  by (auto simp: target_def find_server_def)

text \<open>The ways that a request can take.\<close>

lemma ends_somewhere: "\<exists>st. ends g mo inp req w st"
proof -
  let ?thesis = "\<exists>st. ends g mo inp req w st"
  have decided: ?thesis if c: "caller g mo (in_authorization inp) (w_redis w) (w_store w) userID user d1"
    and t: "target g req d1 tool params srv d2" for userID user d1 tool params srv d2
  proof -
    obtain ev d3 where ev: "evaluated g mo user srv tool (w_redis w) d2 = (ev, d3)" by fastforce
    obtain err rl z where rl: "limiting g mo userID srv (ev_decision ev) (w_zsets w) = (err, rl, z)" by (metis prod_cases3)
    obtain answer net where f: "forwarding g srv (req_ID req) params (w_net w) = (answer, net)" by fastforce
    consider "\<not> Allowed (ev_decision ev)" | "Allowed (ev_decision ev)" "err = True"
      | "Allowed (ev_decision ev)" "err = False" "\<not> res_Allowed rl" | "Allowed (ev_decision ev)" "err = False" "res_Allowed rl"
      by blast
    then show ?thesis
    proof cases
      case 1
      with ends.denied [OF c t ev] show ?thesis by blast
    next
      case 2
      with ends.limiter_fault [OF c t ev] rl show ?thesis by blast
    next
      case 3
      with ends.over_quota [OF c t ev] rl show ?thesis by blast
    next
      case 4
      with ends.forwarded [OF c t ev _ _ _ f] rl show ?thesis by blast
    qed
  qed
  have called: ?thesis if c: "caller g mo (in_authorization inp) (w_redis w) (w_store w) userID user d1" for userID user d1
  proof (cases "parseToolCall g req")
    case (Inr call)
    obtain name tool params where p: "parseToolCall g req = Inr (name, tool, params)" using Inr by (cases call) auto
    obtain s d2 where s: "q_GetDownstreamServerByName (gw_queries g) name d1 = (s, d2)" by fastforce
    show ?thesis
    proof (cases s)
      case (Inl dberr)
      then show ?thesis using ends.no_server [OF c p] ends.server_fault [OF c p] s by (cases "dberr = NoRows") blast+
    next
      case (Inr srv)
      then show ?thesis
        using ends.server_off [OF c p] s decided [OF c, of tool params srv d2] p
        by (cases "srv_active srv") (auto simp: target_def)
    qed
  qed (use ends.bad_call [OF c] in blast)
  show ?thesis
  proof (cases "\<exists>tok. bearer inp tok")
    case True
    then obtain tok where tok: "bearer inp tok" by blast
    show ?thesis
    proof (cases "Validate (gw_tokens g) tok (mo_token mo) (w_redis w)")
      case (Inl err)
      then show ?thesis using ends.bad_token [OF tok] ends.token_fault [OF tok] by blast
    next
      case v: (Inr userID)
      show ?thesis
      proof (cases "gw_scan g userID")
        case (Some uid)
        obtain u d where u: "q_GetUser (gw_queries g) uid (w_store w) = (u, d)" by fastforce
        show ?thesis
        proof (cases u)
          case (Inl dberr)
          then show ?thesis using ends.no_user [OF tok v Some] ends.user_fault [OF tok v Some] u by (cases "dberr = NoRows") blast+
        next
          case (Inr user)
          have "user_active user \<Longrightarrow> caller g mo (in_authorization inp) (w_redis w) (w_store w) userID user d"
            using tok v Some u Inr by (auto simp: caller_def bearer_def)
          then show ?thesis using called ends.user_off [OF tok v Some] u Inr by blast
        qed
      qed (use ends.bad_id [OF tok v] in blast)
    qed
  qed (use ends.no_token in blast)
qed

definition handled ::
  "('r, 'z, 'd, 'w, 'p) gateway \<Rightarrow> moment \<Rightarrow> Request \<Rightarrow> ('r, 'z, 'd, 'w, 'p) world \<Rightarrow> stage \<Rightarrow> http_out \<Rightarrow>
    ('r, 'z, 'd, 'w, 'p) world \<Rightarrow> bool" where
  "handled g mo req w st out w' \<longleftrightarrow> stage_reply g (req_ID req) st out \<and>
    w_pub w' = (case stage_event g mo st of None \<Rightarrow> w_pub w | Some e \<Rightarrow> snd (gw_publish g e (w_pub w))) \<and>
    (\<not> contacted st \<longrightarrow> w_net w' = w_net w) \<and> (\<not> metered st \<longrightarrow> w_zsets w' = w_zsets w)"

text \<open>A request that is rejected has changed no more than the state of the store's connection.\<close>

lemma handled_unauthenticated:
  assumes "proxy_handler g mo inp w = (out, w')" and "decode dec_request zero_Request (in_body inp) = Some req"
    and "authenticate g mo (in_authorization inp) (w_redis w) (w_store w) = (Inl (ec, msg), d)"
    and "stage_reply g (req_ID req) st (writeRPCError [] (req_ID req) ec msg)" and "stage_event g mo st = None"
    and "\<not> contacted st"
  shows "handled g mo req w st out w'"
  using assms by (auto simp: proxy_handler_def handled_def)

lemma handled_unfound:
  assumes "proxy_handler g mo inp w = (out, w')" and "decode dec_request zero_Request (in_body inp) = Some req"
    and "caller g mo (in_authorization inp) (w_redis w) (w_store w) userID user d1" and "find_server g req d1 = (Inl (ec, msg), d)"
    and "stage_reply g (req_ID req) st (writeRPCError [] (req_ID req) ec msg)" and "stage_event g mo st = None"
    and "\<not> contacted st"
  shows "handled g mo req w st out w'"
  using assms caller_authenticate [OF assms(3)] by (auto simp: proxy_handler_def handled_def)

lemma handler_decides:
  assumes "proxy_handler g mo inp w = (out, w')" and "decode dec_request zero_Request (in_body inp) = Some req"
    and "caller g mo (in_authorization inp) (w_redis w) (w_store w) userID user d1" and "target g req d1 tool params srv d2"
  shows "decide_call g mo (req_ID req) userID user tool params srv (w\<lparr>w_store := d2\<rparr>) = (out, w')"
  using assms caller_authenticate [OF assms(3)] target_find_server [OF assms(4)] by (simp add: proxy_handler_def)

lemma forwarded_handled:
  assumes "forward_call g mo (req_ID req) userID tool params srv flds w2 = (out, w')"
    and "forwarding g srv (req_ID req) params (w_net w2) = (answer, net)" and "w_pub w2 = w_pub w"
  shows "handled g mo req w (Decided userID srv tool params flds
    (case answer of Inl err \<Rightarrow> Server_failed err | Inr resp \<Rightarrow> Server_answered resp)) out w'"
  using assms(1)
proof (cases rule: forward_call_cases)
  case (failed err net')
  then show ?thesis using assms(2,3) by (simp add: handled_def stage_reply_def stage_event_of contacted_def metered_def)
next
  case (answered resp net')
  then show ?thesis using assms(2,3) by (simp add: handled_def stage_reply_def stage_event_of contacted_def metered_def)
qed

lemmas early_stages = stage_reply_def stage_event_def contacted_def metered_def

text \<open>The set of the limiter is not touched before the policy has allowed the call.\<close>

lemma denied_zsets:
  assumes "decide_call g mo rid userID user tool params srv w = (out, w')"
    and "evaluated g mo user srv tool (w_redis w) (w_store w) = (ev, d)" and "\<not> Allowed (ev_decision ev)"
  shows "w_zsets w' = w_zsets w"
proof -
  obtain err rl z where rl: "limiting g mo userID srv (ev_decision ev) (w_zsets w) = (err, rl, z)" by (metis prod_cases3)
  show ?thesis
    using assms(1,3) decide_call_eq [OF assms(2) rl refl, of rid params] by (auto simp: publish_event_def)
qed

text \<open>A decided request, with the verdict as the code finds it.\<close>

lemma decided_handled:
  assumes "proxy_handler g mo inp w = (out, w')" and "decode dec_request zero_Request (in_body inp) = Some req"
    and "caller g mo (in_authorization inp) (w_redis w) (w_store w) userID user d1" and "target g req d1 tool params srv d2"
    and "evaluated g mo user srv tool (w_redis w) d2 = (ev, d3)"
    and "limiting g mo userID srv (ev_decision ev) (w_zsets w) = (err, rl, z)"
    and "v = (if \<not> Allowed (ev_decision ev) then Policy_denied else if err then Limiter_failed
      else if \<not> res_Allowed rl then Over_quota
      else case fst (forwarding g srv (req_ID req) params (w_net w)) of Inl e \<Rightarrow> Server_failed e | Inr resp \<Rightarrow> Server_answered resp)"
  shows "handled g mo req w (Decided userID srv tool params (Decision.RedactFields (ev_decision ev)) v) out w'"
proof -
  let ?w = "w\<lparr>w_store := d2\<rparr>"
  have ev: "evaluated g mo user srv tool (w_redis ?w) (w_store ?w) = (ev, d3)"
    and rl: "limiting g mo userID srv (ev_decision ev) (w_zsets ?w) = (err, rl, z)"
    using assms(5,6) by simp_all
  obtain answer net where f: "forwarding g srv (req_ID req) params (w_net w) = (answer, net)" by fastforce
  note run = handler_decides [OF assms(1-4)]
  from run ev rl show ?thesis
  proof (cases rule: decide_call_cases)
    case denied
    moreover have "w_zsets w' = w_zsets w" using denied_zsets [OF run ev denied(1)] by simp
    ultimately show ?thesis using assms(7) by (auto simp: handled_def stage_reply_def stage_event_of contacted_def metered_def)
  next
    case (forwarded w2)
    then have "v = (case answer of Inl e \<Rightarrow> Server_failed e | Inr resp \<Rightarrow> Server_answered resp)" using assms(7) f by simp
    moreover have "handled g mo req w (Decided userID srv tool params (Decision.RedactFields (ev_decision ev))
        (case answer of Inl e \<Rightarrow> Server_failed e | Inr resp \<Rightarrow> Server_answered resp)) out w'"
      by (rule forwarded_handled [OF forwarded(4)]) (simp_all add: forwarded(5,6) f)
    ultimately show ?thesis by simp
  qed (use assms(7) in \<open>auto simp: handled_def stage_reply_def stage_event_of contacted_def metered_def\<close>)
qed

text \<open>Where a request ends decides what the client is told, what is audited, and that no server is contacted.\<close>

lemma ends_handled:
  assumes "proxy_handler g mo inp w = (out, w')" and "decode dec_request zero_Request (in_body inp) = Some req"
    and "ends g mo inp req w st"
  shows "handled g mo req w st out w'"
  using assms(3)
proof cases
  case no_token
  show ?thesis
    by (rule handled_unauthenticated [OF assms(1,2)])
      (use no_token in \<open>auto simp: authenticate_def no_bearer_extract early_stages\<close>)
next
  case (bad_token tok err)
  show ?thesis
    by (rule handled_unauthenticated [OF assms(1,2)])
      (use bad_token in \<open>auto simp: authenticate_def bearer_extract early_stages\<close>)
next
  case (token_fault tok err)
  show ?thesis
    by (rule handled_unauthenticated [OF assms(1,2)])
      (use token_fault in \<open>auto simp: authenticate_def bearer_extract early_stages\<close>)
next
  case (bad_id tok userID)
  show ?thesis
    by (rule handled_unauthenticated [OF assms(1,2)])
      (use bad_id in \<open>auto simp: authenticate_def bearer_extract early_stages\<close>)
next
  case (no_user tok userID uid d)
  show ?thesis
    by (rule handled_unauthenticated [OF assms(1,2)])
      (use no_user in \<open>auto simp: authenticate_def bearer_extract early_stages\<close>)
next
  case (user_fault tok userID uid dberr d)
  show ?thesis
    by (rule handled_unauthenticated [OF assms(1,2)])
      (use user_fault in \<open>auto simp: authenticate_def bearer_extract early_stages\<close>)
next
  case (user_off tok userID uid user d)
  show ?thesis
    by (rule handled_unauthenticated [OF assms(1,2)])
      (use user_off in \<open>auto simp: authenticate_def bearer_extract early_stages\<close>)
next
  case (bad_call userID user d1 msg)
  show ?thesis
    by (rule handled_unfound [OF assms(1,2) bad_call(2)])
      (use bad_call in \<open>auto simp: find_server_def early_stages\<close>)
next
  case (no_server userID user d1 name tool params d2)
  show ?thesis
    by (rule handled_unfound [OF assms(1,2) no_server(2)])
      (use no_server in \<open>auto simp: find_server_def early_stages\<close>)
next
  case (server_fault userID user d1 name tool params dberr d2)
  show ?thesis
    by (rule handled_unfound [OF assms(1,2) server_fault(2)])
      (use server_fault in \<open>auto simp: find_server_def early_stages\<close>)
next
  case (server_off userID user d1 name tool params srv d2)
  show ?thesis
    by (rule handled_unfound [OF assms(1,2) server_off(2)])
      (use server_off in \<open>auto simp: find_server_def early_stages\<close>)
next
  case (denied userID user d1 tool params srv d2 ev d3)
  obtain err rl z where rl: "limiting g mo userID srv (ev_decision ev) (w_zsets w) = (err, rl, z)" by (metis prod_cases3)
  show ?thesis
    unfolding denied(1) by (rule decided_handled [OF assms(1,2) denied(2-4) rl]) (simp add: denied(5))
next
  case (limiter_fault userID user d1 tool params srv d2 ev d3 rl z)
  show ?thesis
    unfolding limiter_fault(1) by (rule decided_handled [OF assms(1,2) limiter_fault(2-4,6)]) (simp add: limiter_fault(5))
next
  case (over_quota userID user d1 tool params srv d2 ev d3 rl z)
  show ?thesis
    unfolding over_quota(1) by (rule decided_handled [OF assms(1,2) over_quota(2-4,6)]) (simp add: over_quota(5,7))
next
  case (forwarded userID user d1 tool params srv d2 ev d3 rl z answer net)
  show ?thesis
    unfolding forwarded(1) by (rule decided_handled [OF assms(1,2) forwarded(2-4,6)]) (simp add: forwarded(5,7,8))
qed

lemma ends_decided:
  assumes "ends g mo inp req w (Decided userID srv tool params flds v)"
  obtains user d1 d2 where "caller g mo (in_authorization inp) (w_redis w) (w_store w) userID user d1"
    and "target g req d1 tool params srv d2"
  using assms by cases auto

lemma ends_answered:
  assumes "ends g mo inp req w (Decided userID srv tool params flds (Server_answered resp))"
  shows "fst (forwarding g srv (req_ID req) params (w_net w)) = Inr resp"
  using assms by cases (auto split: sum.splits)

text \<open>C3: every decision is audited, once, as what it was. A body that is no request changes nothing. Every other
  request ends at a stage that the checks and the verdict determine. A request that was rejected before a policy decision, or whose limiter
  failed, gets its error reply, no server is called and nothing is published. Every other request publishes exactly one
  event, with the user, the server and the tool of the call, its redacted parameters, the time and the latency, and the
  outcome that the client was told: \<^verbatim>\<open>denied\<close> by policy, \<^verbatim>\<open>rate_limited\<close>, \<^verbatim>\<open>error\<close> with the text of the error as the summary,
  or \<^verbatim>\<open>allowed\<close> with the redacted result of the answer as the summary; a denied or limited call reaches no server.\<close>

theorem every_decision_is_audited_once:
  assumes "proxy_handler g mo inp w = (out, w')"
  shows "case decode dec_request zero_Request (in_body inp) of
      None \<Rightarrow> w' = w
    | Some req \<Rightarrow> (\<exists>st. ends g mo inp req w st) \<and>
        (\<forall>st. ends g mo inp req w st \<longrightarrow> stage_reply g (req_ID req) st out \<and>
          w_pub w' = (case stage_event g mo st of None \<Rightarrow> w_pub w | Some e \<Rightarrow> snd (gw_publish g e (w_pub w))) \<and>
          (\<not> contacted st \<longrightarrow> w_net w' = w_net w))"
proof (cases "decode dec_request zero_Request (in_body inp)")
  case None
  then show ?thesis using assms by (simp add: proxy_handler_def)
next
  case (Some req)
  show ?thesis
    using ends_somewhere [of g mo inp req w] ends_handled [OF assms Some] unfolding handled_def by (simp add: Some)
qed

end
