(* ===== verification/Proxy_Demo.thy ===== *)
theory Proxy_Demo
  imports Proxy_Stages Worker_Props
begin

text \<open>
  A concrete gateway and a concrete request that goes through all steps: the witnesses of the properties of the
  proxy.
\<close>

definition demo_token :: string where
  "demo_token = hex_encode (replicate 32 7)"

definition demo_keyspace :: keyspace where
  "demo_keyspace = \<lparr>ks_entries = [TokenKey (hashToken demo_token) \<mapsto> (format_uuid id3, seconds 100)], ks_up = True\<rparr>"

definition demo_gateway :: "(keyspace, zspace, db, http_request list, Event list) gateway" where
  "demo_gateway = \<lparr>gw_queries = queries demo_pg, gw_tokens = NewTokenManager mem_redis 0,
    gw_engine = db_engine mem_redis demo_pg, gw_limiter = mem_zredis, gw_resolve = Resolve demo_env,
    gw_url_ok = \<lambda>_. True, gw_http = demo_http, gw_publish = Memory_Publish, gw_scan = ref_scan, gw_f64 = demo_f64,
    gw_quoted = id, gw_json_error = id, gw_forward_error = \<lambda>_. ''error''\<rparr>"

definition demo_world :: "bool \<Rightarrow> (keyspace, zspace, db, http_request list, Event list) world" where
  "demo_world allowed = \<lparr>w_redis = demo_keyspace, w_zsets = empty_zspace, w_store = demo_db allowed, w_net = [], w_pub = [],
    w_jobs = []\<rparr>"

definition demo_moment :: moment where
  "demo_moment = \<lparr>mo_start = 0, mo_token = 0, mo_policy = 0, mo_limit = 0, mo_link = Up, mo_end = 0, mo_event = 0,
    mo_fresh = format_uuid id1\<rparr>"

definition demo_members :: "(string \<times> json) list" where
  "demo_members = [(''jsonrpc'', JStr ''2.0''), (''id'', JNum ''7''), (''method'', JStr ''tools/call''),
    (''params'', JObj [(''name'', JStr ''read''), (''server'', JStr ''hr-api'')])]"

definition demo_in :: http_in where
  "demo_in = \<lparr>in_authorization = ''Bearer '' @ demo_token, in_body = object_text (printed demo_members)\<rparr>"

definition demo_params :: string where
  "demo_params = json_print (JObj [(''name'', JStr ''read''), (''server'', JStr ''hr-api'')])"

definition demo_req :: Request where
  "demo_req = \<lparr>req_JSONRPC = ''2.0'', req_ID = ''7'', req_Method = ''tools/call'', req_Params = demo_params\<rparr>"

lemma folded_request_keys: "fold_name ''jsonrpc'' = ''JSONRPC''" "fold_name ''id'' = ''ID''" "fold_name ''method'' = ''METHOD''"
  "fold_name ''params'' = ''PARAMS''" "fold_name ''name'' = ''NAME''" "fold_name ''server'' = ''SERVER''"
  by code_simp+

lemma demo_texts_ok: "utf8_ok ''jsonrpc''" "utf8_ok ''2.0''" "utf8_ok ''id''" "utf8_ok ''method''" "utf8_ok ''tools/call''"
  "utf8_ok ''params''" "utf8_ok ''name''" "utf8_ok ''read''" "utf8_ok ''server''" "utf8_ok ''hr-api''"
  by (simp_all add: utf8_len_def)

lemma demo_number: "is_number ''7''"
  by code_simp

lemma demo_members_ok: "e \<in> set demo_members \<Longrightarrow> member_ok e"
  using demo_texts_ok demo_number
  by (auto simp: demo_members_def member_ok_def max_depth_def less_char_def
      simp del: utf8_ok.simps)

lemma demo_decoded: "decode dec_request zero_Request (in_body demo_in) = Some demo_req"
proof -
  have "decode dec_request zero_Request (in_body demo_in) = set_fields request_field (printed demo_members) zero_Request"
    unfolding dec_request_def demo_in_def
    by (simp add: decode_object [OF demo_members_ok] dec_struct_object [OF demo_members_ok])
  then show ?thesis
    using demo_texts_ok
    by (simp add: demo_members_def set_fields_Cons folded_request_keys request_field_def zero_Request_def dec_raw_def
        demo_req_def demo_params_def del: fold_name.simps utf8_ok.simps)
qed

lemma demo_keys_apart: "PolicyKey a b c \<noteq> TokenKey h"
  using key_namespaces_disjoint by blast

lemma demo_uncached: "cache_lookup mem_redis (PolicyKey a b c) t demo_keyspace = None"
  using demo_keys_apart by (simp add: cache_lookup_def mem_redis_def ks_view_def demo_keyspace_def)

lemma demo_caller: "authenticate demo_gateway demo_moment (in_authorization demo_in) demo_keyspace (demo_db b) =
    (Inr (format_uuid id3, hd (t_users (db_tables (demo_db b)))), (demo_db b)\<lparr>db_calls := 1\<rparr>)"
proof -
  have "length demo_token = 64" by (simp add: demo_token_def)
  then have "demo_token \<noteq> []" by auto
  then have "extractBearer (in_authorization demo_in) = Some demo_token"
    using cut_prefix_append [of "''Bearer ''" demo_token] by (simp add: extractBearer_def demo_in_def)
  moreover have "Validate (gw_tokens demo_gateway) demo_token 0 demo_keyspace = Inr (format_uuid id3)"
    by (simp add: Validate_user demo_gateway_def NewTokenManager_def mem_redis_def demo_keyspace_def ks_view_def
        seconds_def demo_token_def)
  moreover have "q_GetUser (queries demo_pg) id3 (demo_db b) =
      (Inr (hd (t_users (db_tables (demo_db b)))), (demo_db b)\<lparr>db_calls := 1\<rparr>)"
    by (simp add: queries_def exec_def demo_pg_def GetUser_def reading_def one_def demo_db_def)
  moreover have "user_active (hd (t_users (db_tables (demo_db b))))" by (simp add: demo_db_def)
  ultimately show ?thesis
    by (simp add: authenticate_def demo_moment_def demo_gateway_def ref_scan_ids)
qed

lemma demo_call: "parseToolCall demo_gateway demo_req =
    Inr (''hr-api'', ''read'', call_params_text \<lparr>call_Name = ''read'', call_Arguments = None\<rparr>)"
proof -
  let ?kvs = "[(''name'', JStr ''read''), (''server'', JStr ''hr-api'')]"
  have "member_ok e" if "e \<in> set ?kvs" for e
    using that demo_texts_ok by (auto simp: member_ok_def simp del: utf8_ok.simps)
  then have "unmarshal (dec_struct (call_args_field demo_f64)) zero_call_args (object_text (printed ?kvs)) =
      set_fields (call_args_field demo_f64) (printed ?kvs) zero_call_args"
    by (rule unmarshal_object)
  moreover have "demo_params = object_text (printed ?kvs)" by (simp add: demo_params_def object_text_def)
  ultimately have "unmarshal (dec_struct (call_args_field demo_f64)) zero_call_args demo_params =
      Some \<lparr>ca_Server = ''hr-api'', ca_Name = ''read'', ca_Arguments = None\<rparr>"
    using demo_texts_ok
    by (simp add: set_fields_Cons folded_request_keys call_args_field_def zero_call_args_def
        del: fold_name.simps utf8_ok.simps)
  then show ?thesis by (simp add: parseToolCall_def demo_req_def demo_gateway_def)
qed

lemma demo_server_row: "q_GetDownstreamServerByName (gw_queries demo_gateway) ''hr-api'' ((demo_db b)\<lparr>db_calls := 1\<rparr>) =
    (Inr (hd (t_servers (db_tables (demo_db b)))), (demo_db b)\<lparr>db_calls := 2\<rparr>)"
  by (simp add: demo_gateway_def queries_def exec_def demo_pg_def GetDownstreamServerByName_def reading_def one_def demo_db_def
      demo_text_ok)

lemma demo_server: "find_server demo_gateway demo_req ((demo_db b)\<lparr>db_calls := 1\<rparr>) =
    (Inr (''read'', call_params_text \<lparr>call_Name = ''read'', call_Arguments = None\<rparr>, hd (t_servers (db_tables (demo_db b)))),
     (demo_db b)\<lparr>db_calls := 2\<rparr>)"
proof -
  have "srv_active (hd (t_servers (db_tables (demo_db b))))" by (simp add: demo_db_def)
  with demo_server_row [of b] show ?thesis by (simp add: find_server_def demo_call)
qed

text \<open>The handler on the example: up to the policy decision, and then by it.\<close>

definition demo_user :: User where
  "demo_user = \<lparr>user_id = id3, user_email = ''a@b'', user_display = ''A'', user_role = id1, user_active = True, user_created = 0\<rparr>"

definition demo_srv :: DownstreamServer where
  "demo_srv = \<lparr>srv_id = id2, srv_name = ''hr-api'', srv_base_url = ''http://hr'', srv_auth_type = ''api_key'',
    srv_secret_ref = [], srv_manifest = ''[]'', srv_active = True, srv_created = 0\<rparr>"

definition demo_sent_params :: string where
  "demo_sent_params = call_params_text \<lparr>call_Name = ''read'', call_Arguments = None\<rparr>"

lemma demo_handler: "proxy_handler demo_gateway demo_moment demo_in (demo_world b) =
    decide_call demo_gateway demo_moment ''7'' (format_uuid id3) demo_user ''read'' demo_sent_params demo_srv
      ((demo_world b)\<lparr>w_store := (demo_db b)\<lparr>db_calls := 2\<rparr>\<rparr>)"
proof -
  have "hd (t_users (db_tables (demo_db b))) = demo_user" "hd (t_servers (db_tables (demo_db b))) = demo_srv"
    by (simp_all add: demo_db_def demo_user_def demo_srv_def)
  moreover have "w_redis (demo_world b) = demo_keyspace" "w_store (demo_world b) = demo_db b" "req_ID demo_req = ''7''"
    by (simp_all add: demo_world_def demo_req_def)
  ultimately show ?thesis
    using demo_caller [of b] demo_server [of b]
    by (simp add: proxy_handler_def demo_decoded demo_sent_params_def)
qed

lemma demo_evaluated:
  "evaluated demo_gateway demo_moment demo_user demo_srv ''read'' demo_keyspace ((demo_db b)\<lparr>db_calls := 2\<rparr>) =
    (\<lparr>ev_decision = \<lparr>Allowed = b, RedactFields = [''ssn''], MaxCallsPerMinute = 30\<rparr>, ev_error = None,
        ev_job = Some \<lparr>job_key = policy_key id1 id2 ''read'',
          job_policy = \<lparr>cp_Allowed = b, cp_RedactFields = to_slice [''ssn''], cp_Max = 30\<rparr>,
          job_ttl = seconds PolicyTTL\<rparr>\<rparr>, (demo_db b)\<lparr>db_calls := 3\<rparr>)"
proof -
  have "q_GetPolicyByRoleServerTool (queries demo_pg) \<lparr>gp_role = id1, gp_server = id2, gp_tool = ''read''\<rparr>
      ((demo_db b)\<lparr>db_calls := 2\<rparr>) = (Inr (demo_policy b), (demo_db b)\<lparr>db_calls := 3\<rparr>)"
    by (simp add: queries_def exec_def demo_pg_def demo_db_def GetPolicyByRoleServerTool_def reading_def one_def
        demo_text_ok matches_def demo_policy_def)
  then show ?thesis
    using ref_scan_ids demo_uncached
    by (simp add: evaluated_def demo_gateway_def demo_user_def demo_srv_def Evaluate_def Let_def db_engine_def
        policy_key_def decision_of_def demo_policy_def)
qed

lemma demo_limited:
  "\<exists>rl z. limiting demo_gateway demo_moment u demo_srv \<lparr>Allowed = b, RedactFields = [''ssn''], MaxCallsPerMinute = 30\<rparr>
    empty_zspace = (False, rl, z) \<and> res_Allowed rl"
proof -
  let ?k = "RateLimitKey u (format_uuid id2)"
  have one: "res_Allowed (fst (calls mem_zredis u (format_uuid id2) 30 [0] empty_zspace) ! 0)"
  proof -
    have "{v \<in> set (take (Suc 0) [0]). in_window zs_score ([0] ! 0) v} = {0}" by (auto simp: zs_window_self)
    then show ?thesis
      using redis_zsets.calls_exact_fresh [OF zmem.redis_zsets_axioms, of empty_zspace u "format_uuid id2" "[0]" 30 0]
      by (simp add: empty_zspace_view zs_window_self)
  qed
  obtain err rl z where a: "Allow mem_zredis Up u (format_uuid id2) 30 0 empty_zspace = (err, rl, z)" by (metis prod_cases3)
  then have "\<not> err" by (auto simp: Allow_def Let_def split: prod.splits)
  with a one show ?thesis by (simp add: limiting_def demo_gateway_def demo_moment_def demo_srv_def)
qed

definition demo_out :: "bool \<Rightarrow> http_out" where
  "demo_out b = fst (proxy_handler demo_gateway demo_moment demo_in (demo_world b))"

definition demo_after :: "bool \<Rightarrow> (keyspace, zspace, db, http_request list, Event list) world" where
  "demo_after b = snd (proxy_handler demo_gateway demo_moment demo_in (demo_world b))"

lemma demo_run: "proxy_handler demo_gateway demo_moment demo_in (demo_world b) = (demo_out b, demo_after b)"
  by (simp add: demo_out_def demo_after_def)

text \<open>An allowed call reaches the server.\<close>

definition demo_evaluation :: "bool \<Rightarrow> evaluation" where
  "demo_evaluation b = \<lparr>ev_decision = \<lparr>Allowed = b, RedactFields = [''ssn''], MaxCallsPerMinute = 30\<rparr>, ev_error = None,
    ev_job = Some \<lparr>job_key = policy_key id1 id2 ''read'',
      job_policy = \<lparr>cp_Allowed = b, cp_RedactFields = to_slice [''ssn''], cp_Max = 30\<rparr>, job_ttl = seconds PolicyTTL\<rparr>\<rparr>"

definition demo_found :: "bool \<Rightarrow> (keyspace, zspace, db, http_request list, Event list) world" where
  "demo_found b = (demo_world b)\<lparr>w_store := (demo_db b)\<lparr>db_calls := 2\<rparr>\<rparr>"

lemma demo_decided: "decide_call demo_gateway demo_moment ''7'' (format_uuid id3) demo_user ''read'' demo_sent_params demo_srv
    (demo_found b) = (demo_out b, demo_after b)"
  using demo_handler [of b] demo_run [of b] by (simp add: demo_found_def)

lemma demo_found_evaluated: "evaluated demo_gateway demo_moment demo_user demo_srv ''read'' (w_redis (demo_found b))
    (w_store (demo_found b)) = (demo_evaluation b, (demo_db b)\<lparr>db_calls := 3\<rparr>)"
  using demo_evaluated [of b] by (simp add: demo_found_def demo_world_def demo_evaluation_def)

lemma demo_found_limited: "\<exists>rl z. limiting demo_gateway demo_moment (format_uuid id3) demo_srv
    (ev_decision (demo_evaluation b)) (w_zsets (demo_found b)) = (False, rl, z) \<and> res_Allowed rl"
  using demo_limited [of "format_uuid id3" b] by (simp add: demo_found_def demo_world_def demo_evaluation_def)

lemma demo_reached: "w_net (demo_after True) \<noteq> w_net (demo_world True)"
proof -
  obtain rl z where rl: "limiting demo_gateway demo_moment (format_uuid id3) demo_srv
      (ev_decision (demo_evaluation True)) (w_zsets (demo_found True)) = (False, rl, z)" "res_Allowed rl"
    using demo_found_limited by blast
  from demo_decided [of True] demo_found_evaluated [of True] rl(1) show ?thesis
  proof (cases rule: decide_call_cases)
    case (forwarded w2)
    have "json_parse Some ''7'' \<noteq> None" by code_simp
    moreover have "raw_ok demo_sent_params"
      using reads_map_object [of "[(''name'', JStr ''read'')]" Some] demo_texts_ok
      by (auto simp: raw_ok_def demo_sent_params_def call_params_text_def optional_def reads_map_def unmarshal_def
          split: if_splits)
    ultimately have sent: "snd (forwarding demo_gateway demo_srv ''7'' demo_sent_params []) \<noteq> []"
      by (simp add: forwarding_def forwarded_request_def Forward_def build_request_def raw_ok_def demo_gateway_def demo_srv_def
          demo_http_def)
    from forwarded(4) show ?thesis
      by (cases rule: forward_call_cases) (use sent forwarded(5) in \<open>simp_all add: demo_found_def demo_world_def\<close>)
  qed (use rl(2) in \<open>simp_all add: demo_evaluation_def\<close>)
qed

text \<open>The denied call, and its event.\<close>

definition denied_event :: Event where
  "denied_event = event_of demo_gateway demo_moment (format_uuid id3) demo_srv ''read'' OutcomeDenied demo_sent_params [''ssn''] []"

lemma demo_denied_pub: "w_pub (demo_after False) = [denied_event]"
proof -
  obtain rl z where rl: "limiting demo_gateway demo_moment (format_uuid id3) demo_srv
      (ev_decision (demo_evaluation False)) (w_zsets (demo_found False)) = (False, rl, z)"
    using demo_found_limited by blast
  from demo_decided [of False] demo_found_evaluated [of False] rl show ?thesis
    by (cases rule: decide_call_cases)
      (simp_all add: demo_evaluation_def demo_gateway_def Memory_Publish_def demo_found_def demo_world_def denied_event_def)
qed

theorem forwarded_only_after_all_checks_witness:
  "\<exists>tok. in_authorization demo_in = ''Bearer '' @ tok \<and> Validate (gw_tokens demo_gateway) tok 0 demo_keyspace \<noteq> Inl ErrRedis"
  using forwarded_only_after_all_checks [OF demo_run demo_reached]
  by (auto simp: demo_moment_def demo_world_def)

theorem only_authorised_calls_reach_servers_witness:
  "\<exists>user srv. user \<in> set (t_users (db_tables (demo_db True))) \<and> user_active user \<and>
    srv \<in> set (t_servers (db_tables (demo_db True))) \<and> srv_active srv \<and> srv_name srv = ''hr-api'' \<and>
    (\<exists>p \<in> set (t_policies (db_tables (demo_db True))). matches (user_role user) (srv_id srv) ''read'' p \<and> pol_allowed p)"
proof -
  have g: "deployed_on mem_redis demo_pg demo_gateway"
    by (simp add: deployed_on_def demo_gateway_def NewTokenManager_def uuid_scanner_ref)
  have w: "w_store (demo_world True) = demo_db True" "w_redis (demo_world True) = demo_keyspace"
    by (simp_all add: demo_world_def)
  have "store_good (w_store (demo_world True))"
    "\<forall>u \<in> set (t_users (db_tables (w_store (demo_world True)))). uuid_ok (user_role u)"
    "\<forall>s \<in> set (t_servers (db_tables (w_store (demo_world True)))). uuid_ok (srv_id s)"
    using demo_db_good unfolding w by (simp_all add: demo_db_def)
  from only_authorised_calls_reach_servers [OF g mem.redis_strings_axioms this demo_run demo_reached]
  show ?thesis
    unfolding w using demo_uncached demo_decoded demo_call by (fastforce simp: policy_key_def)
qed

text \<open>Every call of this tool by this caller is denied when the policy says so.\<close>

lemma demo_ends_denied:
  assumes "parseToolCall demo_gateway req = Inr (''hr-api'', ''read'', params)" and "in_authorization inp = in_authorization demo_in"
  shows "ends demo_gateway demo_moment inp req (demo_world False)
    (Decided (format_uuid id3) demo_srv ''read'' params [''ssn''] Policy_denied)"
proof -
  have rows: "hd (t_users (db_tables (demo_db b))) = demo_user" "hd (t_servers (db_tables (demo_db b))) = demo_srv" for b
    by (simp_all add: demo_db_def demo_user_def demo_srv_def)
  have w: "w_redis (demo_world False) = demo_keyspace" "w_store (demo_world False) = demo_db False" by (simp_all add: demo_world_def)
  have c: "caller demo_gateway demo_moment (in_authorization inp) (w_redis (demo_world False)) (w_store (demo_world False))
      (format_uuid id3) demo_user ((demo_db False)\<lparr>db_calls := 1\<rparr>)"
    using authenticate_ok [OF demo_caller [of False]] unfolding rows w assms(2) .
  have t: "target demo_gateway req ((demo_db False)\<lparr>db_calls := 1\<rparr>) ''read'' params demo_srv ((demo_db False)\<lparr>db_calls := 2\<rparr>)"
    using demo_server_row [of False] assms(1) by (simp add: target_def rows) (simp add: demo_srv_def)
  have ev: "evaluated demo_gateway demo_moment demo_user demo_srv ''read'' (w_redis (demo_world False)) ((demo_db False)\<lparr>db_calls := 2\<rparr>)
      = (demo_evaluation False, (demo_db False)\<lparr>db_calls := 3\<rparr>)"
    using demo_evaluated [of False] by (simp add: w demo_evaluation_def)
  have "\<not> Allowed (ev_decision (demo_evaluation False))" "Decision.RedactFields (ev_decision (demo_evaluation False)) = [''ssn'']"
    by (simp_all add: demo_evaluation_def)
  with ends.denied [OF c t ev] show ?thesis by simp
qed

theorem every_decision_is_audited_once_witness:
  "\<exists>e. w_pub (demo_after False) = [e] \<and> event_Outcome e = ''denied'' \<and> event_Tool e = ''read'' \<and>
    w_net (demo_after False) = [] \<and>
    demo_out False = writeRPCError [] ''7'' (- 32002) ''tool call denied by policy''"
proof -
  have "ends demo_gateway demo_moment demo_in demo_req (demo_world False)
      (Decided (format_uuid id3) demo_srv ''read'' demo_sent_params [''ssn''] Policy_denied)"
    by (rule demo_ends_denied) (simp_all add: demo_call demo_sent_params_def)
  with every_decision_is_audited_once [OF demo_run [of False]] have
    "stage_reply demo_gateway ''7'' (Decided (format_uuid id3) demo_srv ''read'' demo_sent_params [''ssn''] Policy_denied) (demo_out False)"
    "w_pub (demo_after False) = snd (gw_publish demo_gateway (event_of demo_gateway demo_moment (format_uuid id3) demo_srv ''read''
      OutcomeDenied demo_sent_params [''ssn''] []) (w_pub (demo_world False)))"
    "w_net (demo_after False) = w_net (demo_world False)"
    by (auto simp: demo_decoded stage_event_of contacted_def) (simp add: demo_req_def)
  then show ?thesis
    by (simp add: stage_reply_def CodeForbidden_def event_of_def NewEvent_def demo_gateway_def Memory_Publish_def demo_world_def outcome_defs)
qed

end
