(* ===== verification/Proxy_Redaction.thy ===== *)
theory Proxy_Redaction
  imports Proxy
begin

text \<open>
  Redaction in the proxy: what the forwarded parameters hold, what of them the audit log gets to see, what the
  client gets to see of the answer, and where the redaction of the answer does not apply.
\<close>

section \<open>The parameters\<close>

text \<open>The members of the clean parameters.\<close>

definition clean_members :: "string \<Rightarrow> (string \<times> json) list \<Rightarrow> (string \<times> json) list" where
  "clean_members name args = (''name'', JStr name) # (if args = [] then [] else [(''arguments'', JObj args)])"

lemma call_params_members:
  "call_params_text \<lparr>call_Name = name, call_Arguments = Some args\<rparr> = object_text (printed (clean_members name args))"
  by (simp add: call_params_text_def clean_members_def optional_def map_text_def)

lemma clean_params_read:
  assumes "utf8_ok name" and "json_ok f (max_depth - 1) (JObj args)"
  shows "reads_map f (call_params_text \<lparr>call_Name = name, call_Arguments = Some args\<rparr>) (map_puts [] (clean_members name args))"
proof -
  have "utf8_ok ''name''" "utf8_ok ''arguments''" by (simp_all add: utf8_len_def)
  then show ?thesis
    unfolding call_params_members using assms
    by (intro reads_map_object) (auto simp: clean_members_def simp del: utf8_ok.simps split: if_splits)
qed

lemma map_of_clean:
  "map_of (map_puts [] (clean_members name args)) k =
    (if k = ''name'' then Some (JStr name) else if k = ''arguments'' \<and> args \<noteq> [] then Some (JObj args) else None)"
  by (auto simp: clean_members_def map_of_map_put)

text \<open>The proxy's own parameter is stripped. The parameters that are forwarded decode to an object with the
  tool name, the arguments when there are any, and nothing else: no \<^verbatim>\<open>server\<close> member is left.\<close>

theorem forwarded_params_are_clean:
  assumes "utf8_ok name" and "json_ok f (max_depth - 1) (JObj args)"
  shows "\<exists>doc. reads_map f (call_params_text \<lparr>call_Name = name, call_Arguments = Some args\<rparr>) doc \<and>
    map_of doc ''name'' = Some (JStr name) \<and> map_of doc ''arguments'' = (if args = [] then None else Some (JObj args)) \<and>
    dom (map_of doc) \<subseteq> {''name'', ''arguments''}"
  using clean_params_read [OF assms] by (intro exI conjI, assumption) (auto simp: map_of_clean split: if_splits)

theorem forwarded_params_are_clean_witness:
  "\<exists>doc. reads_map demo_f64 (call_params_text \<lparr>call_Name = ''read'', call_Arguments = Some [(''ssn'', JStr ''1'')]\<rparr>) doc \<and>
    map_of doc ''name'' = Some (JStr ''read'')"
  using forwarded_params_are_clean [of "''read''" demo_f64 "[(''ssn'', JStr ''1'')]"]
  by (auto simp: utf8_len_def max_depth_def)

text \<open>The arguments of a call are audited unredacted. The redaction of the parameters in the audit event looks at
  the members \<^verbatim>\<open>name\<close> and \<^verbatim>\<open>arguments\<close> only; so unless the policy lists \<^verbatim>\<open>arguments\<close> itself, every argument is in
  the event with its value, the fields that the policy wants redacted included.\<close>

theorem arguments_are_audited_unredacted:
  assumes "number_codec f" and "utf8_ok name" and "json_ok f (max_depth - 1) (JObj args)" and "args \<noteq> []"
    and "''arguments'' \<notin> set fs"
  shows "\<exists>doc. reads_map f (RedactJSONBytes f (call_params_text \<lparr>call_Name = name, call_Arguments = Some args\<rparr>) fs) doc \<and>
    map_of doc ''arguments'' = Some (JObj args)"
proof (cases "fs = []")
  case True
  then show ?thesis
    using clean_params_read [OF assms(2,3)] assms(4) by (auto simp: RedactJSONBytes_def map_of_clean)
next
  case False
  let ?p = "call_params_text \<lparr>call_Name = name, call_Arguments = Some args\<rparr>"
  have reads: "reads_map f ?p (map_puts [] (clean_members name args))" by (rule clean_params_read [OF assms(2,3)])
  then have ok: "json_ok f max_depth (JObj (map_puts [] (clean_members name args)))" by (rule reads_map_ok [OF assms(1)])
  have "reads_map f (RedactJSONBytes f ?p fs) (redact_doc fs (map_puts [] (clean_members name args)))"
    unfolding RedactJSONBytes_object [OF reads False] by (rule reads_map_print [OF json_ok_redact_doc [OF ok]])
  then show ?thesis
    using ok assms(4,5) by (auto simp: redact_doc_lookup map_of_clean)
qed

theorem arguments_are_audited_unredacted_witness:
  "\<exists>doc. reads_map demo_f64 (RedactJSONBytes demo_f64
      (call_params_text \<lparr>call_Name = ''read'', call_Arguments = Some [(''ssn'', JStr ''1'')]\<rparr>) [''ssn'']) doc \<and>
    map_of doc ''arguments'' = Some (JObj [(''ssn'', JStr ''1'')])"
  by (rule arguments_are_audited_unredacted [OF demo_f64_codec]) (simp_all add: utf8_len_def max_depth_def)

section \<open>The answer\<close>

text \<open>Two content items that differ at most in the values of listed keys.\<close>

definition same_but :: "(string \<Rightarrow> string option) \<Rightarrow> string list \<Rightarrow> ContentItem \<Rightarrow> ContentItem \<Rightarrow> bool" where
  "same_but f fs i j \<longleftrightarrow> i = j \<or>
    (item_Type i = ''text'' \<and> item_Type j = ''text'' \<and>
     (\<exists>d d'. reads_map f (item_Text i) d \<and> reads_map f (item_Text j) d' \<and> dom (map_of d) = dom (map_of d') \<and>
       (\<forall>k. k \<notin> set fs \<longrightarrow> map_of d k = map_of d' k)))"

lemma redact_item_same:
  assumes "number_codec f" and "same_but f fs i j"
  shows "redact_item f fs i = redact_item f fs j"
proof (cases "i = j")
  case False
  then obtain d d' where t: "item_Type i = ''text''" "item_Type j = ''text''"
    and r: "reads_map f (item_Text i) d" "reads_map f (item_Text j) d'"
    and same: "dom (map_of d) = dom (map_of d')" "\<And>k. k \<notin> set fs \<Longrightarrow> map_of d k = map_of d' k"
    using assms(2) by (auto simp: same_but_def)
  have "ordered d" "ordered d'" using reads_map_ok [OF assms(1) r(1)] reads_map_ok [OF assms(1) r(2)] by simp_all
  then have "redact_doc fs d = redact_doc fs d'" by (intro redact_doc_hides same)
  then show ?thesis
    using t reads_map_nonempty [OF r(1)] reads_map_nonempty [OF r(2)]
    by (simp add: redact_item_def redactJSON_object [OF r(1)] redactJSON_object [OF r(2)])
qed simp

text \<open>The client does not learn redacted values. When two answers of a server are tool results with the same error
  flag, whose content items differ at most in the values of keys that the policy lists, then the redaction makes the same
  response of both.\<close>

lemma redacted_answers_equal:
  assumes "number_codec f" and "fs \<noteq> []" and "resp_Result r \<noteq> []" and "x \<noteq> []"
    and "unmarshal dec_tool_result zero_ToolResult (resp_Result r) = Some t"
    and "unmarshal dec_tool_result zero_ToolResult x = Some t'"
    and "list_all2 (same_but f fs) (slice_list (tool_Content t)) (slice_list (tool_Content t'))"
    and "tool_IsError t = tool_IsError t'"
  shows "redact_response f fs r = redact_response f fs (r\<lparr>resp_Result := x\<rparr>)"
proof -
  have "map (redact_item f fs) is = map (redact_item f fs) js" if "list_all2 (same_but f fs) is js" for "is" js
    using that redact_item_same [OF assms(1)] by (induction rule: list_all2_induct) auto
  then have "map (redact_item f fs) (slice_list (tool_Content t)) = map (redact_item f fs) (slice_list (tool_Content t'))"
    using assms(7) .
  then have "Mcp.RedactFields f t fs = Mcp.RedactFields f t' fs"
    using assms(2,8) by (simp add: Mcp.RedactFields_def)
  then show ?thesis using assms by (simp add: redact_response_def)
qed

theorem redacted_answers_agree:
  assumes "number_codec f" and "fs \<noteq> []" and "resp_Result r \<noteq> []" and "x \<noteq> []"
    and "unmarshal dec_tool_result zero_ToolResult (resp_Result r) = Some t"
    and "unmarshal dec_tool_result zero_ToolResult x = Some t'"
    and "list_all2 (same_but f fs) (slice_list (tool_Content t)) (slice_list (tool_Content t'))"
    and "tool_IsError t = tool_IsError t'"
  shows "writeJSON hs (redact_response f fs r) = writeJSON hs (redact_response f fs (r\<lparr>resp_Result := x\<rparr>)) \<and>
    resp_Result (redact_response f fs r) = resp_Result (redact_response f fs (r\<lparr>resp_Result := x\<rparr>))"
  using redacted_answers_equal [OF assms] by simp

text \<open>The witness: one text item each, with different values of the listed key.\<close>

definition demo_item :: "string \<Rightarrow> json" where
  "demo_item txt = JObj [(''text'', JStr txt), (''type'', JStr ''text'')]"

definition demo_result :: "string \<Rightarrow> string" where
  "demo_result txt = object_text (printed [(''content'', JArr [demo_item txt])])"

lemma demo_item_read:
  assumes "utf8_ok txt"
  shows "dec_struct item_field (json_print (demo_item txt)) zero_ContentItem = Some \<lparr>item_Type = ''text'', item_Text = txt\<rparr>"
proof -
  let ?kvs = "[(''text'', JStr txt), (''type'', JStr ''text'')]"
  have folds: "fold_name ''text'' = ''TEXT''" "fold_name ''type'' = ''TYPE''" by code_simp+
  have ascii: "utf8_ok ''text''" "utf8_ok ''type''" by (simp_all add: utf8_len_def)
  have "member_ok e" if "e \<in> set ?kvs" for e
    using that assms ascii by (auto simp: member_ok_def simp del: utf8_ok.simps)
  note dec_struct_object [of ?kvs item_field zero_ContentItem, OF this]
  moreover have "json_print (demo_item txt) = object_text (printed ?kvs)" by (simp add: demo_item_def object_text_def)
  ultimately show ?thesis
    using assms ascii
    by (simp add: set_fields_Cons folds item_field_def zero_ContentItem_def del: fold_name.simps utf8_ok.simps)
qed

lemma demo_result_read:
  assumes "utf8_ok txt"
  shows "unmarshal dec_tool_result zero_ToolResult (demo_result txt) =
    Some \<lparr>tool_Content = to_slice [\<lparr>item_Type = ''text'', item_Text = txt\<rparr>], tool_IsError = False\<rparr>"
proof -
  let ?kvs = "[(''content'', JArr [demo_item txt])]"
  have fold: "fold_name ''content'' = ''CONTENT''" by code_simp
  have ascii: "utf8_ok ''content''" "utf8_ok ''text''" "utf8_ok ''type''" by (simp_all add: utf8_len_def)
  have ok: "json_ok Some (max_depth - n) (demo_item txt)" if "n \<le> 2" for n
    using assms ascii that by (auto simp: demo_item_def max_depth_def less_char_def simp del: utf8_ok.simps)
  have "member_ok e" if "e \<in> set ?kvs" for e
    using that ascii ok [of 2] by (auto simp: member_ok_def max_depth_def numeral_2_eq_2 simp del: utf8_ok.simps)
  then have "unmarshal dec_tool_result zero_ToolResult (demo_result txt) = set_fields tool_result_field (printed ?kvs) zero_ToolResult"
    unfolding dec_tool_result_def demo_result_def by (rule unmarshal_object)
  moreover have "raw_elems (json_print (JArr [demo_item txt])) = Some [json_print (demo_item txt)]"
    using raw_elems_array [of "[demo_item txt]"] ok [of 1] by (simp add: array_text_def)
  ultimately show ?thesis
    using demo_item_read [OF assms]
    by (simp add: set_fields_Cons fold tool_result_field_def zero_ToolResult_def dec_slice_def is_null_def nil_slice_def
        to_slice_def del: fold_name.simps)
qed

lemma demo_text_utf8: "utf8_ok (demo_text ''123'')" "utf8_ok (demo_text ''456'')"
  by code_simp+

lemma demo_items_same: "same_but demo_f64 [''ssn'']
    \<lparr>item_Type = ''text'', item_Text = demo_text ''123''\<rparr> \<lparr>item_Type = ''text'', item_Text = demo_text ''456''\<rparr>"
proof -
  have "dom (map_of (demo_doc ''123'')) = dom (map_of (demo_doc ''456''))"
    "\<forall>k. k \<notin> set [''ssn''] \<longrightarrow> map_of (demo_doc ''123'') k = map_of (demo_doc ''456'') k"
    by (auto simp: demo_doc_def)
  then show ?thesis
    using demo_text_reads [OF demo_ssn_ok(1)] demo_text_reads [OF demo_ssn_ok(2)] by (auto simp: same_but_def)
qed

theorem redacted_answers_agree_witness:
  "resp_Result (redact_response demo_f64 [''ssn''] (zero_Response\<lparr>resp_Result := demo_result (demo_text ''123'')\<rparr>)) =
   resp_Result (redact_response demo_f64 [''ssn''] (zero_Response\<lparr>resp_Result := demo_result (demo_text ''456'')\<rparr>))"
proof -
  let ?r = "zero_Response\<lparr>resp_Result := demo_result (demo_text ''123'')\<rparr>"
  have read: "unmarshal dec_tool_result zero_ToolResult (resp_Result ?r) =
      Some \<lparr>tool_Content = to_slice [\<lparr>item_Type = ''text'', item_Text = demo_text ''123''\<rparr>], tool_IsError = False\<rparr>"
    using demo_result_read [OF demo_text_utf8(1)] by simp
  have some: "demo_result u \<noteq> []" for u by (simp add: demo_result_def object_text_def)
  have "resp_Result (redact_response demo_f64 [''ssn''] ?r) =
      resp_Result (redact_response demo_f64 [''ssn''] (?r\<lparr>resp_Result := demo_result (demo_text ''456'')\<rparr>))"
    by (rule redacted_answers_agree [OF demo_f64_codec _ _ _ read demo_result_read [OF demo_text_utf8(2)], THEN conjunct2])
      (simp_all add: some demo_items_same)
  then show ?thesis by simp
qed

definition array_response :: "Response" where
  "array_response = \<lparr>resp_JSONRPC = ''2.0'', resp_ID = ''1'', resp_Result = ''[{}]'', resp_Error = None\<rparr>"

text \<open>The redaction of the answer fails open. An answer whose result is a JSON array is passed on as it is,
  whatever the policy lists: only results that decode as a tool result are redacted.\<close>

theorem array_results_pass_unredacted:
  assumes "skip_ws (resp_Result r) = CHR ''['' # x"
  shows "redact_response f fs r = r"
proof -
  have "dec_tool_result (raw_between (CHR ''['' # x) t) zero_ToolResult = None" for t
  proof (cases "raw_between (CHR ''['' # x) t")
    case Nil
    then show ?thesis by (simp add: dec_tool_result_def dec_struct_def is_null_def raw_members_def cut_prefix_def)
  next
    case (Cons c u)
    then have c: "c = CHR ''[''" by (auto simp: raw_between_def take_Cons split: nat.splits)
    show ?thesis
      unfolding Cons by (simp add: c dec_tool_result_def dec_struct_def is_null_def raw_members_def cut_prefix_def)
  qed
  then have "unmarshal dec_tool_result zero_ToolResult (resp_Result r) = None"
    using assms by (auto simp: unmarshal_def decode_def split: option.splits)
  then show ?thesis by (simp add: redact_response_def)
qed

theorem array_results_pass_unredacted_witness:
  "redact_response demo_f64 [''ssn''] array_response = array_response"
  by (rule array_results_pass_unredacted [where x = "''{}]''"]) (simp add: array_response_def is_ws_def)

end
