(* ===== verification/Message_Types.thy ===== *)
theory Message_Types
  imports Mcp_Props Json_Compact
begin

text \<open>
  Type soundness of the messages. A message that was decoded has JSON in its \<^verbatim>\<open>RawMessage\<close> fields
  (\<open>decoded_request\<close>, \<open>decoded_response\<close>), the proxy's own steps keep it there (\<open>call_params_raw\<close>, \<open>redact_bytes_raw\<close>,
  \<open>tool_result_raw\<close>), so \<^verbatim>\<open>Marshal\<close> never fails on it, and what is printed decodes again (\<open>request_read\<close>,
  \<open>response_read\<close>).
\<close>

section \<open>The depth of a value\<close>

text \<open>A value that the syntax check accepts within a depth is built within that depth.\<close>

lemma parse_depth:
  "parse_value f n D s = Some (v, t) \<Longrightarrow> parse_value Some n d s = Some (w, u) \<Longrightarrow> parse_value f n d s = Some (v, t) \<and> u = t"
  "parse_elems f n D s = Some (vs, t) \<Longrightarrow> parse_elems Some n d s = Some (ws, u) \<Longrightarrow> parse_elems f n d s = Some (vs, t) \<and> u = t"
  "parse_members f n D s = Some (kvs, t) \<Longrightarrow> parse_members Some n d s = Some (kws, u) \<Longrightarrow>
    parse_members f n d s = Some (kvs, t) \<and> u = t"
proof (induction f n D s and f n D s and f n D s arbitrary: d v t w u and d vs t ws u and d kvs t kws u
    rule: parse_value_parse_elems_parse_members.induct)
  case (2 f n D s)
  from "2.prems" obtain c r where s: "s = c # r" by (cases s) (auto simp: parse_value.simps)
  consider (obj) "c = CHR ''{''" | (arr) "c = CHR ''[''" | (num) "c \<notin> {CHR ''{'', CHR ''[''}" by auto
  then show ?case
  proof cases
    case obj
    then have D: "D \<noteq> 0" "d \<noteq> 0" using "2.prems" by (auto simp: s parse_value.simps split: if_splits)
    show ?thesis
    proof (cases "cut_prefix (skip_ws r) ''}''")
      case None
      then obtain kvs kws where k: "parse_members f n (D - 1) (skip_ws r) = Some (kvs, t)" "v = JObj (map_puts [] kvs)"
        and "parse_members Some n (d - 1) (skip_ws r) = Some (kws, u)"
        using "2.prems" D obj by (auto simp: s parse_value.simps)
      from "2.IH"(1) [OF s obj D(1) None k(1) this(3)] k(2) None D obj show ?thesis by (simp add: s parse_value.simps)
    qed (use "2.prems" D obj in \<open>simp add: s parse_value.simps\<close>)
  next
    case arr
    then have D: "D \<noteq> 0" "d \<noteq> 0" using "2.prems" by (auto simp: s parse_value.simps split: if_splits)
    have c: "c \<noteq> CHR ''{''" using arr by simp
    show ?thesis
    proof (cases "cut_prefix (skip_ws r) '']''")
      case None
      then obtain vs ws where k: "parse_elems f n (D - 1) (skip_ws r) = Some (vs, t)" "v = JArr vs"
        and "parse_elems Some n (d - 1) (skip_ws r) = Some (ws, u)"
        using "2.prems" D arr by (auto simp: s parse_value.simps)
      from "2.IH"(2) [OF s c arr D(1) None k(1) this(3)] k(2) None D arr show ?thesis by (simp add: s parse_value.simps)
    qed (use "2.prems" D arr in \<open>simp add: s parse_value.simps\<close>)
  next
    case num
    then show ?thesis using "2.prems" by (auto simp: s parse_value.simps split: if_splits option.splits)
  qed
next
  case (4 f n D s)
  from "4.prems"(1) obtain v r where v: "parse_value f n D s = Some (v, r)"
    by (auto simp: parse_elems.simps split: option.splits)
  from "4.prems"(2) obtain w r' where "parse_value Some n d s = Some (w, r')"
    by (auto simp: parse_elems.simps split: option.splits)
  with "4.IH"(1) [OF v] have w: "parse_value f n d s = Some (v, r)" "parse_value Some n d s = Some (w, r)" by blast+
  from v "4.prems" obtain c t1 where t1: "skip_ws r = c # t1"
    by (auto simp: parse_elems.simps split: list.splits)
  show ?case
  proof (cases "c = CHR '']''")
    case True
    then show ?thesis using "4.prems" v w t1 by (simp add: parse_elems.simps)
  next
    case False
    then obtain vs' ws' where c: "c = CHR '',''" and vs: "parse_elems f n D (skip_ws t1) = Some (vs', t)" "vs = v # vs'"
      and ws: "parse_elems Some n d (skip_ws t1) = Some (ws', u)"
      using "4.prems" v w t1 by (auto simp: parse_elems.simps split: if_splits)
    from "4.IH"(2) [OF v refl t1 False c vs(1) ws] vs(2) c w t1 show ?thesis by (simp add: parse_elems.simps)
  qed
next
  case (6 f n D s)
  from "6.prems" obtain k s3 where k: "scan_key s = Some (k, s3)"
    by (auto simp: parse_members.simps split: option.splits)
  from "6.prems"(1) k obtain v r where v: "parse_value f n D s3 = Some (v, r)"
    by (auto simp: parse_members.simps split: option.splits)
  from "6.prems"(2) k obtain w r' where "parse_value Some n d s3 = Some (w, r')"
    by (auto simp: parse_members.simps split: option.splits)
  with "6.IH"(1) [OF k refl v] have w: "parse_value f n d s3 = Some (v, r)" "parse_value Some n d s3 = Some (w, r)" by blast+
  from k v "6.prems" obtain c t1 where t1: "skip_ws r = c # t1"
    by (auto simp: parse_members.simps split: list.splits)
  show ?case
  proof (cases "c = CHR ''}''")
    case True
    then show ?thesis using "6.prems" k v w t1 by (simp add: parse_members.simps)
  next
    case False
    then obtain kvs' kws' where c: "c = CHR '',''" and kvs: "parse_members f n D (skip_ws t1) = Some (kvs', t)" "kvs = (k, v) # kvs'"
      and ws: "parse_members Some n d (skip_ws t1) = Some (kws', u)"
      using "6.prems" k v w t1 by (auto simp: parse_members.simps split: if_splits)
    from "6.IH"(2) [OF k refl v refl t1 False c kvs(1) ws] kvs(2) c k w t1 show ?thesis by (simp add: parse_members.simps)
  qed
qed (simp_all add: parse_value.simps parse_elems.simps parse_members.simps)

lemma json_parse_depth:
  assumes "number_codec f" and "json_parse f x = Some v" and "raw_value d x" and "d \<le> max_depth"
  shows "json_ok f d v"
proof -
  obtain w where w: "raw_at Some d x w" using assms(3) by (auto simp: raw_value_def)
  have "skip_ws x = x" using raw_at_skip [OF w, of "[]"] by simp
  with assms(2) obtain t where p: "parse_value f (fuel_for x) max_depth x = Some (v, t)"
    by (auto simp: json_parse_def json_prefix_def split: option.splits if_splits)
  have "parse_value Some (fuel_for x) d x = Some (w, [])"
    using raw_at_parse [OF w order_refl delim_Nil] by (simp add: fuel_for_def)
  with parse_depth(1) [OF p] have "parse_value f (fuel_for x) d x = Some (v, t)" by blast
  then show ?thesis by (rule parse_json_ok(1) [OF assms(1)])
qed

section \<open>Messages with JSON in their raw fields\<close>

definition request_typed :: "nat \<Rightarrow> Request \<Rightarrow> bool" where
  "request_typed d x \<longleftrightarrow> raw_field d (req_ID x) \<and> raw_field d (req_Params x)"

definition error_typed :: "nat \<Rightarrow> RPCError \<Rightarrow> bool" where
  "error_typed d x \<longleftrightarrow> raw_field d (err_Data x)"

definition response_typed :: "nat \<Rightarrow> Response \<Rightarrow> bool" where
  "response_typed d x \<longleftrightarrow> raw_field d (resp_ID x) \<and> raw_field d (resp_Result x) \<and>
    (case resp_Error x of None \<Rightarrow> True | Some e \<Rightarrow> error_typed (d - 1) e)"

lemma request_field_keeps: "field_keeps d request_field (request_typed d)"
  unfolding field_keeps_def
proof (intro allI impI)
  fix k raw y y'
  assume f: "raw_value d raw" "request_typed d y" "request_field k raw y = Some y'"
  consider "k = ''JSONRPC''" | "k = ''ID''" | "k = ''METHOD''" | "k = ''PARAMS''"
    | "k \<notin> {''JSONRPC'', ''ID'', ''METHOD'', ''PARAMS''}" by blast
  then show "request_typed d y'"
    using f by cases (auto simp: request_field_def request_typed_def dec_raw_def raw_field_value)
qed

lemma error_field_keeps: "field_keeps d rpc_error_field (error_typed d)"
  by (auto simp: field_keeps_def rpc_error_field_def error_typed_def dec_raw_def raw_field_value split: if_splits)

lemma dec_error_keeps:
  assumes "dec_ptr (dec_struct rpc_error_field) zero_RPCError raw old = Some new" and "raw_value d raw" and "d \<le> max_depth"
    and "case old of None \<Rightarrow> True | Some e \<Rightarrow> error_typed (d - 1) e"
  shows "case new of None \<Rightarrow> True | Some e \<Rightarrow> error_typed (d - 1) e"
proof (cases "is_null raw")
  case False
  then obtain e where e: "dec_struct rpc_error_field raw (case old of None \<Rightarrow> zero_RPCError | Some x \<Rightarrow> x) = Some e" "new = Some e"
    using assms(1) by (auto simp: dec_ptr_def)
  have "error_typed (d - 1) (case old of None \<Rightarrow> zero_RPCError | Some x \<Rightarrow> x)"
    using assms(4) by (auto simp: zero_RPCError_def error_typed_def split: option.splits)
  with dec_struct_keeps [OF error_field_keeps e(1) assms(2,3)] e(2) show ?thesis by simp
qed (use assms(1) in \<open>simp add: dec_ptr_def\<close>)

lemma response_field_keeps: "d \<le> max_depth \<Longrightarrow> field_keeps d response_field (response_typed d)"
  unfolding field_keeps_def
proof (intro allI impI)
  fix k raw y y'
  assume d: "d \<le> max_depth" "raw_value d raw" "response_typed d y" "response_field k raw y = Some y'"
  then show "response_typed d y'"
    using dec_error_keeps [OF _ d(2,1), of "resp_Error y"]
    by (auto simp: response_field_def response_typed_def dec_raw_def raw_field_value split: if_splits)
qed

lemma decoded_request:
  assumes "decode dec_request zero_Request s = Some req"
  shows "request_typed (max_depth - 1) req"
proof -
  obtain x where x: "raw_value max_depth x" "dec_struct request_field x zero_Request = Some req"
    using decode_value [OF assms] by (auto simp: dec_request_def)
  from dec_struct_keeps [OF request_field_keeps x(2,1) order_refl] show ?thesis
    by (simp add: request_typed_def zero_Request_def)
qed

lemma decoded_response:
  assumes "unmarshal dec_response zero_Response s = Some resp"
  shows "response_typed (max_depth - 1) resp"
proof -
  obtain x where x: "raw_value max_depth x" "dec_struct response_field x zero_Response = Some resp"
    using unmarshal_value [OF assms] by (auto simp: dec_response_def)
  from dec_struct_keeps [OF response_field_keeps x(2,1) order_refl] show ?thesis
    by (simp add: response_typed_def zero_Response_def)
qed

section \<open>What the proxy makes of raw fields\<close>

text \<open>The arguments of a call, decoded from inside the parameters.\<close>

definition map_typed :: "(string \<Rightarrow> string option) \<Rightarrow> nat \<Rightarrow> json_map \<Rightarrow> bool" where
  "map_typed f d m \<longleftrightarrow> (case m of None \<Rightarrow> True | Some kvs \<Rightarrow> json_ok f d (JObj kvs))"

lemma map_typed_text: "map_typed f d m \<Longrightarrow> raw_value d (map_text m)"
  using raw_value_null raw_value_print [OF json_ok_Some]
  by (auto simp: map_typed_def map_text_def split: option.splits simp del: json_print.simps json_ok.simps)

lemma dec_map_keeps:
  assumes "number_codec f" and "dec_map f raw old = Some new" and "raw_value d raw" and "d \<le> max_depth" and "map_typed f d old"
  shows "map_typed f d new"
proof (cases "is_null raw")
  case False
  then obtain kvs where kvs: "json_parse f raw = Some (JObj kvs)"
    and new: "new = Some (map_puts (case old of None \<Rightarrow> [] | Some m \<Rightarrow> m) kvs)"
    using assms(2) by (auto simp: dec_map_def split: option.splits json.splits)
  obtain m where m: "new = Some (map_puts m kvs)" "ordered m" "\<forall>(k, v) \<in> set m. utf8_ok k \<and> json_ok f (d - 1) v"
    using assms(5) new by (cases old) (auto simp: map_typed_def)
  have kvs_ok: "json_ok f d (JObj kvs)" by (rule json_parse_depth [OF assms(1) kvs assms(3,4)])
  have "\<forall>(k, v) \<in> set m \<union> set kvs. utf8_ok k \<and> json_ok f (d - 1) v"
    using m(3) kvs_ok by auto
  then have "\<forall>(k, v) \<in> set (map_puts m kvs). utf8_ok k \<and> json_ok f (d - 1) v"
    using set_map_puts [of m kvs] by blast
  with kvs_ok m(2) have "json_ok f d (JObj (map_puts m kvs))" by (simp add: ordered_map_puts)
  then show ?thesis by (simp add: m(1) map_typed_def)
qed (use assms(2) in \<open>simp add: dec_map_def map_typed_def\<close>)

lemma call_params_raw:
  assumes "map_typed f d (call_Arguments x)"
  shows "raw_value (Suc d) (call_params_text x)"
  unfolding call_params_text_def
  using map_typed_text [OF assms] by (intro raw_value_object) (auto simp: raw_value_quote optional_def)

lemma redact_bytes_raw:
  assumes "number_codec f" and "raw_field d s" and "d \<le> max_depth"
  shows "raw_field d (RedactJSONBytes f s fs)"
proof (cases "s = [] \<or> fs = [] \<or> redactJSON f s fs = None")
  case True
  then show ?thesis using assms(2) by (auto simp: RedactJSONBytes_def)
next
  case False
  then obtain doc where doc: "unmarshal (dec_map f) None s = Some doc"
    and out: "RedactJSONBytes f s fs = map_text (map_option (redact_doc fs) doc)"
    by (auto simp: RedactJSONBytes_def redactJSON_def)
  have raw: "raw_value d s" using assms(2) False by (simp add: raw_field_def)
  from unmarshal_raw [OF raw_value_mono [OF raw assms(3)] delim_Nil, of "dec_map f" None] doc
  have "dec_map f s None = Some doc" by simp
  from dec_map_keeps [OF assms(1) this raw assms(3)] have "map_typed f d doc" by (simp add: map_typed_def)
  then have "map_typed f d (map_option (redact_doc fs) doc)"
    using json_ok_redact_doc by (auto simp: map_typed_def simp del: json_ok.simps split: option.splits)
  then show ?thesis unfolding out by (intro raw_field_value map_typed_text)
qed

lemma tool_result_raw: "raw_value (Suc (Suc (Suc d))) (tool_result_text x)"
proof -
  have item: "raw_value (Suc d) (item_text_json i)" for i
    unfolding item_text_json_def by (intro raw_value_object) (auto simp: raw_value_quote optional_def)
  have "raw_value (Suc (Suc d)) (slice_text item_text_json y)" for y
    using raw_value_null raw_value_array [of _ "Suc d"] item by (auto simp: slice_text_def split: option.split)
  then show ?thesis
    unfolding tool_result_text_def by (intro raw_value_object) (auto simp: optional_def raw_value_bool)
qed

section \<open>Printing and reading again\<close>

lemma request_members:
  assumes "request_typed d x"
  shows "raw_value (Suc d) (request_text x)"
  using assms unfolding request_text_def request_typed_def
  by (intro raw_value_object) (auto simp: raw_value_quote optional_def raw_field_text)

lemma error_raw: "error_typed d e \<Longrightarrow> raw_value (Suc d) (rpc_error_text e)"
  unfolding rpc_error_text_def error_typed_def
  by (intro raw_value_object) (auto simp: raw_value_quote raw_value_int optional_def raw_field_text)

lemma response_raw:
  assumes "response_typed (Suc d) x"
  shows "raw_value (Suc (Suc d)) (response_text x)"
  using assms error_raw unfolding response_text_def response_typed_def
  by (intro raw_value_object) (auto simp: raw_value_quote optional_def raw_field_text split: option.splits)

definition reread_request :: "Request \<Rightarrow> Request" where
  "reread_request x = \<lparr>req_JSONRPC = utf8_fix (req_JSONRPC x), req_ID = raw_text (req_ID x),
    req_Method = utf8_fix (req_Method x), req_Params = reread_optional (req_Params x)\<rparr>"

definition reread_error :: "RPCError \<Rightarrow> RPCError" where
  "reread_error x = \<lparr>err_Code = err_Code x, err_Message = utf8_fix (err_Message x), err_Data = reread_optional (err_Data x)\<rparr>"

definition reread_response :: "Response \<Rightarrow> Response" where
  "reread_response x = \<lparr>resp_JSONRPC = utf8_fix (resp_JSONRPC x), resp_ID = raw_text (resp_ID x),
    resp_Result = reread_optional (resp_Result x), resp_Error = map_option reread_error (resp_Error x)\<rparr>"

lemma message_folds:
  "fold_name ''jsonrpc'' = ''JSONRPC''" "fold_name ''id'' = ''ID''" "fold_name ''method'' = ''METHOD''"
  "fold_name ''params'' = ''PARAMS''" "fold_name ''result'' = ''RESULT''" "fold_name ''error'' = ''ERROR''"
  "fold_name ''code'' = ''CODE''" "fold_name ''message'' = ''MESSAGE''" "fold_name ''data'' = ''DATA''"
  by code_simp+

lemma message_keys: "list_all utf8_ok [''jsonrpc'', ''id'', ''method'', ''params'', ''result'', ''error'', ''code'', ''message'', ''data'']"
  by code_simp

lemma request_read:
  assumes "request_typed (max_depth - 1) x"
  shows "decode dec_request zero_Request (request_text x) = Some (reread_request x)"
proof -
  let ?ms = "[(''jsonrpc'', quote (req_JSONRPC x)), (''id'', raw_text (req_ID x)), (''method'', quote (req_Method x))]
     @ optional (req_Params x \<noteq> []) ''params'' (raw_text (req_Params x))"
  have raw: "\<forall>m \<in> set ?ms. member_raw m"
    using assms message_keys by (auto simp: member_raw_def request_typed_def raw_value_quote raw_field_text optional_def
        simp del: utf8_ok.simps)
  have "decode dec_request zero_Request (request_text x) = dec_request (request_text x) zero_Request"
    using decode_raw [OF raw_value_members [OF raw] delim_Nil, of dec_request zero_Request] by (simp add: request_text_def)
  also have "\<dots> = set_fields request_field ?ms zero_Request"
    unfolding dec_request_def request_text_def by (rule dec_struct_raw [OF raw])
  also have "\<dots> = Some (reread_request x)"
    by (simp add: set_fields_Cons message_folds request_field_def dec_string_fix dec_raw_def optional_def zero_Request_def
        reread_request_def reread_optional_def del: fold_name.simps)
  finally show ?thesis .
qed

lemma error_read:
  assumes "error_typed (max_depth - 1) x"
  shows "dec_struct rpc_error_field (rpc_error_text x) zero_RPCError = Some (reread_error x)"
proof -
  let ?ms = "[(''code'', int_text (err_Code x)), (''message'', quote (err_Message x))]
     @ optional (err_Data x \<noteq> []) ''data'' (raw_text (err_Data x))"
  have raw: "\<forall>m \<in> set ?ms. member_raw m"
    using assms message_keys by (auto simp: member_raw_def error_typed_def raw_value_quote raw_value_int raw_field_text
        optional_def simp del: utf8_ok.simps)
  show ?thesis
    unfolding rpc_error_text_def dec_struct_raw [OF raw]
    by (simp add: set_fields_Cons message_folds rpc_error_field_def dec_string_fix dec_raw_def optional_def zero_RPCError_def
        reread_error_def reread_optional_def del: fold_name.simps)
qed

lemma is_null_error: "is_null (rpc_error_text e) = False"
  by (simp add: rpc_error_text_def is_null_object)

lemma response_read:
  assumes "response_typed (max_depth - 1) x"
  shows "unmarshal dec_response zero_Response (response_text x @ [CHR 0x0A]) = Some (reread_response x)"
    and "unmarshal dec_response zero_Response (response_text x) = Some (reread_response x)"
proof -
  let ?ms = "[(''jsonrpc'', quote (resp_JSONRPC x)), (''id'', raw_text (resp_ID x))]
     @ optional (resp_Result x \<noteq> []) ''result'' (raw_text (resp_Result x))
     @ (case resp_Error x of None \<Rightarrow> [] | Some e \<Rightarrow> [(''error'', rpc_error_text e)])"
  have err: "error_typed (max_depth - 1) e \<and> raw_value (max_depth - 1) (rpc_error_text e)" if "resp_Error x = Some e" for e
  proof -
    have "error_typed (max_depth - 2) e" using assms that by (simp add: response_typed_def numeral_2_eq_2)
    then show ?thesis using error_raw [of "max_depth - 2" e] raw_field_mono [of "max_depth - 2" "err_Data e" "max_depth - 1"]
      by (simp add: error_typed_def max_depth_def)
  qed
  have raw: "\<forall>m \<in> set ?ms. member_raw m"
    using assms message_keys err
    by (auto simp: member_raw_def response_typed_def raw_value_quote raw_field_text optional_def
        simp del: utf8_ok.simps split: option.splits)
  have "dec_response (response_text x) zero_Response = set_fields response_field ?ms zero_Response"
    unfolding dec_response_def response_text_def by (rule dec_struct_raw [OF raw])
  also have "\<dots> = Some (reread_response x)"
    using err error_read
    by (auto simp: set_fields_Cons message_folds response_field_def dec_string_fix dec_raw_def optional_def zero_Response_def
        reread_response_def reread_optional_def dec_ptr_def is_null_error
        split: option.split simp del: fold_name.simps)
  finally have dec: "dec_response (response_text x) zero_Response = Some (reread_response x)" .
  have full: "raw_value max_depth (response_text x)" unfolding response_text_def by (rule raw_value_members [OF raw])
  show "unmarshal dec_response zero_Response (response_text x @ [CHR 0x0A]) = Some (reread_response x)"
    using unmarshal_raw [OF full, of "[CHR 0x0A]" dec_response zero_Response] dec by (simp add: delim_Cons is_ws_def)
  show "unmarshal dec_response zero_Response (response_text x) = Some (reread_response x)"
    using unmarshal_raw [OF full delim_Nil, of dec_response zero_Response] dec by simp
qed

end
