(* ===== verification/Proxy_Types.thy ===== *)
theory Proxy_Types
  imports Proxy_Demo Message_Types
begin

text \<open>
  Type soundness of the proxy: whatever bytes come in and whatever a server answers, the proxy never fails on a message
  that it writes itself. The replies are JSON that decodes as a response, the forwarded request and the audit
  events can always be printed.
\<close>

section \<open>The parameters of a call\<close>

lemma call_args_field_keeps:
  assumes "number_codec f" and "d \<le> max_depth"
  shows "field_keeps d (call_args_field f) (\<lambda>x. map_typed f d (ca_Arguments x))"
  unfolding field_keeps_def
proof (intro allI impI)
  fix k raw and y y' :: call_args
  assume a: "raw_value d raw" "map_typed f d (ca_Arguments y)" "call_args_field f k raw y = Some y'"
  then show "map_typed f d (ca_Arguments y')"
    using dec_map_keeps [OF assms(1) _ a(1) assms(2) a(2)]
    by (auto simp: call_args_field_def split: if_splits)
qed

lemma tool_params_typed:
  assumes "number_codec (gw_f64 g)" and "request_typed (max_depth - 1) req"
    and "parseToolCall g req = Inr (name, tool, params)"
  shows "raw_value (max_depth - 1) params"
proof -
  from assms(3) obtain p where p: "unmarshal (dec_struct (call_args_field (gw_f64 g))) zero_call_args (req_Params req) = Some p"
    and params: "params = call_params_text \<lparr>call_Name = ca_Name p, call_Arguments = ca_Arguments p\<rparr>"
    by (auto simp: parseToolCall_def split: if_splits option.splits)
  have "req_Params req \<noteq> []"
    using p by (auto simp: unmarshal_def json_parse_def json_prefix_def fuel_for_def parse_value.simps)
  then have raw: "raw_value (max_depth - 1) (req_Params req)"
    using assms(2) by (simp add: request_typed_def raw_field_def)
  have "raw_value max_depth (req_Params req)" by (rule raw_value_mono [OF raw]) simp
  from p unmarshal_raw [OF this delim_Nil, unfolded append_Nil2, OF skip_ws.simps(1)]
  have dec: "dec_struct (call_args_field (gw_f64 g)) (req_Params req) zero_call_args = Some p" by metis
  have keeps: "field_keeps (max_depth - 1 - 1) (call_args_field (gw_f64 g))
      (\<lambda>x. map_typed (gw_f64 g) (max_depth - 1 - 1) (ca_Arguments x))"
    by (rule call_args_field_keeps [OF assms(1)]) simp
  have "map_typed (gw_f64 g) (max_depth - 1 - 1) (ca_Arguments p)"
    by (rule dec_struct_keeps [OF keeps dec raw]) (simp_all add: zero_call_args_def map_typed_def)
  then have "raw_value (Suc (max_depth - 1 - 1)) params"
    unfolding params by (intro call_params_raw) simp
  then show ?thesis by (simp add: max_depth_def)
qed

section \<open>The replies\<close>

lemma typed_response_ok: "response_typed (max_depth - 1) x \<Longrightarrow> response_ok x"
  by (auto simp: response_typed_def response_ok_def error_typed_def intro: raw_field_ok split: option.splits)

definition well_formed_reply :: "http_out \<Rightarrow> bool" where
  "well_formed_reply out \<longleftrightarrow> (\<exists>resp. out_body out = response_text resp @ [CHR 0x0A] \<and>
    unmarshal dec_response zero_Response (out_body out) = Some (reread_response resp))"

lemma writeJSON_reply: "response_typed (max_depth - 1) x \<Longrightarrow> well_formed_reply (writeJSON hs x)"
  using response_read(1) typed_response_ok by (auto simp: writeJSON_def well_formed_reply_def)

lemma error_reply: "raw_field (max_depth - 1) rid \<Longrightarrow> well_formed_reply (writeRPCError hs rid ec msg)"
  unfolding writeRPCError_def
  by (rule writeJSON_reply) (simp add: ErrorResponse_def response_typed_def error_typed_def)

lemma redacted_response_typed:
  assumes "response_typed (max_depth - 1) resp"
  shows "response_typed (max_depth - 1) (redact_response f fs resp)"
proof -
  have "raw_value (max_depth - 1) (tool_result_text t)" for t
    by (rule raw_value_mono [OF tool_result_raw [of 0]]) (simp add: max_depth_def)
  with assms show ?thesis
    by (auto simp: redact_response_def response_typed_def raw_field_value split: option.splits)
qed

section \<open>The events\<close>

text \<open>The event of a call: its raw messages are JSON, and it is valid when its identifiers are there.\<close>

definition call_event :: "moment \<Rightarrow> string \<Rightarrow> string \<Rightarrow> Event \<Rightarrow> bool" where
  "call_event mo userID tool e \<longleftrightarrow> event_typed e \<and>
    (mo_fresh mo \<noteq> [] \<and> userID \<noteq> [] \<and> tool \<noteq> [] \<longrightarrow> Validate_event e = None)"

lemma event_is_call_event:
  assumes "number_codec (gw_f64 g)" and "raw_value (max_depth - 1) params" and "raw_field (max_depth - 1) summary"
    and "outcome \<in> {OutcomeAllowed, OutcomeDenied, OutcomeRateLimited, OutcomeError}"
  shows "call_event mo userID tool (event_of g mo userID srv tool outcome params flds summary)"
  using redact_bytes_raw [OF assms(1) raw_field_value [OF assms(2)] diff_le_self] assms(3,4)
  by (simp add: call_event_def event_typed_def event_of_def NewEvent_def Validate_event_def format_uuid_def)

lemma typed_event_read:
  "event_typed e \<Longrightarrow> clock_ok clk \<Longrightarrow> time_text clk (event_At e) = Some at \<Longrightarrow>
    \<exists>body. event_text clk e = Some body \<and> read_event clk body = Some (reread_event e)"
  using event_text_typed event_read by fastforce

lemma error_summary: "raw_field (max_depth - 1) (object_text [(''error'', quote s)])"
  by (rule raw_field_value, rule raw_value_mono [OF raw_value_object [of _ 0]]) (simp_all add: raw_value_quote max_depth_def)

lemma forward_types:
  assumes "number_codec (gw_f64 g)" and "raw_field (max_depth - 1) rid" and "raw_value (max_depth - 1) params"
    and "forward_call g mo rid userID tool params srv flds w = (out, w')"
  shows "well_formed_reply out \<and> (\<exists>e. w_pub w' = snd (gw_publish g e (w_pub w)) \<and> call_event mo userID tool e)"
  using assms(4)
proof (cases rule: forward_call_cases)
  case (failed err net)
  then show ?thesis using error_reply [OF assms(2)] event_is_call_event [OF assms(1,3) error_summary] by fast
next
  case (answered resp net)
  obtain h where "unmarshal dec_response zero_Response h = Some resp"
    using answered(1) by (auto simp: forwarding_def Forward_def read_response_def Let_def
        split: sum.splits prod.splits if_splits option.splits)
  then have typed: "response_typed (max_depth - 1) (redact_response (gw_f64 g) flds resp)"
    by (intro redacted_response_typed decoded_response)
  then have "raw_field (max_depth - 1) (resp_Result (redact_response (gw_f64 g) flds resp))"
    by (simp add: response_typed_def)
  with answered writeJSON_reply [OF typed] event_is_call_event [OF assms(1,3)] show ?thesis by fast
qed

lemma decide_types:
  assumes "number_codec (gw_f64 g)" and "raw_field (max_depth - 1) rid" and "raw_value (max_depth - 1) params"
    and "decide_call g mo rid userID user tool params srv w = (out, w')"
  shows "well_formed_reply out \<and> (w_pub w' = w_pub w \<or> (\<exists>e. w_pub w' = snd (gw_publish g e (w_pub w)) \<and> call_event mo userID tool e))"
proof -
  obtain ev d where ev: "evaluated g mo user srv tool (w_redis w) (w_store w) = (ev, d)" by fastforce
  obtain err rl z where rl: "limiting g mo userID srv (ev_decision ev) (w_zsets w) = (err, rl, z)" by (metis prod_cases3)
  from assms(4) ev rl show ?thesis
  proof (cases rule: decide_call_cases)
    case (forwarded w2)
    then show ?thesis using forward_types [OF assms(1,2,3) forwarded(4)] by auto
  qed (use error_reply [OF assms(2)] event_is_call_event [OF assms(1,3) raw_field_Nil] in fast)+
qed

lemma tool_named: "parseToolCall g req = Inr (name, tool, params) \<Longrightarrow> tool \<noteq> []"
  by (auto simp: parseToolCall_def split: if_splits option.splits)

text \<open>What the handler replies and publishes.\<close>

lemma handler_types:
  assumes "number_codec (gw_f64 g)" and "proxy_handler g mo inp w = (out, w')"
  shows "well_formed_reply out \<and> (w_pub w' = w_pub w \<or> (\<exists>e. w_pub w' = snd (gw_publish g e (w_pub w)) \<and> event_typed e \<and>
    (mo_fresh mo \<noteq> [] \<and> gw_scan g [] = None \<longrightarrow> Validate_event e = None)))"
  using assms(2)
proof (cases rule: handler_cases)
  case (rejected rid ec msg d)
  then have "raw_field (max_depth - 1) rid" using decoded_request by (auto simp: request_typed_def)
  then show ?thesis using rejected error_reply by simp
next
  case (decided req userID user d1 tool params srv d2)
  have req: "request_typed (max_depth - 1) req" using decoded_request [OF decided(1)] .
  obtain name where call: "parseToolCall g req = Inr (name, tool, params)"
    using decided(3) by (auto simp: target_def)
  note tool_params_typed [OF assms(1) req call] tool_named [OF call]
  moreover have "gw_scan g [] = None \<longrightarrow> userID \<noteq> []" using decided(2) by (auto simp: caller_def)
  ultimately show ?thesis
    using decide_types [OF assms(1) _ _ decided(4)] req by (auto simp: request_typed_def call_event_def)
qed

section \<open>The property\<close>

text \<open>C6: the proxy is type-sound. Whatever the bytes of a request and the answers of the components are, the reply is
  a JSON text and a newline, which decodes as the response that was written; at most one event is published, and it
  can be marshalled, so the worker of the publisher never drops it, and the text is read back by the audit worker as
  the same event, with its strings as JSON keeps them; and when the request is decoded and its tool call
  is parsed, \<open>Forward\<close> can marshal the request that it sends on.\<close>

theorem proxy_is_type_sound:
  assumes "number_codec (gw_f64 g)" and "proxy_handler g mo inp w = (out, w')"
  shows "(\<exists>resp. out_body out = response_text resp @ [CHR 0x0A] \<and>
      unmarshal dec_response zero_Response (out_body out) = Some (reread_response resp)) \<and>
    (w_pub w' = w_pub w \<or> (\<exists>e. w_pub w' = snd (gw_publish g e (w_pub w)) \<and>
      (\<forall>clk at. clock_ok clk \<longrightarrow> time_text clk (event_At e) = Some at \<longrightarrow>
        (\<exists>body. event_text clk e = Some body \<and> read_event clk body = Some (reread_event e))))) \<and>
    (\<forall>req name tool params. decode dec_request zero_Request (in_body inp) = Some req \<longrightarrow>
      parseToolCall g req = Inr (name, tool, params) \<longrightarrow>
      build_request (gw_resolve g) (gw_url_ok g) base authType ref (forwarded_request (req_ID req) params)
        \<noteq> Inl MarshalRequest)"
proof -
  have "build_request (gw_resolve g) (gw_url_ok g) base authType ref (forwarded_request (req_ID req) params) \<noteq> Inl MarshalRequest"
    if "decode dec_request zero_Request (in_body inp) = Some req" "parseToolCall g req = Inr (name, tool, params)"
    for req name tool params
  proof -
    note req = decoded_request [OF that(1)]
    have "raw_ok (req_ID req)" using req by (auto simp: request_typed_def intro: raw_field_ok)
    moreover have "raw_ok params" by (rule raw_value_ok [OF tool_params_typed [OF assms(1) req that(2)]]) simp
    ultimately show ?thesis
      by (auto simp: build_request_def forwarded_request_def Let_def split: sum.splits)
  qed
  with handler_types [OF assms] show ?thesis unfolding well_formed_reply_def using typed_event_read by meson
qed

theorem proxy_is_type_sound_witness:
  "\<exists>resp. out_body (demo_out True) = response_text resp @ [CHR 0x0A] \<and>
    unmarshal dec_response zero_Response (out_body (demo_out True)) = Some (reread_response resp)"
proof -
  have "number_codec (gw_f64 demo_gateway)" using demo_f64_codec by (simp add: demo_gateway_def)
  from proxy_is_type_sound [OF this demo_run] show ?thesis by blast
qed

end
