(* ===== verification/Noninterference.thy ===== *)
theory Noninterference
  imports Proxy_Redaction Proxy_Types
begin

text \<open>
  Non-interference of the proxy: what a policy redacts has no influence on anything but the downstream network. Two
  runs of the handler on the same request, in worlds that differ only in what the servers answer under the listed keys,
  give the client the same bytes and leave the same state, audit events included.
\<close>

section \<open>Answers that differ in secrets\<close>

text \<open>Two answers with tool results whose items differ at most in the values of listed keys.\<close>

definition answers_alike :: "(string \<Rightarrow> string option) \<Rightarrow> string list \<Rightarrow> Response \<Rightarrow> Response \<Rightarrow> bool" where
  "answers_alike f fs r r' \<longleftrightarrow> r = r' \<or>
    fs \<noteq> [] \<and> resp_Result r \<noteq> [] \<and> (\<exists>x t t'. x \<noteq> [] \<and> r' = r\<lparr>resp_Result := x\<rparr> \<and>
      unmarshal dec_tool_result zero_ToolResult (resp_Result r) = Some t \<and>
      unmarshal dec_tool_result zero_ToolResult x = Some t' \<and> tool_IsError t = tool_IsError t' \<and>
      list_all2 (same_but f fs) (slice_list (tool_Content t)) (slice_list (tool_Content t')))"

lemma alike_redacted: "number_codec f \<Longrightarrow> answers_alike f fs r r' \<Longrightarrow> redact_response f fs r = redact_response f fs r'"
  unfolding answers_alike_def by (auto intro!: redacted_answers_equal)

text \<open>Two worlds that differ only in the network.\<close>

definition same_but_net :: "('r, 'z, 'd, 'w, 'p) world \<Rightarrow> ('r, 'z, 'd, 'w, 'p) world \<Rightarrow> bool" where
  "same_but_net w w' \<longleftrightarrow> w' = w\<lparr>w_net := w_net w'\<rparr>"

lemma same_but_net_refl [simp]: "same_but_net w (w\<lparr>w_net := n\<rparr>)"
  by (simp add: same_but_net_def)

section \<open>The two runs\<close>

lemma forward_alike:
  assumes "fst (forwarding g srv rid params (w_net w)) = Inr r" and "fst (forwarding g srv rid params n) = Inr r'"
    and "redact_response (gw_f64 g) fs r = redact_response (gw_f64 g) fs r'"
  shows "fst (forward_call g mo rid userID tool params srv fs (w\<lparr>w_net := n\<rparr>)) = fst (forward_call g mo rid userID tool params srv fs w) \<and>
    same_but_net (snd (forward_call g mo rid userID tool params srv fs w)) (snd (forward_call g mo rid userID tool params srv fs (w\<lparr>w_net := n\<rparr>)))"
proof -
  obtain m where m: "forwarding g srv rid params (w_net w) = (Inr r, m)" using assms(1) by (cases "forwarding g srv rid params (w_net w)") simp
  obtain m' where m': "forwarding g srv rid params n = (Inr r', m')" using assms(2) by (cases "forwarding g srv rid params n") simp
  show ?thesis using assms(3) by (simp add: forward_call_eq m m' publish_event_def same_but_net_def)
qed

lemma decide_alike:
  assumes "fst (forwarding g srv rid params (w_net w)) = Inr r" and "fst (forwarding g srv rid params n) = Inr r'"
    and "redact_response (gw_f64 g) (Decision.RedactFields (ev_decision (fst (evaluated g mo user srv tool (w_redis w) (w_store w))))) r =
      redact_response (gw_f64 g) (Decision.RedactFields (ev_decision (fst (evaluated g mo user srv tool (w_redis w) (w_store w))))) r'"
  shows "fst (decide_call g mo rid userID user tool params srv (w\<lparr>w_net := n\<rparr>)) = fst (decide_call g mo rid userID user tool params srv w) \<and>
    same_but_net (snd (decide_call g mo rid userID user tool params srv w)) (snd (decide_call g mo rid userID user tool params srv (w\<lparr>w_net := n\<rparr>)))"
proof -
  obtain ev d where ev: "evaluated g mo user srv tool (w_redis w) (w_store w) = (ev, d)" by fastforce
  obtain err rl z where rl: "limiting g mo userID srv (ev_decision ev) (w_zsets w) = (err, rl, z)" by (metis prod_cases3)
  let ?w1 = "w\<lparr>w_store := d, w_jobs := w_jobs w @ (case ev_job ev of None \<Rightarrow> [] | Some job \<Rightarrow> [job])\<rparr>"
  note fwd = forward_alike [of g srv rid params "?w1\<lparr>w_zsets := z\<rparr>" r n r' "Decision.RedactFields (ev_decision ev)" mo userID tool]
  note eq = decide_call_eq [OF ev rl refl, of rid params]
  have ev': "evaluated g mo user srv tool (w_redis (w\<lparr>w_net := n\<rparr>)) (w_store (w\<lparr>w_net := n\<rparr>)) = (ev, d)" using ev by simp
  have rl': "limiting g mo userID srv (ev_decision ev) (w_zsets (w\<lparr>w_net := n\<rparr>)) = (err, rl, z)" using rl by simp
  note eq' = decide_call_eq [OF ev' rl' refl, of rid params]
  have "(w\<lparr>w_net := n\<rparr>)\<lparr>w_store := d, w_jobs := w_jobs (w\<lparr>w_net := n\<rparr>) @ (case ev_job ev of None \<Rightarrow> [] | Some job \<Rightarrow> [job])\<rparr> = ?w1\<lparr>w_net := n\<rparr>"
    by simp
  note eq' = eq' [unfolded this]
  have swap: "(?w1\<lparr>w_net := n\<rparr>)\<lparr>w_zsets := z\<rparr> = (?w1\<lparr>w_zsets := z\<rparr>)\<lparr>w_net := n\<rparr>" by simp
  consider "\<not> Allowed (ev_decision ev)" | "Allowed (ev_decision ev)" err
    | "Allowed (ev_decision ev)" "\<not> err" "\<not> res_Allowed rl" | "Allowed (ev_decision ev)" "\<not> err" "res_Allowed rl"
    by blast
  then show ?thesis
  proof cases
    case 4
    then show ?thesis using fwd assms unfolding eq eq' swap by (simp add: ev)
  qed (simp_all add: eq eq' publish_event_def same_but_net_def)
qed

section \<open>The property\<close>

text \<open>C5: redacted values do not interfere. Take two worlds that differ only in the network, where the answers
  of the server to the call of this request are alike: the same, or tool results that differ only in the values of keys
  that the policy of the call lists. Then the two runs of the handler reply with the same bytes, publish the same event,
  and end in worlds that again differ only in the network: neither the client nor the audit log learns a redacted
  value.\<close>

theorem redacted_values_do_not_interfere:
  assumes "number_codec (gw_f64 g)"
    and "\<And>req userID user d1 tool params srv d2.
      decode dec_request zero_Request (in_body inp) = Some req \<Longrightarrow>
      authenticate g mo (in_authorization inp) (w_redis w) (w_store w) = (Inr (userID, user), d1) \<Longrightarrow>
      find_server g req d1 = (Inr (tool, params, srv), d2) \<Longrightarrow>
      \<exists>r r'. fst (forwarding g srv (req_ID req) params (w_net w)) = Inr r \<and>
        fst (forwarding g srv (req_ID req) params n) = Inr r' \<and>
        answers_alike (gw_f64 g)
          (Decision.RedactFields (ev_decision (fst (evaluated g mo user srv tool (w_redis w) d2)))) r r'"
    and "proxy_handler g mo inp w = (out, w1)" and "proxy_handler g mo inp (w\<lparr>w_net := n\<rparr>) = (out', w2)"
  shows "out' = out \<and> w_pub w2 = w_pub w1 \<and> w2 = w1\<lparr>w_net := w_net w2\<rparr>"
proof -
  let ?n = "w\<lparr>w_net := n\<rparr>"
  have goal: ?thesis if "out' = out" "same_but_net w1 w2"
    using that by (auto simp: same_but_net_def) (metis world.select_convs(5) world.update_convs(4) world.surjective)
  show ?thesis
  proof (cases "decode dec_request zero_Request (in_body inp)")
    case None
    then show ?thesis using assms(3,4) by (intro goal) (auto simp: proxy_handler_def same_but_net_def)
  next
    case (Some req)
    obtain a d1 where a: "authenticate g mo (in_authorization inp) (w_redis w) (w_store w) = (a, d1)" by fastforce
    show ?thesis
    proof (cases a)
      case (Inl e)
      then show ?thesis using assms(3,4) Some a by (intro goal) (auto simp: proxy_handler_def same_but_net_def split: prod.splits)
    next
      case u: (Inr u)
      obtain b d2 where b: "find_server g req d1 = (b, d2)" by fastforce
      show ?thesis
      proof (cases b)
        case (Inl e)
        then show ?thesis
          using assms(3,4) Some a u b by (intro goal) (auto simp: proxy_handler_def same_but_net_def split: prod.splits)
      next
        case (Inr v)
        obtain userID user tool params srv where uv: "u = (userID, user)" "v = (tool, params, srv)"
          by (metis prod_cases3 prod.collapse)
        let ?w = "w\<lparr>w_store := d2\<rparr>"
        have swap: "(w\<lparr>w_net := n\<rparr>)\<lparr>w_store := d2\<rparr> = ?w\<lparr>w_net := n\<rparr>" by simp
        have run: "decide_call g mo (req_ID req) userID user tool params srv ?w = (out, w1)"
          and "decide_call g mo (req_ID req) userID user tool params srv ((w\<lparr>w_net := n\<rparr>)\<lparr>w_store := d2\<rparr>) = (out', w2)"
          using assms(3,4) Some a b u Inr uv by (simp_all add: proxy_handler_def)
        note runs = run this(2) [unfolded swap]
        have "authenticate g mo (in_authorization inp) (w_redis w) (w_store w) = (Inr (userID, user), d1)"
          "find_server g req d1 = (Inr (tool, params, srv), d2)"
          using a b u Inr uv by simp_all
        from assms(2) [OF Some this] obtain r r' where "fst (forwarding g srv (req_ID req) params (w_net w)) = Inr r"
          "fst (forwarding g srv (req_ID req) params n) = Inr r'"
          and alike: "answers_alike (gw_f64 g)
            (Decision.RedactFields (ev_decision (fst (evaluated g mo user srv tool (w_redis w) d2)))) r r'"
          by blast
        then show ?thesis
          using decide_alike [of g srv "req_ID req" params ?w r n r' mo user tool userID] alike_redacted [OF assms(1) alike] runs
          by (intro goal) simp_all
      qed
    qed
  qed
qed

section \<open>A server with a secret\<close>

definition secret_answer :: "string \<Rightarrow> Response" where
  "secret_answer ssn = \<lparr>resp_JSONRPC = ''2.0'', resp_ID = ''7'', resp_Result = demo_result (demo_text ssn), resp_Error = None\<rparr>"

definition secret_http :: "http_request list http_client" where
  "secret_http h log = (Inr \<lparr>hres_status = 200,
    hres_body = response_text (secret_answer (if log = [] then ''123'' else ''456'')), hres_broken = False\<rparr>, log @ [h])"

definition secret_gateway :: "(keyspace, zspace, db, http_request list, Event list) gateway" where
  "secret_gateway = demo_gateway\<lparr>gw_http := secret_http\<rparr>"

definition other_net :: "http_request list" where
  "other_net = [\<lparr>hreq_method = ''POST'', hreq_url = [], hreq_headers = [], hreq_body = []\<rparr>]"

lemma demo_result_ok:
  assumes "utf8_ok txt"
  shows "raw_value (max_depth - 1) (demo_result txt)" and "compact False (demo_result txt) = demo_result txt"
proof -
  have ascii: "utf8_ok ''content''" "utf8_ok ''text''" "utf8_ok ''type''" by (simp_all add: utf8_len_def)
  have ok: "json_ok Some (max_depth - 1) (JObj [(''content'', JArr [demo_item txt])])"
    using assms ascii by (auto simp: demo_item_def max_depth_def less_char_def simp del: utf8_ok.simps)
  have "demo_result txt = json_print (JObj [(''content'', JArr [demo_item txt])])"
    by (simp add: demo_result_def object_text_def)
  with raw_value_print [OF ok] compact_printed [OF ok]
  show "raw_value (max_depth - 1) (demo_result txt)" and "compact False (demo_result txt) = demo_result txt"
    by (simp_all del: json_print.simps)
qed

lemma secret_read:
  assumes "utf8_ok (demo_text ssn)"
  shows "unmarshal dec_response zero_Response (response_text (secret_answer ssn)) = Some (secret_answer ssn)"
proof -
  have id_ok: "raw_field (max_depth - 1) ''7''" "compact False ''7'' = ''7''"
    using raw_value_print [of "max_depth - 1" "JNum ''7''"] demo_number by (simp add: raw_field_value) code_simp
  have v: "utf8_fix ''2.0'' = ''2.0''" by code_simp
  have "demo_result (demo_text ssn) \<noteq> []" by (simp add: demo_result_def object_text_def)
  then have "reread_response (secret_answer ssn) = secret_answer ssn"
    using id_ok demo_result_ok(2) [OF assms]
    by (simp add: reread_response_def secret_answer_def raw_text_def reread_optional_def v del: utf8_fix.simps)
  moreover have "response_typed (max_depth - 1) (secret_answer ssn)"
    using id_ok(1) demo_result_ok(1) [OF assms] by (simp add: response_typed_def secret_answer_def raw_field_value)
  ultimately show ?thesis using response_read(2) [of "secret_answer ssn"] by simp
qed

lemma secret_length: "length (response_text (secret_answer ''123'')) \<le> 1000" "length (response_text (secret_answer ''456'')) \<le> 1000"
  by code_simp+

lemma secret_forwarding:
  "fst (forwarding secret_gateway demo_srv ''7'' demo_sent_params net) = Inr (secret_answer (if net = [] then ''123'' else ''456''))"
proof -
  let ?ssn = "if net = [] then ''123'' else ''456''"
  have read: "unmarshal dec_response zero_Response (response_text (secret_answer ?ssn)) = Some (secret_answer ?ssn)"
    using secret_read demo_text_utf8 by simp
  have "length (response_text (secret_answer ?ssn)) \<le> 1000" using secret_length by simp
  then have "take body_limit (response_text (secret_answer ?ssn)) = response_text (secret_answer ?ssn)"
    by (simp add: body_limit_def)
  with read have "read_response \<lparr>hres_status = 200, hres_body = response_text (secret_answer ?ssn), hres_broken = False\<rparr> =
      Inr (secret_answer ?ssn)"
    by (simp only: read_response_def Let_def http_response.select_convs) simp
  moreover have "json_parse Some ''7'' \<noteq> None" by code_simp
  moreover have "raw_ok demo_sent_params"
    using reads_map_object [of "[(''name'', JStr ''read'')]" Some] demo_texts_ok
    by (auto simp: raw_ok_def demo_sent_params_def call_params_text_def optional_def reads_map_def unmarshal_def
        split: if_splits)
  ultimately show ?thesis
    by (simp add: forwarding_def forwarded_request_def Forward_def build_request_def raw_ok_def secret_gateway_def
        demo_gateway_def demo_srv_def secret_http_def)
qed

lemma secret_alike: "answers_alike demo_f64 [''ssn''] (secret_answer ''123'') (secret_answer ''456'')"
proof -
  have some: "demo_result u \<noteq> []" for u by (simp add: demo_result_def object_text_def)
  have "secret_answer ''456'' = (secret_answer ''123'')\<lparr>resp_Result := demo_result (demo_text ''456'')\<rparr>"
    "resp_Result (secret_answer ''123'') = demo_result (demo_text ''123'')"
    by (simp_all add: secret_answer_def)
  then show ?thesis
    unfolding answers_alike_def
    using some demo_result_read [OF demo_text_utf8(1)] demo_result_read [OF demo_text_utf8(2)] demo_items_same
    by (intro disjI2 conjI exI) (assumption | simp)+
qed

lemma secret_same_steps:
  "authenticate secret_gateway = authenticate demo_gateway" "find_server secret_gateway = find_server demo_gateway"
  "evaluated secret_gateway = evaluated demo_gateway"
proof -
  have parts: "gw_queries secret_gateway = gw_queries demo_gateway" "gw_tokens secret_gateway = gw_tokens demo_gateway"
    "gw_engine secret_gateway = gw_engine demo_gateway" "gw_scan secret_gateway = gw_scan demo_gateway"
    "gw_f64 secret_gateway = gw_f64 demo_gateway" "gw_quoted secret_gateway = gw_quoted demo_gateway"
    "gw_json_error secret_gateway = gw_json_error demo_gateway"
    by (simp_all add: secret_gateway_def)
  show "authenticate secret_gateway = authenticate demo_gateway"
    by (intro ext, unfold authenticate_def parts, rule refl)
  show "find_server secret_gateway = find_server demo_gateway"
    by (intro ext, unfold find_server_def parseToolCall_def parts, rule refl)
  show "evaluated secret_gateway = evaluated demo_gateway"
    by (intro ext, unfold evaluated_def parts, rule refl)
qed

lemma secret_target:
  assumes "decode dec_request zero_Request (in_body demo_in) = Some req"
    and "authenticate secret_gateway demo_moment (in_authorization demo_in) demo_keyspace (demo_db True) = (Inr (userID, user), d1)"
    and "find_server secret_gateway req d1 = (Inr (tool, params, srv), d2)"
  shows "req = demo_req \<and> user = demo_user \<and> tool = ''read'' \<and> params = demo_sent_params \<and> srv = demo_srv \<and> d2 = (demo_db True)\<lparr>db_calls := 2\<rparr>"
proof -
  have hds: "hd (t_users (db_tables (demo_db True))) = demo_user" "hd (t_servers (db_tables (demo_db True))) = demo_srv"
    by (simp_all add: demo_db_def demo_user_def demo_srv_def)
  have req: "req = demo_req" using assms(1) demo_decoded by simp
  have "user = demo_user" "d1 = (demo_db True)\<lparr>db_calls := 1\<rparr>"
    using assms(2) demo_caller [of True] by (simp_all add: secret_same_steps hds)
  with req show ?thesis
    using assms(3) demo_server [of True] by (simp add: secret_same_steps hds demo_sent_params_def)
qed

theorem redacted_values_do_not_interfere_witness:
  "fst (proxy_handler secret_gateway demo_moment demo_in ((demo_world True)\<lparr>w_net := other_net\<rparr>)) =
    fst (proxy_handler secret_gateway demo_moment demo_in (demo_world True))"
proof -
  have codec: "number_codec (gw_f64 secret_gateway)"
    using demo_f64_codec by (simp add: secret_gateway_def demo_gateway_def)
  have world: "w_redis (demo_world True) = demo_keyspace" "w_store (demo_world True) = demo_db True" "w_net (demo_world True) = []"
    by (simp_all add: demo_world_def)
  obtain out w1 where 1: "proxy_handler secret_gateway demo_moment demo_in (demo_world True) = (out, w1)" by fastforce
  obtain out' w2 where 2: "proxy_handler secret_gateway demo_moment demo_in ((demo_world True)\<lparr>w_net := other_net\<rparr>) = (out', w2)"
    by fastforce
  have "out' = out \<and> w_pub w2 = w_pub w1 \<and> w2 = w1\<lparr>w_net := w_net w2\<rparr>"
  proof (rule redacted_values_do_not_interfere [OF codec _ 1 2])
    fix req userID user d1 tool params srv d2
    assume "decode dec_request zero_Request (in_body demo_in) = Some req"
      "authenticate secret_gateway demo_moment (in_authorization demo_in) (w_redis (demo_world True)) (w_store (demo_world True)) =
        (Inr (userID, user), d1)"
      "find_server secret_gateway req d1 = (Inr (tool, params, srv), d2)"
    note same = secret_target [OF this(1) this(2) [unfolded world] this(3)]
    have "gw_f64 secret_gateway = demo_f64" "req_ID demo_req = ''7''"
      by (simp_all add: secret_gateway_def demo_gateway_def demo_req_def)
    with same show "\<exists>r r'. fst (forwarding secret_gateway srv (req_ID req) params (w_net (demo_world True))) = Inr r \<and>
        fst (forwarding secret_gateway srv (req_ID req) params other_net) = Inr r' \<and>
        answers_alike (gw_f64 secret_gateway) (Decision.RedactFields (ev_decision
          (fst (evaluated secret_gateway demo_moment user srv tool (w_redis (demo_world True)) d2)))) r r'"
      using secret_alike by (simp add: world secret_forwarding secret_same_steps demo_evaluated other_net_def)
  qed
  then show ?thesis by (simp add: 1 2)
qed

end
