(* ===== verification/Proxy_Params.thy ===== *)
theory Proxy_Params
  imports Proxy_Redaction Proxy_Types
begin

text \<open>
  The parameters of a tool call on their way through the proxy, for every request that it can receive: what of them
  the server gets (\<open>forwarded_params_hold_the_call\<close>), and what of them the audit log gets
  (\<open>audited_params_hold_the_arguments\<close>).
\<close>

section \<open>The call of a request\<close>

definition args_of :: "json_map \<Rightarrow> (string \<times> json) list" where
  "args_of m = (case m of None \<Rightarrow> [] | Some kvs \<Rightarrow> kvs)"

text \<open>\<open>calls req server tool args\<close>: the parameters of the request decode to this server, tool and arguments.\<close>

definition calls_tool :: "(string \<Rightarrow> string option) \<Rightarrow> Request \<Rightarrow> string \<Rightarrow> string \<Rightarrow> (string \<times> json) list \<Rightarrow> bool" where
  "calls_tool f req server tool args \<longleftrightarrow> (\<exists>p. unmarshal (dec_struct (call_args_field f)) zero_call_args (req_Params req) = Some p \<and>
    ca_Server p = server \<and> ca_Name p = tool \<and> args_of (ca_Arguments p) = args)"

lemma call_params_args_of:
  "call_params_text \<lparr>call_Name = n, call_Arguments = m\<rparr> = call_params_text \<lparr>call_Name = n, call_Arguments = Some (args_of m)\<rparr>"
  by (auto simp: call_params_text_def args_of_def optional_def split: option.split)

lemma dec_string_utf8: "dec_string raw old = Some s \<Longrightarrow> utf8_ok old \<Longrightarrow> utf8_ok s"
  by (auto simp: dec_string_def utf8_ok_unquote split: if_splits option.splits)

lemma call_name_keeps: "field_keeps d (call_args_field f) (\<lambda>x. utf8_ok (ca_Name x))"
  unfolding field_keeps_def
  by (auto simp: call_args_field_def split: if_splits intro: dec_string_utf8)

lemma parsed_call:
  assumes "number_codec (gw_f64 g)" and "request_typed (max_depth - 1) req"
    and "parseToolCall g req = Inr (server, tool, params)"
  obtains args where "calls_tool (gw_f64 g) req server tool args" and "utf8_ok tool"
    and "json_ok (gw_f64 g) (max_depth - 1) (JObj args)"
    and "params = call_params_text \<lparr>call_Name = tool, call_Arguments = Some args\<rparr>"
proof -
  from assms(3) obtain p where p: "unmarshal (dec_struct (call_args_field (gw_f64 g))) zero_call_args (req_Params req) = Some p"
    and fields: "server = ca_Server p" "tool = ca_Name p"
      "params = call_params_text \<lparr>call_Name = ca_Name p, call_Arguments = ca_Arguments p\<rparr>"
    by (auto simp: parseToolCall_def split: if_splits option.splits)
  have "req_Params req \<noteq> []"
    using p by (auto simp: unmarshal_def json_parse_def json_prefix_def fuel_for_def parse_value.simps)
  then have raw: "raw_value (max_depth - 1) (req_Params req)"
    using assms(2) by (simp add: request_typed_def raw_field_def)
  have raw': "raw_value max_depth (req_Params req)" by (rule raw_value_mono [OF raw]) simp
  from p unmarshal_raw [OF this delim_Nil, unfolded append_Nil2, OF skip_ws.simps(1)]
  have dec: "dec_struct (call_args_field (gw_f64 g)) (req_Params req) zero_call_args = Some p" by metis
  have "map_typed (gw_f64 g) (max_depth - 1) (ca_Arguments p)"
    by (rule dec_struct_keeps [OF call_args_field_keeps [OF assms(1)] dec raw']) (simp_all add: zero_call_args_def map_typed_def)
  then have "json_ok (gw_f64 g) (max_depth - 1) (JObj (args_of (ca_Arguments p)))"
    by (auto simp: map_typed_def args_of_def max_depth_def split: option.splits)
  moreover have "utf8_ok (ca_Name p)"
    by (rule dec_struct_keeps [OF call_name_keeps dec raw']) (simp_all add: zero_call_args_def)
  moreover have "calls_tool (gw_f64 g) req server tool (args_of (ca_Arguments p))"
    using p fields by (auto simp: calls_tool_def)
  ultimately show ?thesis using that fields call_params_args_of by metis
qed

section \<open>Properties\<close>

text \<open>C38: the proxy forwards the call and nothing else. For every body that decodes as a request and every tool call that
  is parsed from it, the parameters that are sent on decode to an object with the tool of the call, its arguments when
  there are any, with the values they have in the request, and no other member: the \<^verbatim>\<open>server\<close> member and every
  other member that the client has sent is dropped.\<close>

theorem forwarded_params_hold_the_call:
  assumes "number_codec (gw_f64 g)" and "decode dec_request zero_Request body = Some req"
    and "parseToolCall g req = Inr (server, tool, params)"
  shows "\<exists>args doc. calls_tool (gw_f64 g) req server tool args \<and> reads_map (gw_f64 g) params doc \<and>
    map_of doc ''name'' = Some (JStr tool) \<and> map_of doc ''arguments'' = (if args = [] then None else Some (JObj args)) \<and>
    dom (map_of doc) \<subseteq> {''name'', ''arguments''}"
proof -
  obtain args where args: "calls_tool (gw_f64 g) req server tool args" "utf8_ok tool" "json_ok (gw_f64 g) (max_depth - 1) (JObj args)"
    and params: "params = call_params_text \<lparr>call_Name = tool, call_Arguments = Some args\<rparr>"
    using parsed_call [OF assms(1) decoded_request [OF assms(2)] assms(3)] by blast
  have "reads_map (gw_f64 g) params (map_puts [] (clean_members tool args))"
    unfolding params by (rule clean_params_read [OF args(2,3)])
  with args(1) show ?thesis
    by (intro exI [of _ args] exI [of _ "map_puts [] (clean_members tool args)"]) (auto simp: map_of_clean split: if_splits)
qed

theorem forwarded_params_hold_the_call_witness:
  "\<exists>doc. reads_map demo_f64 demo_sent_params doc \<and> map_of doc ''name'' = Some (JStr ''read'') \<and> ''server'' \<notin> dom (map_of doc)"
proof -
  have f: "gw_f64 demo_gateway = demo_f64" "number_codec (gw_f64 demo_gateway)"
    using demo_f64_codec by (simp_all add: demo_gateway_def)
  have call: "parseToolCall demo_gateway demo_req = Inr (''hr-api'', ''read'', demo_sent_params)"
    by (simp add: demo_call demo_sent_params_def)
  show ?thesis using forwarded_params_hold_the_call [OF f(2) demo_decoded call] unfolding f(1) by auto
qed

text \<open>C39: the arguments of a call are audited unredacted. Before an event is published, the keys that the policy lists
  are redacted at the top level of the parameters, which has the members \<^verbatim>\<open>name\<close> and \<^verbatim>\<open>arguments\<close> only. So for every
  request that calls a tool with arguments and whose call is decided, by whatever verdict but a failure of the limiter, the
  event that the handler publishes has parameters that decode to a document in which the arguments are as the client has sent
  them, unless the policy lists \<^verbatim>\<open>arguments\<close> itself: the fields that a policy wants redacted reach the broker, contrary
  to what the README and the migration of the table say.\<close>

theorem audited_params_hold_the_arguments:
  assumes "number_codec (gw_f64 g)" and "proxy_handler g mo inp w = (out, w')"
    and "decode dec_request zero_Request (in_body inp) = Some req"
    and "ends g mo inp req w (Decided userID srv tool params flds v)" and "v \<noteq> Limiter_failed"
    and "calls_tool (gw_f64 g) req server tool args" and "args \<noteq> []" and "''arguments'' \<notin> set flds"
  shows "\<exists>e doc. w_pub w' = snd (gw_publish g e (w_pub w)) \<and> event_UserID e = userID \<and> event_Tool e = tool \<and>
    reads_map (gw_f64 g) (event_Params e) doc \<and> map_of doc ''arguments'' = Some (JObj args)"
proof -
  obtain server' where call: "parseToolCall g req = Inr (server', tool, params)"
    using assms(4) by (rule ends_decided) (auto simp: target_def)
  obtain args' where args: "calls_tool (gw_f64 g) req server' tool args'" "utf8_ok tool" "json_ok (gw_f64 g) (max_depth - 1) (JObj args')"
    and params: "params = call_params_text \<lparr>call_Name = tool, call_Arguments = Some args'\<rparr>"
    using parsed_call [OF assms(1) decoded_request [OF assms(3)] call] by blast
  have "args' = args" using args(1) assms(6) by (auto simp: calls_tool_def)
  then have doc: "\<exists>doc. reads_map (gw_f64 g) (RedactJSONBytes (gw_f64 g) params flds) doc \<and> map_of doc ''arguments'' = Some (JObj args)"
    using arguments_are_audited_unredacted [OF assms(1) args(2,3) _ assms(8)] assms(7) unfolding params by simp
  obtain oc sm where event: "stage_event g mo (Decided userID srv tool params flds v) = Some (event_of g mo userID srv tool oc params flds sm)"
    using assms(5) by (cases v) (auto simp: stage_event_of)
  have "w_pub w' = snd (gw_publish g (event_of g mo userID srv tool oc params flds sm) (w_pub w))"
    using ends_handled [OF assms(2-4)] by (simp add: handled_def event)
  with doc show ?thesis
    by (intro exI [of _ "event_of g mo userID srv tool oc params flds sm"]) (simp add: event_of_def NewEvent_def)
qed

text \<open>A request with an argument.\<close>

definition ssn_args :: "(string \<times> json) list" where
  "ssn_args = [(''ssn'', JStr ''1'')]"

definition ssn_params :: "(string \<times> json) list" where
  "ssn_params = [(''arguments'', JObj ssn_args), (''name'', JStr ''read''), (''server'', JStr ''hr-api'')]"

definition ssn_members :: "(string \<times> json) list" where
  "ssn_members = [(''id'', JNum ''7''), (''method'', JStr ''tools/call''), (''params'', JObj ssn_params)]"

definition ssn_req :: Request where
  "ssn_req = \<lparr>req_JSONRPC = [], req_ID = ''7'', req_Method = ''tools/call'', req_Params = json_print (JObj ssn_params)\<rparr>"

lemma ssn_texts: "utf8_ok ''arguments''" "utf8_ok ''ssn''" "utf8_ok ''1''"
  by (simp_all add: utf8_len_def)

lemma ssn_decoded: "decode dec_request zero_Request (object_text (printed ssn_members)) = Some ssn_req"
proof -
  have ok: "member_ok e" if "e \<in> set ssn_members" for e
    using that demo_texts_ok demo_number ssn_texts
    by (auto simp: ssn_members_def ssn_params_def ssn_args_def member_ok_def max_depth_def less_char_def simp del: utf8_ok.simps)
  have "decode dec_request zero_Request (object_text (printed ssn_members)) =
      set_fields request_field (printed ssn_members) zero_Request"
    unfolding dec_request_def by (simp add: decode_object [OF ok] dec_struct_object [OF ok])
  then show ?thesis
    using demo_texts_ok
    by (simp add: ssn_members_def set_fields_Cons folded_request_keys request_field_def zero_Request_def dec_raw_def
        ssn_req_def del: fold_name.simps utf8_ok.simps json_print.simps(6))
qed

lemma ssn_called: "unmarshal (dec_struct (call_args_field demo_f64)) zero_call_args (req_Params ssn_req) =
    Some \<lparr>ca_Server = ''hr-api'', ca_Name = ''read'', ca_Arguments = Some ssn_args\<rparr>"
proof -
  have ok: "member_ok e" if "e \<in> set ssn_params" for e
    using that demo_texts_ok ssn_texts
    by (auto simp: ssn_params_def ssn_args_def member_ok_def max_depth_def less_char_def simp del: utf8_ok.simps)
  have args: "json_ok demo_f64 max_depth (JObj ssn_args)"
    using ssn_texts by (simp add: ssn_args_def max_depth_def del: utf8_ok.simps)
  have "dec_map demo_f64 (json_print (JObj ssn_args)) None = Some (Some ssn_args)"
    by (rule dec_map_fresh [OF _ json_parse_print [OF args]]) (simp_all add: is_null_def ssn_args_def)
  moreover have "fold_name ''arguments'' = ''ARGUMENTS''" by code_simp
  moreover have "unmarshal (dec_struct (call_args_field demo_f64)) zero_call_args (object_text (printed ssn_params)) =
      set_fields (call_args_field demo_f64) (printed ssn_params) zero_call_args"
    by (rule unmarshal_object [OF ok])
  moreover have "req_Params ssn_req = object_text (printed ssn_params)" by (simp add: ssn_req_def ssn_params_def object_text_def)
  ultimately show ?thesis
    using demo_texts_ok
    by (simp add: ssn_params_def set_fields_Cons folded_request_keys call_args_field_def zero_call_args_def
        del: fold_name.simps utf8_ok.simps json_print.simps(6))
qed

definition ssn_in :: http_in where
  "ssn_in = \<lparr>in_authorization = in_authorization demo_in, in_body = object_text (printed ssn_members)\<rparr>"

theorem audited_params_hold_the_arguments_witness:
  "\<exists>e doc. w_pub (snd (proxy_handler demo_gateway demo_moment ssn_in (demo_world False))) = [e] \<and>
    reads_map demo_f64 (event_Params e) doc \<and> map_of doc ''arguments'' = Some (JObj [(''ssn'', JStr ''1'')])"
proof -
  have f: "gw_f64 demo_gateway = demo_f64" "number_codec (gw_f64 demo_gateway)"
    using demo_f64_codec by (simp_all add: demo_gateway_def)
  obtain params where call: "parseToolCall demo_gateway ssn_req = Inr (''hr-api'', ''read'', params)"
    using ssn_called by (simp add: parseToolCall_def f(1) ssn_req_def)
  have args: "calls_tool (gw_f64 demo_gateway) ssn_req ''hr-api'' ''read'' ssn_args"
    using ssn_called by (simp add: calls_tool_def args_of_def f(1))
  have body: "decode dec_request zero_Request (in_body ssn_in) = Some ssn_req" by (simp add: ssn_in_def ssn_decoded)
  have st: "ends demo_gateway demo_moment ssn_in ssn_req (demo_world False)
      (Decided (format_uuid id3) demo_srv ''read'' params [''ssn''] Policy_denied)"
    by (rule demo_ends_denied [OF call]) (simp add: ssn_in_def)
  obtain out w' where run: "proxy_handler demo_gateway demo_moment ssn_in (demo_world False) = (out, w')" by fastforce
  have "ssn_args \<noteq> []" "''arguments'' \<notin> set [''ssn'']" by (simp_all add: ssn_args_def)
  from audited_params_hold_the_arguments [OF f(2) run body st _ args this] obtain e doc where
    e: "w_pub w' = snd (gw_publish demo_gateway e (w_pub (demo_world False)))" "reads_map (gw_f64 demo_gateway) (event_Params e) doc"
      "map_of doc ''arguments'' = Some (JObj ssn_args)"
    by auto
  then have "w_pub w' = [e]" by (simp add: demo_gateway_def Memory_Publish_def demo_world_def)
  with e(2,3) show ?thesis unfolding run f(1) ssn_args_def by auto
qed

end
