(* ===== verification/Proxy_Replies.thy ===== *)
theory Proxy_Replies
  imports Proxy_Types
begin

text \<open>
  What the client learns from a reply: a reply is the redacted answer of a server, or an error whose code tells how far
  the request came.
\<close>

section \<open>The codes of the stages\<close>

text \<open>The code of an error reply against the effects of the request: where it ended, and what it touched before.\<close>

definition code_tells :: "('r, 'z, 'd, 'w, 'p) gateway \<Rightarrow> ('r, 'z, 'd, 'w, 'p) world \<Rightarrow> ('r, 'z, 'd, 'w, 'p) world \<Rightarrow> 64 word \<Rightarrow> bool" where
  "code_tells g w w' ec \<longleftrightarrow>
    (ec \<noteq> CodeUpstreamError \<longrightarrow> w_net w' = w_net w) \<and>
    (ec \<in> {CodeUnauthorized, CodeInvalidParams, CodeInternalError} \<longrightarrow> w_pub w' = w_pub w \<and> w_zsets w' = w_zsets w) \<and>
    (ec = CodeForbidden \<longrightarrow> w_zsets w' = w_zsets w) \<and>
    (ec = CodeUpstreamError \<longrightarrow> (\<exists>e. event_Outcome e = OutcomeError \<and> w_pub w' = snd (gw_publish g e (w_pub w)))) \<and>
    ec \<in> {CodeUnauthorized, CodeInvalidParams, CodeInternalError, CodeForbidden, CodeRateLimited, CodeUpstreamError}"

lemmas code_defs = CodeParseError_def CodeInvalidParams_def CodeInternalError_def CodeUnauthorized_def CodeForbidden_def
  CodeRateLimited_def CodeUpstreamError_def

lemma codes_differ:
  "distinct [CodeParseError, CodeInvalidParams, CodeInternalError, CodeUnauthorized, CodeForbidden, CodeRateLimited, CodeUpstreamError]"
  unfolding code_defs by code_simp

text \<open>The code that belongs to a stage; an answered call has none.\<close>

definition stage_code :: "stage \<Rightarrow> 64 word option" where
  "stage_code st = (case st of
      Caller_refused \<Rightarrow> Some (- 32001)
    | Caller_unclear \<Rightarrow> Some (- 32603)
    | Call_refused \<Rightarrow> Some (- 32602)
    | Server_unclear \<Rightarrow> Some (- 32603)
    | Server_off \<Rightarrow> Some (- 32002)
    | Decided userID srv tool params flds v \<Rightarrow> (case v of
        Policy_denied \<Rightarrow> Some (- 32002)
      | Limiter_failed \<Rightarrow> Some (- 32003)
      | Over_quota \<Rightarrow> Some (- 32003)
      | Server_failed err \<Rightarrow> Some (- 32004)
      | Server_answered resp \<Rightarrow> None))"

lemma stage_error:
  assumes "stage_reply g rid st out" and "stage_code st = Some ec"
  shows "\<exists>hs msg. out = writeRPCError hs rid ec msg"
  using assms by (auto simp: stage_reply_def stage_code_def code_defs split: stage.splits verdict.splits)

lemma stage_answer:
  assumes "stage_reply g rid st out" and "stage_code st = None"
  obtains userID srv tool params flds resp where "st = Decided userID srv tool params flds (Server_answered resp)"
    and "out = writeJSON [] (redact_response (gw_f64 g) flds resp)"
  using assms by (auto simp: stage_reply_def stage_code_def split: stage.splits verdict.splits)

text \<open>What a request has touched fits its code.\<close>

lemma stage_tells:
  assumes "handled g mo req w st out w'" and "stage_code st = Some ec"
  shows "code_tells g w w' ec"
proof -
  note codes = codes_differ [unfolded code_defs]
  have net: "\<not> contacted st \<Longrightarrow> w_net w' = w_net w" and zsets: "\<not> metered st \<Longrightarrow> w_zsets w' = w_zsets w"
    and pub: "w_pub w' = (case stage_event g mo st of None \<Rightarrow> w_pub w | Some e \<Rightarrow> snd (gw_publish g e (w_pub w)))"
    using assms(1) by (simp_all add: handled_def)
  show ?thesis
  proof (cases st)
    case (Decided userID srv tool params flds v)
    show ?thesis
    proof (cases v)
      case (Server_failed err)
      have "event_Outcome (event_of g mo userID srv tool OutcomeError params flds sm) = OutcomeError" for sm
        by (simp add: event_of_def NewEvent_def)
      then show ?thesis
        using assms(2) pub codes unfolding Decided Server_failed stage_event_of
        by (auto simp: code_tells_def code_defs stage_code_def)
    qed (use assms(2) net zsets codes Decided in \<open>auto simp: code_tells_def code_defs stage_code_def contacted_def metered_def\<close>)
  qed (use assms(2) net zsets pub codes in \<open>auto simp: code_tells_def code_defs stage_code_def early_stages\<close>)
qed

section \<open>The property\<close>

text \<open>C7: the client can trust an error code. A body that is no request is answered by a parse error with the id null,
  and nothing happens. Every other request ends at a stage. When a server has answered, the reply is this answer, redacted
  with the keys of the policy decision. Otherwise the reply decodes as an error with the id of the request and no result,
  and with the code of the stage: -32001 when the caller was refused, -32602 when the call was, -32603 when one of them could
  not be looked up, -32002 when the server is inactive or the policy denies, -32003 when the limiter failed or refused, and
  -32004 when the server failed. So unless it is the upstream error, no server was contacted; for unauthorized, invalid
  parameters and internal errors nothing was published and the rate limit was not touched; a forbidden call does not
  count against the rate limit; and an upstream error is audited as an error.\<close>

theorem error_codes_tell_the_stage:
  assumes "number_codec (gw_f64 g)" and "proxy_handler g mo inp w = (out, w')"
  shows "case decode dec_request zero_Request (in_body inp) of
      None \<Rightarrow> w' = w \<and> (\<exists>msg. unmarshal dec_response zero_Response (out_body out) =
        Some \<lparr>resp_JSONRPC = ''2.0'', resp_ID = ''null'', resp_Result = [],
          resp_Error = Some \<lparr>err_Code = - 32700, err_Message = msg, err_Data = []\<rparr>\<rparr>)
    | Some req \<Rightarrow> (\<exists>st. ends g mo inp req w st) \<and>
        (\<forall>st. ends g mo inp req w st \<longrightarrow> (case stage_code st of
            None \<Rightarrow> \<exists>userID srv tool params flds resp. st = Decided userID srv tool params flds (Server_answered resp) \<and>
              fst (forwarding g srv (req_ID req) params (w_net w)) = Inr resp \<and>
              out = writeJSON [] (redact_response (gw_f64 g) flds resp)
          | Some ec \<Rightarrow> (\<exists>msg. unmarshal dec_response zero_Response (out_body out) =
              Some \<lparr>resp_JSONRPC = ''2.0'', resp_ID = raw_text (req_ID req), resp_Result = [],
                resp_Error = Some \<lparr>err_Code = ec, err_Message = msg, err_Data = []\<rparr>\<rparr>) \<and> code_tells g w w' ec))"
proof -
  have v: "utf8_fix ''2.0'' = ''2.0''" by code_simp
  have read: "unmarshal dec_response zero_Response (out_body (writeRPCError hs rid ec msg)) =
      Some \<lparr>resp_JSONRPC = ''2.0'', resp_ID = raw_text rid, resp_Result = [],
        resp_Error = Some \<lparr>err_Code = ec, err_Message = utf8_fix msg, err_Data = []\<rparr>\<rparr>"
    if "raw_field (max_depth - 1) rid" for hs rid ec msg
  proof -
    have typed: "response_typed (max_depth - 1) (ErrorResponse rid ec msg)"
      using that by (simp add: ErrorResponse_def response_typed_def error_typed_def)
    have "out_body (writeRPCError hs rid ec msg) = response_text (ErrorResponse rid ec msg) @ [CHR 0x0A]"
      using typed_response_ok [OF typed] by (simp add: writeRPCError_def writeJSON_def)
    with response_read(1) [OF typed] show ?thesis
      by (simp add: reread_response_def ErrorResponse_def reread_error_def reread_optional_def v del: utf8_fix.simps)
  qed
  show ?thesis
  proof (cases "decode dec_request zero_Request (in_body inp)")
    case None
    then have "w' = w" "out = writeRPCError [] [] CodeParseError ''parse error''"
      using assms(2) by (auto simp: proxy_handler_def)
    then show ?thesis using None read [OF raw_field_Nil, of "[]" CodeParseError "''parse error''"]
      by (simp add: raw_text_def CodeParseError_def)
  next
    case (Some req)
    have rid: "raw_field (max_depth - 1) (req_ID req)" using decoded_request [OF Some] by (simp add: request_typed_def)
    have "case stage_code st of
        None \<Rightarrow> \<exists>userID srv tool params flds resp. st = Decided userID srv tool params flds (Server_answered resp) \<and>
          fst (forwarding g srv (req_ID req) params (w_net w)) = Inr resp \<and>
          out = writeJSON [] (redact_response (gw_f64 g) flds resp)
      | Some ec \<Rightarrow> (\<exists>msg. unmarshal dec_response zero_Response (out_body out) =
          Some \<lparr>resp_JSONRPC = ''2.0'', resp_ID = raw_text (req_ID req), resp_Result = [],
            resp_Error = Some \<lparr>err_Code = ec, err_Message = msg, err_Data = []\<rparr>\<rparr>) \<and> code_tells g w w' ec"
      if st: "ends g mo inp req w st" for st
    proof -
      have h: "handled g mo req w st out w'" by (rule ends_handled [OF assms(2) Some st])
      then have reply: "stage_reply g (req_ID req) st out" by (simp add: handled_def)
      show ?thesis
      proof (cases "stage_code st")
        case None
        from reply None obtain userID srv tool params flds resp where
          answer: "st = Decided userID srv tool params flds (Server_answered resp)"
            "out = writeJSON [] (redact_response (gw_f64 g) flds resp)"
          by (rule stage_answer)
        moreover have "fst (forwarding g srv (req_ID req) params (w_net w)) = Inr resp"
          using st unfolding answer(1) by (rule ends_answered)
        ultimately show ?thesis unfolding None option.case by blast
      next
        case code: (Some ec)
        obtain hs msg where "out = writeRPCError hs (req_ID req) ec msg" using stage_error [OF reply code] by blast
        then show ?thesis using read [OF rid, of hs ec msg] stage_tells [OF h code] code by simp
      qed
    qed
    then show ?thesis using Some ends_somewhere [of g mo inp req w] by simp
  qed
qed

theorem error_codes_tell_the_stage_witness:
  "(\<exists>msg. unmarshal dec_response zero_Response (out_body (demo_out False)) =
      Some \<lparr>resp_JSONRPC = ''2.0'', resp_ID = raw_text ''7'', resp_Result = [],
        resp_Error = Some \<lparr>err_Code = - 32002, err_Message = msg, err_Data = []\<rparr>\<rparr>) \<and>
    w_zsets (demo_after False) = w_zsets (demo_world False)"
proof -
  let ?st = "Decided (format_uuid id3) demo_srv ''read'' demo_sent_params [''ssn''] Policy_denied"
  have codec: "number_codec (gw_f64 demo_gateway)" using demo_f64_codec by (simp add: demo_gateway_def)
  have "ends demo_gateway demo_moment demo_in demo_req (demo_world False) ?st"
    by (rule demo_ends_denied) (simp_all add: demo_call demo_sent_params_def)
  moreover have "stage_code ?st = Some (- 32002)" "req_ID demo_req = ''7''" by (simp_all add: stage_code_def demo_req_def)
  ultimately show ?thesis
    using error_codes_tell_the_stage [OF codec demo_run [of False]]
    by (fastforce simp: demo_decoded code_tells_def CodeForbidden_def)
qed

end
