(* ===== verification/Admin_Api.thy ===== *)
theory Admin_Api
  imports Json_Round Db
begin

text \<open>
  What the handlers of the administration API share: replies and the error envelope (\<^verbatim>\<open>internal/api\<close>), the reading
  of parameters and the test for a unique violation (the helpers in \<^verbatim>\<open>internal/handlers\<close>), and the JSON of the
  rows of \<^verbatim>\<open>internal/db/models.go\<close>. The JSON of a UUID and of a timestamp and the reading of a UUID are
  \<^verbatim>\<open>pgtype\<close>'s, and the text of a database error is the driver's: they are parameters. A \<^verbatim>\<open>[]byte\<close> column
  is printed by \<^verbatim>\<open>encoding/json\<close> in base64.
\<close>

section \<open>Replies\<close>

record http_reply =
  rep_status :: nat
  rep_headers :: "(string \<times> string) list"
  rep_body :: string

definition ErrCodeUnauthorized :: string where "ErrCodeUnauthorized = ''unauthorized''"
definition ErrCodeForbidden :: string where "ErrCodeForbidden = ''forbidden''"
definition ErrCodeNotFound :: string where "ErrCodeNotFound = ''not_found''"
definition ErrCodeBadRequest :: string where "ErrCodeBadRequest = ''bad_request''"
definition ErrCodeConflict :: string where "ErrCodeConflict = ''conflict''"
definition ErrCodeInternal :: string where "ErrCodeInternal = ''internal_error''"
definition ErrCodeInvalidUUID :: string where "ErrCodeInvalidUUID = ''invalid_uuid''"
definition ErrCodeInvalidPayload :: string where "ErrCodeInvalidPayload = ''invalid_payload''"

text \<open>The values that are written have a JSON text; \<^verbatim>\<open>Encode\<close> adds a newline.\<close>

definition WriteJSON :: "nat \<Rightarrow> string \<Rightarrow> http_reply" where
  "WriteJSON status v = \<lparr>rep_status = status, rep_headers = [(''Content-Type'', ''application/json'')],
    rep_body = v @ [CHR 0x0A]\<rparr>"

record api_error =
  api_Code :: string
  api_Message :: string

definition api_error_text :: "api_error \<Rightarrow> string" where
  "api_error_text x = object_text [(''code'', quote (api_Code x)), (''message'', quote (api_Message x))]"

definition WriteError :: "nat \<Rightarrow> string \<Rightarrow> string \<Rightarrow> http_reply" where
  "WriteError status c message = WriteJSON status (api_error_text \<lparr>api_Code = c, api_Message = message\<rparr>)"

text \<open>\<^verbatim>\<open>w.WriteHeader(http.StatusNoContent)\<close>.\<close>

definition no_content :: http_reply where
  "no_content = \<lparr>rep_status = 204, rep_headers = [], rep_body = []\<rparr>"

lemma status_simps [simp]:
  "rep_status (WriteJSON n v) = n" "rep_status (WriteError n c m) = n" "rep_status no_content = 204"
  by (simp_all add: WriteJSON_def WriteError_def no_content_def)

section \<open>The JSON of rows\<close>

definition base64_char :: "nat \<Rightarrow> char" where
  "base64_char n = (''ABCDEFGHIJKLMNOPQRSTUVWXYZabcdefghijklmnopqrstuvwxyz0123456789+/'') ! (n mod 64)"

fun base64 :: "string \<Rightarrow> string" where
  "base64 [] = []"
| "base64 [a] = [base64_char (code a div 4), base64_char (code a mod 4 * 16), CHR ''='', CHR ''='']"
| "base64 [a, b] = [base64_char (code a div 4), base64_char (code a mod 4 * 16 + code b div 16),
    base64_char (code b mod 16 * 4), CHR ''='']"
| "base64 (a # b # c # r) =
    base64_char (code a div 4) # base64_char (code a mod 4 * 16 + code b div 16) #
    base64_char (code b mod 16 * 4 + code c div 64) # base64_char (code c mod 64) # base64 r"

definition bytes_text :: "string option \<Rightarrow> string" where
  "bytes_text x = (case x of None \<Rightarrow> ''null'' | Some b \<Rightarrow> DQ # base64 b @ [DQ])"

record pgtypes =
  pt_scan :: "string \<Rightarrow> uuid option"
  pt_uuid :: "uuid \<Rightarrow> string"
  pt_time :: "int \<Rightarrow> string"
  pt_error :: "db_error \<Rightarrow> string"

definition role_text :: "pgtypes \<Rightarrow> Role \<Rightarrow> string" where
  "role_text pt x = object_text
    [(''id'', pt_uuid pt (role_id x)), (''name'', quote (role_name x)),
     (''description'', (case role_desc x of None \<Rightarrow> ''null'' | Some d \<Rightarrow> quote d)),
     (''created_at'', pt_time pt (role_created x))]"

definition user_text :: "pgtypes \<Rightarrow> User \<Rightarrow> string" where
  "user_text pt x = object_text
    [(''id'', pt_uuid pt (user_id x)), (''email'', quote (user_email x)), (''display_name'', quote (user_display x)),
     (''role_id'', pt_uuid pt (user_role x)), (''is_active'', bool_text (user_active x)),
     (''created_at'', pt_time pt (user_created x))]"

definition server_text :: "pgtypes \<Rightarrow> DownstreamServer \<Rightarrow> string" where
  "server_text pt x = object_text
    [(''id'', pt_uuid pt (srv_id x)), (''name'', quote (srv_name x)), (''base_url'', quote (srv_base_url x)),
     (''auth_type'', quote (srv_auth_type x)), (''auth_secret_ref'', quote (srv_secret_ref x)),
     (''tool_manifest'', bytes_text (Some (srv_manifest x))), (''is_active'', bool_text (srv_active x)),
     (''created_at'', pt_time pt (srv_created x))]"

definition policy_text :: "pgtypes \<Rightarrow> Policy \<Rightarrow> string" where
  "policy_text pt x = object_text
    [(''id'', pt_uuid pt (pol_id x)), (''role_id'', pt_uuid pt (pol_role x)),
     (''downstream_server_id'', pt_uuid pt (pol_server x)), (''tool_name'', quote (pol_tool x)),
     (''is_allowed'', bool_text (pol_allowed x)), (''redact_fields'', array_text (map quote (pol_redact x))),
     (''max_calls_per_minute'', int_text (pol_max x)), (''created_at'', pt_time pt (pol_created x))]"

definition audit_text :: "pgtypes \<Rightarrow> AuditEvent \<Rightarrow> string" where
  "audit_text pt x = object_text
    [(''id'', pt_uuid pt (ae_id x)), (''user_id'', pt_uuid pt (ae_user x)),
     (''downstream_server_id'', pt_uuid pt (ae_server x)), (''tool_name'', quote (ae_tool x)),
     (''input_params_redacted'', bytes_text (ae_params x)), (''outcome'', quote (ae_outcome x)),
     (''response_summary'', bytes_text (ae_summary x)),
     (''latency_ms'', (case ae_latency x of None \<Rightarrow> ''null'' | Some l \<Rightarrow> int_text l)),
     (''occurred_at'', pt_time pt (ae_at x))]"

section \<open>Parameters\<close>

text \<open>\<open>Inl\<close> is the reply that has been written.\<close>

definition parseUUID :: "pgtypes \<Rightarrow> string \<Rightarrow> http_reply + uuid" where
  "parseUUID pt s =
    (case pt_scan pt s of
      None \<Rightarrow> Inl (WriteError 400 ErrCodeInvalidUUID ''invalid UUID format'')
    | Some u \<Rightarrow> Inr u)"

text \<open>The inner loop looks at every position at which the rest is long enough.\<close>

definition contains :: "string \<Rightarrow> string \<Rightarrow> bool" where
  "contains s sub \<longleftrightarrow> length sub \<le> length s \<and>
    list_ex (\<lambda>i. take (length sub) (drop i s) = sub) [0..<Suc (length s - length sub)]"

definition containsAny :: "string \<Rightarrow> string list \<Rightarrow> bool" where
  "containsAny s subs \<longleftrightarrow> list_ex (contains s) subs"

definition isUniqueViolation :: "pgtypes \<Rightarrow> db_error \<Rightarrow> bool" where
  "isUniqueViolation pt err \<longleftrightarrow> containsAny (pt_error pt err) [''23505'', ''unique constraint'', ''duplicate key'']"

text \<open>\<^verbatim>\<open>strconv.Atoi\<close>: an optional sign and decimal digits, within 64 bits.\<close>

definition atoi :: "string \<Rightarrow> int option" where
  "atoi s =
    (let (neg, ds) = (case s of [] \<Rightarrow> (False, [])
           | c # r \<Rightarrow> if c = CHR ''-'' then (True, r) else if c = CHR ''+'' then (False, r) else (False, s));
         n = (if neg then - int (dec_val ds) else int (dec_val ds))
     in if ds \<noteq> [] \<and> list_all is_digit ds \<and> - (2 ^ 63) \<le> n \<and> n < 2 ^ 63 then Some n else None)"

definition parseIntParam :: "string \<Rightarrow> int \<Rightarrow> int" where
  "parseIntParam s defaultVal =
    (if s = [] then defaultVal
     else case atoi s of None \<Rightarrow> defaultVal | Some n \<Rightarrow> if n < 0 then defaultVal else n)"

section \<open>Facts\<close>

lemma contains_iff: "contains s sub \<longleftrightarrow> (\<exists>p q. s = p @ sub @ q)"
proof
  assume "contains s sub"
  then have "\<exists>i. take (length sub) (drop i s) = sub" unfolding contains_def list_ex_iff by blast
  then obtain i where i: "take (length sub) (drop i s) = sub" by blast
  have "s = take i s @ take (length sub) (drop i s) @ drop (length sub) (drop i s)"
    by (simp only: append_take_drop_id)
  then show "\<exists>p q. s = p @ sub @ q" unfolding i by blast
next
  assume "\<exists>p q. s = p @ sub @ q"
  then obtain p q where s: "s = p @ sub @ q" by blast
  then have "take (length sub) (drop (length p) s) = sub" "length p < Suc (length s - length sub)" by simp_all
  then show "contains s sub" using s by (auto simp: contains_def list_ex_iff intro!: bexI [of _ "length p"])
qed

lemma parseIntParam_nonneg: "0 \<le> d \<Longrightarrow> 0 \<le> parseIntParam s d"
  by (simp add: parseIntParam_def split: option.split)

end
