(* ===== verification/Handlers.thy ===== *)
theory Handlers
  imports Admin_Api Tokens
begin

text \<open>
  The handlers of the administration API (\<^verbatim>\<open>internal/handlers\<close>). A handler takes the request and the state behind
  the queries (for the token endpoints, the state of Redis) and gives the reply and the new state; its branches are
  the early returns of the code, in their order. Each request runs at most one statement.
\<close>

section \<open>Requests\<close>

text \<open>
  What a handler reads: the path as its decoded segments, the first value of a query parameter (\<^verbatim>\<open>""\<close> when there is
  none), the path value \<^verbatim>\<open>id\<close>, the body. \<open>ar_context_id\<close> is the request id in the context.
\<close>

record admin_request =
  ar_method :: string
  ar_segments :: "string list"
  ar_query :: "string \<Rightarrow> string"
  ar_id :: string
  ar_authorization :: string
  ar_header_id :: string
  ar_context_id :: string
  ar_body :: string

record ('r, 'd) handler =
  h_q :: "'d querier"
  h_tokenMgr :: "'r token_manager option"

text \<open>\<^verbatim>\<open>New\<close>: the token manager is a variadic argument, and may be nil.\<close>

definition New_handler :: "'d querier \<Rightarrow> 'r token_manager option list \<Rightarrow> ('r, 'd) handler" where
  "New_handler q tokenMgr =
    \<lparr>h_q = q, h_tokenMgr = (case tokenMgr of [] \<Rightarrow> None | m # _ \<Rightarrow> m)\<rparr>"

text \<open>The ends that handlers share: the replies for the answer of a query.\<close>

definition internal_error :: "string \<Rightarrow> http_reply" where
  "internal_error msg = WriteError 500 ErrCodeInternal msg"

definition bad_request :: "string \<Rightarrow> http_reply" where
  "bad_request msg = WriteError 400 ErrCodeBadRequest msg"

definition invalid_body :: http_reply where
  "invalid_body = WriteError 400 ErrCodeInvalidPayload ''invalid JSON body''"

definition list_reply :: "('a \<Rightarrow> string) \<Rightarrow> string \<Rightarrow> db_error + 'a list \<Rightarrow> http_reply" where
  "list_reply f failed res =
    (case res of Inl err \<Rightarrow> internal_error failed | Inr rows \<Rightarrow> WriteJSON 200 (array_text (map f rows)))"

definition row_reply :: "('a \<Rightarrow> string) \<Rightarrow> string \<Rightarrow> string \<Rightarrow> db_error + 'a \<Rightarrow> http_reply" where
  "row_reply f missing failed res =
    (case res of
      Inl err \<Rightarrow> if err = NoRows then WriteError 404 ErrCodeNotFound missing else internal_error failed
    | Inr row \<Rightarrow> WriteJSON 200 (f row))"

definition created_reply :: "pgtypes \<Rightarrow> ('a \<Rightarrow> string) \<Rightarrow> string \<Rightarrow> string \<Rightarrow> db_error + 'a \<Rightarrow> http_reply" where
  "created_reply pt f taken failed res =
    (case res of
      Inl err \<Rightarrow> if isUniqueViolation pt err then WriteError 409 ErrCodeConflict taken else internal_error failed
    | Inr row \<Rightarrow> WriteJSON 201 (f row))"

definition answered :: "('x \<Rightarrow> http_reply) \<Rightarrow> 'x \<times> 'd \<Rightarrow> http_reply \<times> 'd" where
  "answered f = map_prod f id"

section \<open>Roles\<close>

definition ListRoles_handler :: "pgtypes \<Rightarrow> 'd querier \<Rightarrow> admin_request \<Rightarrow> 'd \<Rightarrow> http_reply \<times> 'd" where
  "ListRoles_handler pt q r d = answered (list_reply (role_text pt) ''failed to list roles'') (q_ListRoles q d)"

record role_body =
  rb_Name :: string
  rb_Description :: "string option"

definition role_body_field :: "string \<Rightarrow> string \<Rightarrow> role_body \<Rightarrow> role_body option" where
  "role_body_field k raw x =
    (if k = ''NAME'' then map_option (\<lambda>v. x\<lparr>rb_Name := v\<rparr>) (dec_string raw (rb_Name x))
     else if k = ''DESCRIPTION'' then
       map_option (\<lambda>v. x\<lparr>rb_Description := v\<rparr>) (dec_ptr dec_string [] raw (rb_Description x))
     else Some x)"

definition read_role_body :: "string \<Rightarrow> role_body option" where
  "read_role_body s = decode (dec_struct role_body_field) \<lparr>rb_Name = [], rb_Description = None\<rparr> s"

definition CreateRole_handler :: "pgtypes \<Rightarrow> 'd querier \<Rightarrow> admin_request \<Rightarrow> 'd \<Rightarrow> http_reply \<times> 'd" where
  "CreateRole_handler pt q r d =
    (case read_role_body (ar_body r) of
      None \<Rightarrow> (invalid_body, d)
    | Some body \<Rightarrow>
      if rb_Name body = [] then (bad_request ''name is required'', d)
      else answered (created_reply pt (role_text pt) ''role name already exists'' ''failed to create role'')
        (q_CreateRole q \<lparr>cr_name = rb_Name body, cr_desc = rb_Description body\<rparr> d))"

definition GetRole_handler :: "pgtypes \<Rightarrow> 'd querier \<Rightarrow> admin_request \<Rightarrow> 'd \<Rightarrow> http_reply \<times> 'd" where
  "GetRole_handler pt q r d =
    (case parseUUID pt (ar_id r) of
      Inl reply \<Rightarrow> (reply, d)
    | Inr rid \<Rightarrow> answered (row_reply (role_text pt) ''role not found'' ''failed to get role'') (q_GetRole q rid d))"

definition UpdateRole_handler :: "pgtypes \<Rightarrow> 'd querier \<Rightarrow> admin_request \<Rightarrow> 'd \<Rightarrow> http_reply \<times> 'd" where
  "UpdateRole_handler pt q r d =
    (case parseUUID pt (ar_id r) of
      Inl reply \<Rightarrow> (reply, d)
    | Inr rid \<Rightarrow>
      (case read_role_body (ar_body r) of
        None \<Rightarrow> (invalid_body, d)
      | Some body \<Rightarrow>
        if rb_Name body = [] then (bad_request ''name is required'', d)
        else answered (row_reply (role_text pt) ''role not found'' ''failed to update role'')
          (q_UpdateRole q \<lparr>ur_id = rid, ur_name = rb_Name body, ur_desc = rb_Description body\<rparr> d)))"

text \<open>The reply of \<^verbatim>\<open>DeleteRole\<close> has no body; a statement that deletes gives no \<^verbatim>\<open>ErrNoRows\<close>.\<close>

definition DeleteRole_handler :: "pgtypes \<Rightarrow> 'd querier \<Rightarrow> admin_request \<Rightarrow> 'd \<Rightarrow> http_reply \<times> 'd" where
  "DeleteRole_handler pt q r d =
    (case parseUUID pt (ar_id r) of
      Inl reply \<Rightarrow> (reply, d)
    | Inr rid \<Rightarrow>
      answered (\<lambda>res. case res of
          Inl err \<Rightarrow> if err = NoRows then WriteError 404 ErrCodeNotFound ''role not found''
            else internal_error ''failed to delete role''
        | Inr _ \<Rightarrow> no_content) (q_DeleteRole q rid d))"

section \<open>Users\<close>

definition ListUsers_handler :: "pgtypes \<Rightarrow> 'd querier \<Rightarrow> admin_request \<Rightarrow> 'd \<Rightarrow> http_reply \<times> 'd" where
  "ListUsers_handler pt q r d = answered (list_reply (user_text pt) ''failed to list users'') (q_ListActiveUsers q d)"

record user_body =
  ub_Email :: string
  ub_DisplayName :: string
  ub_RoleID :: string

definition user_body_field :: "string \<Rightarrow> string \<Rightarrow> user_body \<Rightarrow> user_body option" where
  "user_body_field k raw x =
    (if k = ''EMAIL'' then map_option (\<lambda>v. x\<lparr>ub_Email := v\<rparr>) (dec_string raw (ub_Email x))
     else if k = ''DISPLAY_NAME'' then map_option (\<lambda>v. x\<lparr>ub_DisplayName := v\<rparr>) (dec_string raw (ub_DisplayName x))
     else if k = ''ROLE_ID'' then map_option (\<lambda>v. x\<lparr>ub_RoleID := v\<rparr>) (dec_string raw (ub_RoleID x))
     else Some x)"

definition read_user_body :: "string \<Rightarrow> user_body option" where
  "read_user_body s = decode (dec_struct user_body_field) \<lparr>ub_Email = [], ub_DisplayName = [], ub_RoleID = []\<rparr> s"

definition CreateUser_handler :: "pgtypes \<Rightarrow> 'd querier \<Rightarrow> admin_request \<Rightarrow> 'd \<Rightarrow> http_reply \<times> 'd" where
  "CreateUser_handler pt q r d =
    (case read_user_body (ar_body r) of
      None \<Rightarrow> (invalid_body, d)
    | Some body \<Rightarrow>
      if ub_Email body = [] then (bad_request ''email is required'', d)
      else if ub_DisplayName body = [] then (bad_request ''display_name is required'', d)
      else if ub_RoleID body = [] then (bad_request ''role_id is required'', d)
      else case parseUUID pt (ub_RoleID body) of
        Inl reply \<Rightarrow> (reply, d)
      | Inr roleID \<Rightarrow>
        answered (created_reply pt (user_text pt) ''email already registered'' ''failed to create user'')
          (q_CreateUser q \<lparr>cu_email = ub_Email body, cu_display = ub_DisplayName body, cu_role = roleID\<rparr> d))"

definition GetUser_handler :: "pgtypes \<Rightarrow> 'd querier \<Rightarrow> admin_request \<Rightarrow> 'd \<Rightarrow> http_reply \<times> 'd" where
  "GetUser_handler pt q r d =
    (case parseUUID pt (ar_id r) of
      Inl reply \<Rightarrow> (reply, d)
    | Inr uid \<Rightarrow> answered (row_reply (user_text pt) ''user not found'' ''failed to get user'') (q_GetUser q uid d))"

text \<open>The body of \<^verbatim>\<open>UpdateUserRole\<close> has one member; the value is not checked for being empty before it is parsed.\<close>

definition one_field :: "string \<Rightarrow> string \<Rightarrow> string \<Rightarrow> string \<Rightarrow> string option" where
  "one_field name k raw x = (if k = name then dec_string raw x else Some x)"

definition UpdateUserRole_handler :: "pgtypes \<Rightarrow> 'd querier \<Rightarrow> admin_request \<Rightarrow> 'd \<Rightarrow> http_reply \<times> 'd" where
  "UpdateUserRole_handler pt q r d =
    (case parseUUID pt (ar_id r) of
      Inl reply \<Rightarrow> (reply, d)
    | Inr uid \<Rightarrow>
      (case decode (dec_struct (one_field ''ROLE_ID'')) [] (ar_body r) of
        None \<Rightarrow> (invalid_body, d)
      | Some role \<Rightarrow>
        (case parseUUID pt role of
          Inl reply \<Rightarrow> (reply, d)
        | Inr roleID \<Rightarrow>
          answered (row_reply (user_text pt) ''user not found'' ''failed to update user role'')
            (q_UpdateUserRole q \<lparr>uur_id = uid, uur_role = roleID\<rparr> d))))"

definition DeactivateUser_handler :: "pgtypes \<Rightarrow> 'd querier \<Rightarrow> admin_request \<Rightarrow> 'd \<Rightarrow> http_reply \<times> 'd" where
  "DeactivateUser_handler pt q r d =
    (case parseUUID pt (ar_id r) of
      Inl reply \<Rightarrow> (reply, d)
    | Inr uid \<Rightarrow> answered (row_reply (user_text pt) ''user not found'' ''failed to deactivate user'')
        (q_SetUserActive q \<lparr>sua_id = uid, sua_active = False\<rparr> d))"

section \<open>Downstream servers\<close>

definition ListDownstreamServers_handler :: "pgtypes \<Rightarrow> 'd querier \<Rightarrow> admin_request \<Rightarrow> 'd \<Rightarrow> http_reply \<times> 'd" where
  "ListDownstreamServers_handler pt q r d =
    answered (list_reply (server_text pt) ''failed to list servers'') (q_ListDownstreamServers q d)"

record server_body =
  sb_Name :: string
  sb_BaseURL :: string
  sb_AuthType :: string
  sb_AuthSecretRef :: string

definition server_body_field :: "string \<Rightarrow> string \<Rightarrow> server_body \<Rightarrow> server_body option" where
  "server_body_field k raw x =
    (if k = ''NAME'' then map_option (\<lambda>v. x\<lparr>sb_Name := v\<rparr>) (dec_string raw (sb_Name x))
     else if k = ''BASE_URL'' then map_option (\<lambda>v. x\<lparr>sb_BaseURL := v\<rparr>) (dec_string raw (sb_BaseURL x))
     else if k = ''AUTH_TYPE'' then map_option (\<lambda>v. x\<lparr>sb_AuthType := v\<rparr>) (dec_string raw (sb_AuthType x))
     else if k = ''AUTH_SECRET_REF'' then
       map_option (\<lambda>v. x\<lparr>sb_AuthSecretRef := v\<rparr>) (dec_string raw (sb_AuthSecretRef x))
     else Some x)"

definition read_server_body :: "string \<Rightarrow> server_body option" where
  "read_server_body s = decode (dec_struct server_body_field)
    \<lparr>sb_Name = [], sb_BaseURL = [], sb_AuthType = [], sb_AuthSecretRef = []\<rparr> s"

definition CreateDownstreamServer_handler :: "pgtypes \<Rightarrow> 'd querier \<Rightarrow> admin_request \<Rightarrow> 'd \<Rightarrow> http_reply \<times> 'd" where
  "CreateDownstreamServer_handler pt q r d =
    (case read_server_body (ar_body r) of
      None \<Rightarrow> (invalid_body, d)
    | Some body \<Rightarrow>
      if sb_Name body = [] then (bad_request ''name is required'', d)
      else if sb_BaseURL body = [] then (bad_request ''base_url is required'', d)
      else if sb_AuthType body \<noteq> ''api_key'' \<and> sb_AuthType body \<noteq> ''oauth2'' then
        (bad_request (''auth_type must be '' @ [CHR 0x27] @ ''api_key'' @ [CHR 0x27] @ '' or '' @ [CHR 0x27] @
           ''oauth2'' @ [CHR 0x27]), d)
      else if sb_AuthSecretRef body = [] then (bad_request ''auth_secret_ref is required'', d)
      else answered (created_reply pt (server_text pt) ''server name already exists'' ''failed to create server'')
        (q_CreateDownstreamServer q \<lparr>cds_name = sb_Name body, cds_base_url = sb_BaseURL body,
           cds_auth_type = sb_AuthType body, cds_secret_ref = sb_AuthSecretRef body, cds_manifest = ''[]''\<rparr> d))"

definition GetDownstreamServer_handler :: "pgtypes \<Rightarrow> 'd querier \<Rightarrow> admin_request \<Rightarrow> 'd \<Rightarrow> http_reply \<times> 'd" where
  "GetDownstreamServer_handler pt q r d =
    (case parseUUID pt (ar_id r) of
      Inl reply \<Rightarrow> (reply, d)
    | Inr sid \<Rightarrow> answered (row_reply (server_text pt) ''server not found'' ''failed to get server'')
        (q_GetDownstreamServer q sid d))"

definition UpdateDownstreamServer_handler :: "pgtypes \<Rightarrow> 'd querier \<Rightarrow> admin_request \<Rightarrow> 'd \<Rightarrow> http_reply \<times> 'd" where
  "UpdateDownstreamServer_handler pt q r d =
    (case parseUUID pt (ar_id r) of
      Inl reply \<Rightarrow> (reply, d)
    | Inr sid \<Rightarrow>
      (case read_server_body (ar_body r) of
        None \<Rightarrow> (invalid_body, d)
      | Some body \<Rightarrow>
        answered (row_reply (server_text pt) ''server not found'' ''failed to update server'')
          (q_UpdateDownstreamServer q \<lparr>uds_id = sid, uds_name = sb_Name body, uds_base_url = sb_BaseURL body,
             uds_auth_type = sb_AuthType body, uds_secret_ref = sb_AuthSecretRef body\<rparr> d)))"

definition SetDownstreamServerActive_handler :: "pgtypes \<Rightarrow> 'd querier \<Rightarrow> admin_request \<Rightarrow> 'd \<Rightarrow> http_reply \<times> 'd" where
  "SetDownstreamServerActive_handler pt q r d =
    (case parseUUID pt (ar_id r) of
      Inl reply \<Rightarrow> (reply, d)
    | Inr sid \<Rightarrow> answered (row_reply (server_text pt) ''server not found'' ''failed to deactivate server'')
        (q_SetDownstreamServerActive q \<lparr>sda_id = sid, sda_active = False\<rparr> d))"

section \<open>Policies\<close>

definition ListPolicies_handler :: "pgtypes \<Rightarrow> 'd querier \<Rightarrow> admin_request \<Rightarrow> 'd \<Rightarrow> http_reply \<times> 'd" where
  "ListPolicies_handler pt q r d =
    (if ar_query r ''role_id'' = [] then (bad_request ''role_id query parameter is required'', d)
     else case parseUUID pt (ar_query r ''role_id'') of
       Inl reply \<Rightarrow> (reply, d)
     | Inr roleID \<Rightarrow> answered (list_reply (policy_text pt) ''failed to list policies'') (q_ListPoliciesByRole q roleID d))"

record policy_body =
  pb_RoleID :: string
  pb_ServerID :: string
  pb_ToolName :: string
  pb_IsAllowed :: bool
  pb_RedactFields :: "string slice"
  pb_Max :: "32 word"

definition policy_body_field :: "string \<Rightarrow> string \<Rightarrow> policy_body \<Rightarrow> policy_body option" where
  "policy_body_field k raw x =
    (if k = ''ROLE_ID'' then map_option (\<lambda>v. x\<lparr>pb_RoleID := v\<rparr>) (dec_string raw (pb_RoleID x))
     else if k = ''DOWNSTREAM_SERVER_ID'' then map_option (\<lambda>v. x\<lparr>pb_ServerID := v\<rparr>) (dec_string raw (pb_ServerID x))
     else if k = ''TOOL_NAME'' then map_option (\<lambda>v. x\<lparr>pb_ToolName := v\<rparr>) (dec_string raw (pb_ToolName x))
     else if k = ''IS_ALLOWED'' then map_option (\<lambda>v. x\<lparr>pb_IsAllowed := v\<rparr>) (dec_bool raw (pb_IsAllowed x))
     else if k = ''REDACT_FIELDS'' then
       map_option (\<lambda>v. x\<lparr>pb_RedactFields := v\<rparr>) (dec_slice dec_string [] raw (pb_RedactFields x))
     else if k = ''MAX_CALLS_PER_MINUTE'' then map_option (\<lambda>v. x\<lparr>pb_Max := v\<rparr>) (dec_word raw (pb_Max x))
     else Some x)"

definition zero_policy_body :: policy_body where
  "zero_policy_body = \<lparr>pb_RoleID = [], pb_ServerID = [], pb_ToolName = [], pb_IsAllowed = False,
    pb_RedactFields = nil_slice, pb_Max = 0\<rparr>"

definition read_policy_body :: "string \<Rightarrow> policy_body option" where
  "read_policy_body s = decode (dec_struct policy_body_field) zero_policy_body s"

text \<open>The defaults: a nil list of fields is the empty one, and a limit that is not positive is 30.\<close>

definition policy_params :: "uuid \<Rightarrow> uuid \<Rightarrow> policy_body \<Rightarrow> UpsertPolicyParams" where
  "policy_params roleID serverID body =
    \<lparr>up_role = roleID, up_server = serverID, up_tool = pb_ToolName body, up_allowed = pb_IsAllowed body,
     up_redact = Some (slice_list (pb_RedactFields body)),
     up_max = (if sint (pb_Max body) \<le> 0 then 30 else pb_Max body)\<rparr>"

definition UpsertPolicy_handler :: "pgtypes \<Rightarrow> 'd querier \<Rightarrow> admin_request \<Rightarrow> 'd \<Rightarrow> http_reply \<times> 'd" where
  "UpsertPolicy_handler pt q r d =
    (case read_policy_body (ar_body r) of
      None \<Rightarrow> (invalid_body, d)
    | Some body \<Rightarrow>
      if pb_RoleID body = [] then (bad_request ''role_id is required'', d)
      else if pb_ServerID body = [] then (bad_request ''downstream_server_id is required'', d)
      else if pb_ToolName body = [] then (bad_request ''tool_name is required'', d)
      else case parseUUID pt (pb_RoleID body) of
        Inl reply \<Rightarrow> (reply, d)
      | Inr roleID \<Rightarrow>
        (case parseUUID pt (pb_ServerID body) of
          Inl reply \<Rightarrow> (reply, d)
        | Inr serverID \<Rightarrow>
          answered (\<lambda>res. case res of
              Inl err \<Rightarrow> internal_error ''failed to upsert policy''
            | Inr p \<Rightarrow> WriteJSON 200 (policy_text pt p))
            (q_UpsertPolicy q (policy_params roleID serverID body) d)))"

definition GetPolicy_handler :: "pgtypes \<Rightarrow> 'd querier \<Rightarrow> admin_request \<Rightarrow> 'd \<Rightarrow> http_reply \<times> 'd" where
  "GetPolicy_handler pt q r d =
    (case parseUUID pt (ar_id r) of
      Inl reply \<Rightarrow> (reply, d)
    | Inr pid \<Rightarrow> answered (row_reply (policy_text pt) ''policy not found'' ''failed to get policy'') (q_GetPolicy q pid d))"

definition DeletePolicy_handler :: "pgtypes \<Rightarrow> 'd querier \<Rightarrow> admin_request \<Rightarrow> 'd \<Rightarrow> http_reply \<times> 'd" where
  "DeletePolicy_handler pt q r d =
    (case parseUUID pt (ar_id r) of
      Inl reply \<Rightarrow> (reply, d)
    | Inr pid \<Rightarrow>
      answered (\<lambda>res. case res of Inl err \<Rightarrow> internal_error ''failed to delete policy'' | Inr _ \<Rightarrow> no_content)
        (q_DeletePolicy q pid d))"

section \<open>The audit log\<close>

text \<open>Both numbers are cut to 32 bits before they are compared.\<close>

definition audit_limit :: "string \<Rightarrow> 32 word" where
  "audit_limit s = (let n = word_of_int (parseIntParam s 50) :: 32 word in if 200 < sint n then 200 else n)"

definition audit_offset :: "string \<Rightarrow> 32 word" where
  "audit_offset s = word_of_int (parseIntParam s 0)"

definition ListAuditEvents_handler :: "pgtypes \<Rightarrow> 'd querier \<Rightarrow> admin_request \<Rightarrow> 'd \<Rightarrow> http_reply \<times> 'd" where
  "ListAuditEvents_handler pt q r d =
    (let lim = audit_limit (ar_query r ''limit''); off = audit_offset (ar_query r ''offset'');
         uid = ar_query r ''user_id''; sid = ar_query r ''downstream_server_id''; outcome = ar_query r ''outcome'';
         finish = answered (list_reply (audit_text pt) ''failed to list audit events'')
     in if uid \<noteq> [] then
          (case parseUUID pt uid of
            Inl reply \<Rightarrow> (reply, d)
          | Inr userID \<Rightarrow>
            finish (q_ListAuditEventsByUser q \<lparr>lau_user = userID, lau_limit = lim, lau_offset = off\<rparr> d))
        else if sid \<noteq> [] then
          (case parseUUID pt sid of
            Inl reply \<Rightarrow> (reply, d)
          | Inr serverID \<Rightarrow>
            finish (q_ListAuditEventsByServer q \<lparr>las_server = serverID, las_limit = lim, las_offset = off\<rparr> d))
        else if outcome \<noteq> [] then
          (if outcome \<notin> set [''allowed'', ''denied'', ''rate_limited'', ''error''] then
             (bad_request ''outcome must be one of: allowed, denied, rate_limited, error'', d)
           else finish (q_ListAuditEventsByOutcome q \<lparr>lao_outcome = outcome, lao_limit = lim, lao_offset = off\<rparr> d))
        else finish (q_ListAuditEvents q \<lparr>la_limit = lim, la_offset = off\<rparr> d))"

section \<open>Tokens\<close>

text \<open>The value is a map of three strings, which is printed in the order of its keys.\<close>

definition token_note :: string where
  "token_note = ''Store this token securely '' @ [CHR 0xE2, CHR 0x80, CHR 0x94] @ '' it cannot be retrieved again.''"

definition IssueToken :: "('r, 'd) handler \<Rightarrow> byte list option \<Rightarrow> int \<Rightarrow> admin_request \<Rightarrow> 'r \<Rightarrow> http_reply \<times> 'r" where
  "IssueToken h rand now r w =
    (case decode (dec_struct (one_field ''USER_ID'')) [] (ar_body r) of
      None \<Rightarrow> (invalid_body, w)
    | Some userID \<Rightarrow>
      if userID = [] then (bad_request ''user_id is required'', w)
      else case h_tokenMgr h of
        None \<Rightarrow> (internal_error ''token manager not configured'', w)
      | Some m \<Rightarrow>
        answered (\<lambda>res. case res of
            Inl err \<Rightarrow> internal_error ''failed to issue token''
          | Inr token \<Rightarrow> WriteJSON 201 (object_text
              [(''note'', quote token_note), (''token'', quote token), (''user_id'', quote userID)]))
          (Issue m rand userID now w))"

definition RevokeToken :: "('r, 'd) handler \<Rightarrow> int \<Rightarrow> admin_request \<Rightarrow> 'r \<Rightarrow> http_reply \<times> 'r" where
  "RevokeToken h now r w =
    (case decode (dec_struct (one_field ''TOKEN'')) [] (ar_body r) of
      None \<Rightarrow> (invalid_body, w)
    | Some token \<Rightarrow>
      if token = [] then (bad_request ''token is required'', w)
      else case h_tokenMgr h of
        None \<Rightarrow> (internal_error ''token manager not configured'', w)
      | Some m \<Rightarrow>
        answered (\<lambda>res. case res of
            Inl err \<Rightarrow> if err = ErrTokenInvalid then bad_request ''invalid token format''
              else internal_error ''failed to revoke token''
          | Inr _ \<Rightarrow> no_content)
          (Revoke m token now w))"

end
