(* ===== verification/Admin_Server.thy ===== *)
theory Admin_Server
  imports Handlers
begin

text \<open>
  The administration server: the configuration (\<^verbatim>\<open>internal/config\<close>), the middleware
  (\<^verbatim>\<open>internal/middleware\<close>) and the routes (\<^verbatim>\<open>cmd/adminapi/main.go\<close>). A handler of \<^verbatim>\<open>net/http\<close> is a function of the
  request and the state. The paths are clean (\<^verbatim>\<open>ServeMux\<close> redirects others, after the middleware, and calls no
  handler).
\<close>

section \<open>Configuration\<close>

record Config =
  cfg_PostgresDSN :: string
  cfg_RedisURL :: string
  cfg_RabbitMQURL :: string
  cfg_ProxyPort :: int
  cfg_AdminAPIPort :: int
  cfg_AdminToken :: string
  cfg_LogLevel :: string

text \<open>A panic names the variable, and the value that is not an integer.\<close>

datatype config_panic = NotSet string | NotInteger string string

definition requireEnv :: "(string \<Rightarrow> string) \<Rightarrow> string \<Rightarrow> config_panic + string" where
  "requireEnv getenv key = (if getenv key = [] then Inl (NotSet key) else Inr (getenv key))"

definition optionalStr :: "(string \<Rightarrow> string) \<Rightarrow> string \<Rightarrow> string \<Rightarrow> string" where
  "optionalStr getenv key defaultVal = (if getenv key \<noteq> [] then getenv key else defaultVal)"

definition optionalInt :: "(string \<Rightarrow> string) \<Rightarrow> string \<Rightarrow> int \<Rightarrow> config_panic + int" where
  "optionalInt getenv key defaultVal =
    (if getenv key = [] then Inr defaultVal
     else case atoi (getenv key) of None \<Rightarrow> Inl (NotInteger key (getenv key)) | Some n \<Rightarrow> Inr n)"

text \<open>The members are evaluated in the order in which they are written.\<close>

definition and_then :: "'e + 'a \<Rightarrow> ('a \<Rightarrow> 'e + 'b) \<Rightarrow> 'e + 'b" where
  "and_then x f = (case x of Inl err \<Rightarrow> Inl err | Inr v \<Rightarrow> f v)"

definition Load :: "(string \<Rightarrow> string) \<Rightarrow> config_panic + Config" where
  "Load getenv =
    and_then (requireEnv getenv ''POSTGRES_DSN'') (\<lambda>dsn.
    and_then (requireEnv getenv ''REDIS_URL'') (\<lambda>redis.
    and_then (requireEnv getenv ''RABBITMQ_URL'') (\<lambda>rabbitmq.
    and_then (requireEnv getenv ''ADMIN_TOKEN'') (\<lambda>token.
    and_then (optionalInt getenv ''PROXY_PORT'' 8080) (\<lambda>proxy.
    and_then (optionalInt getenv ''ADMINAPI_PORT'' 8081) (\<lambda>adminapi.
    Inr \<lparr>cfg_PostgresDSN = dsn, cfg_RedisURL = redis, cfg_RabbitMQURL = rabbitmq, cfg_ProxyPort = proxy,
      cfg_AdminAPIPort = adminapi, cfg_AdminToken = token, cfg_LogLevel = optionalStr getenv ''LOG_LEVEL'' ''info''\<rparr>))))))"

datatype level = LevelDebug | LevelInfo | LevelWarn | LevelError

definition newLogger :: "string \<Rightarrow> level" where
  "newLogger l = (if l = ''debug'' then LevelDebug else if l = ''warn'' then LevelWarn
    else if l = ''error'' then LevelError else LevelInfo)"

section \<open>Middleware\<close>

type_synonym 's http_handler = "admin_request \<Rightarrow> 's \<Rightarrow> http_reply \<times> 's"

text \<open>\<^verbatim>\<open>r.URL.Path\<close>: the segments, each after a slash.\<close>

definition url_path :: "admin_request \<Rightarrow> string" where
  "url_path r = concat (map (\<lambda>s. CHR ''/'' # s) (ar_segments r))"

definition RequireAdminToken :: "string \<Rightarrow> 's http_handler \<Rightarrow> 's http_handler" where
  "RequireAdminToken token next r s =
    (if url_path r = ''/healthz'' then next r s
     else case cut_prefix (ar_authorization r) ''Bearer '' of
       None \<Rightarrow> (WriteError 401 ErrCodeUnauthorized ''valid admin token required'', s)
     | Some bearer \<Rightarrow>
       if bearer \<noteq> token then (WriteError 401 ErrCodeUnauthorized ''valid admin token required'', s)
       else next r s)"

record log_line =
  log_method :: string
  log_path :: string
  log_status :: nat
  log_latency :: int
  log_request_id :: string

definition GetRequestID :: "admin_request \<Rightarrow> string" where
  "GetRequestID r = ar_context_id r"

text \<open>The log grows at the end; the latency is the environment's.\<close>

definition Logger :: "int \<Rightarrow> 's http_handler \<Rightarrow> (log_line list \<times> 's) http_handler" where
  "Logger ms next r ls =
    (case next r (snd ls) of (rep, s') \<Rightarrow>
      (rep, fst ls @ [\<lparr>log_method = ar_method r, log_path = url_path r, log_status = rep_status rep, log_latency = ms,
         log_request_id = GetRequestID r\<rparr>], s'))"

text \<open>The id is the client's, or a fresh UUID; the header is set before the handler runs.\<close>

definition RequestID :: "string \<Rightarrow> 's http_handler \<Rightarrow> 's http_handler" where
  "RequestID fresh next r s =
    (let rid = (if ar_header_id r = [] then fresh else ar_header_id r) in
     case next (r\<lparr>ar_context_id := rid\<rparr>) s of (rep, s') \<Rightarrow>
       (rep\<lparr>rep_headers := (''X-Request-Id'', rid) # rep_headers rep\<rparr>, s'))"

section \<open>Routes\<close>

datatype endpoint =
    Ep_healthz
  | Ep_ListRoles | Ep_CreateRole | Ep_GetRole | Ep_UpdateRole | Ep_DeleteRole
  | Ep_ListUsers | Ep_CreateUser | Ep_GetUser | Ep_UpdateUserRole | Ep_DeactivateUser
  | Ep_ListServers | Ep_CreateServer | Ep_GetServer | Ep_UpdateServer | Ep_SetServerActive
  | Ep_ListPolicies | Ep_UpsertPolicy | Ep_GetPolicy | Ep_DeletePolicy
  | Ep_IssueToken | Ep_RevokeToken
  | Ep_ListAuditEvents

text \<open>A segment of a pattern is a literal, or (\<open>None\<close>) the wildcard \<^verbatim>\<open>{id}\<close>.\<close>

type_synonym route = "string \<times> string option list \<times> endpoint"

definition api_v1 :: "string option list \<Rightarrow> string option list" where
  "api_v1 rest = Some ''api'' # Some ''v1'' # rest"

definition admin_routes :: "route list" where
  "admin_routes =
    [(''GET'', [Some ''healthz''], Ep_healthz),
     (''GET'', api_v1 [Some ''roles''], Ep_ListRoles),
     (''POST'', api_v1 [Some ''roles''], Ep_CreateRole),
     (''GET'', api_v1 [Some ''roles'', None], Ep_GetRole),
     (''PUT'', api_v1 [Some ''roles'', None], Ep_UpdateRole),
     (''DELETE'', api_v1 [Some ''roles'', None], Ep_DeleteRole),
     (''GET'', api_v1 [Some ''users''], Ep_ListUsers),
     (''POST'', api_v1 [Some ''users''], Ep_CreateUser),
     (''GET'', api_v1 [Some ''users'', None], Ep_GetUser),
     (''PUT'', api_v1 [Some ''users'', None, Some ''role''], Ep_UpdateUserRole),
     (''DELETE'', api_v1 [Some ''users'', None], Ep_DeactivateUser),
     (''GET'', api_v1 [Some ''downstream-servers''], Ep_ListServers),
     (''POST'', api_v1 [Some ''downstream-servers''], Ep_CreateServer),
     (''GET'', api_v1 [Some ''downstream-servers'', None], Ep_GetServer),
     (''PUT'', api_v1 [Some ''downstream-servers'', None], Ep_UpdateServer),
     (''DELETE'', api_v1 [Some ''downstream-servers'', None], Ep_SetServerActive),
     (''GET'', api_v1 [Some ''policies''], Ep_ListPolicies),
     (''POST'', api_v1 [Some ''policies''], Ep_UpsertPolicy),
     (''GET'', api_v1 [Some ''policies'', None], Ep_GetPolicy),
     (''DELETE'', api_v1 [Some ''policies'', None], Ep_DeletePolicy),
     (''POST'', api_v1 [Some ''auth'', Some ''token''], Ep_IssueToken),
     (''DELETE'', api_v1 [Some ''auth'', Some ''token''], Ep_RevokeToken),
     (''GET'', api_v1 [Some ''audit-events''], Ep_ListAuditEvents)]"

text \<open>How \<^verbatim>\<open>ServeMux\<close> matches: segment by segment, a wildcard against a segment that is not empty; a pattern for
  \<^verbatim>\<open>GET\<close> is also one for \<^verbatim>\<open>HEAD\<close>. No two of the patterns match the same request.\<close>

fun match_path :: "string option list \<Rightarrow> string list \<Rightarrow> bool" where
  "match_path [] [] \<longleftrightarrow> True"
| "match_path (Some l # ps) (s # ss) \<longleftrightarrow> l = s \<and> match_path ps ss"
| "match_path (None # ps) (s # ss) \<longleftrightarrow> s \<noteq> [] \<and> match_path ps ss"
| "match_path _ _ \<longleftrightarrow> False"

definition match_method :: "string \<Rightarrow> string \<Rightarrow> bool" where
  "match_method pat m \<longleftrightarrow> pat = m \<or> (pat = ''GET'' \<and> m = ''HEAD'')"

fun path_id :: "string option list \<Rightarrow> string list \<Rightarrow> string" where
  "path_id (None # ps) (s # ss) = s"
| "path_id (Some l # ps) (s # ss) = path_id ps ss"
| "path_id _ _ = []"

definition find_route :: "route list \<Rightarrow> admin_request \<Rightarrow> (endpoint \<times> string) option" where
  "find_route rs r =
    (case find (\<lambda>(m, p, _). match_method m (ar_method r) \<and> match_path p (ar_segments r)) rs of
      None \<Rightarrow> None | Some (m, p, ep) \<Rightarrow> Some (ep, path_id p (ar_segments r)))"

definition http_error :: "nat \<Rightarrow> string \<Rightarrow> (string \<times> string) list \<Rightarrow> http_reply" where
  "http_error status msg headers =
    \<lparr>rep_status = status, rep_headers = headers @ [(''Content-Type'', ''text/plain; charset=utf-8''),
      (''X-Content-Type-Options'', ''nosniff'')], rep_body = msg @ [CHR 0x0A]\<rparr>"

text \<open>The methods that the path has patterns for, sorted.\<close>

definition allowed_methods :: "route list \<Rightarrow> admin_request \<Rightarrow> string list" where
  "allowed_methods rs r =
    filter (\<lambda>m. list_ex (\<lambda>(pm, p, _). match_method pm m \<and> match_path p (ar_segments r)) rs)
      [''DELETE'', ''GET'', ''HEAD'', ''POST'', ''PUT'']"

fun comma_list :: "string list \<Rightarrow> string" where
  "comma_list [] = []"
| "comma_list [x] = x"
| "comma_list (x # y # r) = x @ '', '' @ comma_list (y # r)"

section \<open>The server\<close>

record ('r, 'd) admin_state =
  as_redis :: 'r
  as_store :: 'd

record ('r, 'd) admin_env =
  an_handler :: "('r, 'd) handler"
  an_pgtypes :: pgtypes
  an_random :: "byte list option"
  an_now :: int

definition admin_healthz :: http_reply where
  "admin_healthz = WriteJSON 200 (object_text [(''service'', quote ''adminapi''), (''status'', quote ''ok'')])"

definition on_store :: "('d \<Rightarrow> http_reply \<times> 'd) \<Rightarrow> ('r, 'd) admin_state \<Rightarrow> http_reply \<times> ('r, 'd) admin_state" where
  "on_store f s = map_prod id (\<lambda>d. s\<lparr>as_store := d\<rparr>) (f (as_store s))"

definition on_redis :: "('r \<Rightarrow> http_reply \<times> 'r) \<Rightarrow> ('r, 'd) admin_state \<Rightarrow> http_reply \<times> ('r, 'd) admin_state" where
  "on_redis f s = map_prod id (\<lambda>w. s\<lparr>as_redis := w\<rparr>) (f (as_redis s))"

definition call_endpoint :: "('r, 'd) admin_env \<Rightarrow> endpoint \<Rightarrow> ('r, 'd) admin_state http_handler" where
  "call_endpoint e ep r =
    (let pt = an_pgtypes e; h = an_handler e; q = h_q h in
     case ep of
       Ep_healthz \<Rightarrow> Pair admin_healthz
     | Ep_ListRoles \<Rightarrow> on_store (ListRoles_handler pt q r)
     | Ep_CreateRole \<Rightarrow> on_store (CreateRole_handler pt q r)
     | Ep_GetRole \<Rightarrow> on_store (GetRole_handler pt q r)
     | Ep_UpdateRole \<Rightarrow> on_store (UpdateRole_handler pt q r)
     | Ep_DeleteRole \<Rightarrow> on_store (DeleteRole_handler pt q r)
     | Ep_ListUsers \<Rightarrow> on_store (ListUsers_handler pt q r)
     | Ep_CreateUser \<Rightarrow> on_store (CreateUser_handler pt q r)
     | Ep_GetUser \<Rightarrow> on_store (GetUser_handler pt q r)
     | Ep_UpdateUserRole \<Rightarrow> on_store (UpdateUserRole_handler pt q r)
     | Ep_DeactivateUser \<Rightarrow> on_store (DeactivateUser_handler pt q r)
     | Ep_ListServers \<Rightarrow> on_store (ListDownstreamServers_handler pt q r)
     | Ep_CreateServer \<Rightarrow> on_store (CreateDownstreamServer_handler pt q r)
     | Ep_GetServer \<Rightarrow> on_store (GetDownstreamServer_handler pt q r)
     | Ep_UpdateServer \<Rightarrow> on_store (UpdateDownstreamServer_handler pt q r)
     | Ep_SetServerActive \<Rightarrow> on_store (SetDownstreamServerActive_handler pt q r)
     | Ep_ListPolicies \<Rightarrow> on_store (ListPolicies_handler pt q r)
     | Ep_UpsertPolicy \<Rightarrow> on_store (UpsertPolicy_handler pt q r)
     | Ep_GetPolicy \<Rightarrow> on_store (GetPolicy_handler pt q r)
     | Ep_DeletePolicy \<Rightarrow> on_store (DeletePolicy_handler pt q r)
     | Ep_IssueToken \<Rightarrow> on_redis (IssueToken h (an_random e) (an_now e) r)
     | Ep_RevokeToken \<Rightarrow> on_redis (RevokeToken h (an_now e) r)
     | Ep_ListAuditEvents \<Rightarrow> on_store (ListAuditEvents_handler pt q r))"

definition mux :: "('r, 'd) admin_env \<Rightarrow> ('r, 'd) admin_state http_handler" where
  "mux e r s =
    (case find_route admin_routes r of
      Some (ep, pid) \<Rightarrow> call_endpoint e ep (r\<lparr>ar_id := pid\<rparr>) s
    | None \<Rightarrow>
      (case allowed_methods admin_routes r of
        [] \<Rightarrow> (http_error 404 ''404 page not found'' [], s)
      | ms \<Rightarrow> (http_error 405 ''Method Not Allowed'' [(''Allow'', comma_list ms)], s)))"

text \<open>The chain: request id, logger, token, routes.\<close>

definition admin_serve ::
  "string \<Rightarrow> string \<Rightarrow> int \<Rightarrow> ('r, 'd) admin_env \<Rightarrow> (log_line list \<times> ('r, 'd) admin_state) http_handler" where
  "admin_serve token fresh ms e = RequestID fresh (Logger ms (RequireAdminToken token (mux e)))"

end
