(* ===== verification/Admin_Props.thy ===== *)
theory Admin_Props
  imports Admin_Server Proxy_Demo
begin

text \<open>
  Properties of the administration server: who may use it, what a request can do to the store, what an error reply
  means, what policies it can store, what the audit endpoint returns, and what it does to the proxy.
\<close>

section \<open>Access\<close>

lemma slashes_of_path: "length (filter ((=) CHR ''/'') (url_path r)) \<ge> length (ar_segments r)"
proof -
  have "length (filter ((=) CHR ''/'') (concat (map (\<lambda>s. CHR ''/'' # s) ss))) \<ge> length ss" for ss :: "string list"
    by (induction ss) auto
  then show ?thesis by (simp add: url_path_def)
qed

lemma healthz_segments: "url_path r = ''/healthz'' \<Longrightarrow> ar_segments r = [''healthz'']"
proof -
  assume p: "url_path r = ''/healthz''"
  then have "length (ar_segments r) \<le> 1" using slashes_of_path [of r] by simp
  then show ?thesis
    using p by (cases "ar_segments r") (auto simp: url_path_def)
qed

lemma healthz_route: "ar_segments r = [''healthz''] \<Longrightarrow>
    find_route admin_routes r = (if match_method ''GET'' (ar_method r) then Some (Ep_healthz, []) else None)"
  by (simp add: find_route_def admin_routes_def api_v1_def)

lemma healthz_open: "url_path r = ''/healthz'' \<Longrightarrow> \<exists>rep. mux e r s = (rep, s) \<and> rep_status rep \<in> {200, 405}"
  using healthz_route [OF healthz_segments [of r]] healthz_segments [of r]
  by (auto simp: mux_def call_endpoint_def admin_healthz_def http_error_def allowed_methods_def admin_routes_def
      match_method_def api_v1_def)

lemma admin_serve_eq:
  "admin_serve token fresh ms e r (log, s) =
    (let rid = (if ar_header_id r = [] then fresh else ar_header_id r);
         (rep, s') = RequireAdminToken token (mux e) (r\<lparr>ar_context_id := rid\<rparr>) s
     in (rep\<lparr>rep_headers := (''X-Request-Id'', rid) # rep_headers rep\<rparr>,
         log @ [\<lparr>log_method = ar_method r, log_path = url_path r, log_status = rep_status rep, log_latency = ms,
           log_request_id = rid\<rparr>], s'))"
  by (simp add: admin_serve_def RequestID_def Logger_def Let_def GetRequestID_def url_path_def split: prod.split)

lemma url_path_context [simp]: "url_path (r\<lparr>ar_context_id := x\<rparr>) = url_path r"
  by (simp add: url_path_def)

text \<open>C15: the token guards the administration. A request that does not carry exactly \<^verbatim>\<open>Bearer \<close> and the
  configured token changes nothing and is answered 401, except on the path \<^verbatim>\<open>/healthz\<close>, where it is answered 200 or
  405; whoever asks, the request is logged once, with the status of its reply and the request id that is returned.\<close>

theorem administration_needs_the_token:
  assumes "admin_serve token fresh ms e r (log, s) = (rep, log', s')"
  shows "(ar_authorization r = ''Bearer '' @ token \<or>
      s' = s \<and> (if url_path r = ''/healthz'' then rep_status rep \<in> {200, 405} else rep_status rep = 401)) \<and>
    (\<exists>line. log' = log @ [line] \<and> log_status line = rep_status rep \<and>
      (''X-Request-Id'', log_request_id line) \<in> set (rep_headers rep) \<and>
      log_request_id line = (if ar_header_id r = [] then fresh else ar_header_id r))"
proof -
  let ?rid = "if ar_header_id r = [] then fresh else ar_header_id r"
  let ?r = "r\<lparr>ar_context_id := ?rid\<rparr>"
  obtain rep1 where inner: "RequireAdminToken token (mux e) ?r s = (rep1, s')"
    and rep: "rep = rep1\<lparr>rep_headers := (''X-Request-Id'', ?rid) # rep_headers rep1\<rparr>"
    and log: "log' = log @ [\<lparr>log_method = ar_method r, log_path = url_path r, log_status = rep_status rep1,
      log_latency = ms, log_request_id = ?rid\<rparr>]"
    using assms unfolding admin_serve_eq Let_def by (auto split: prod.splits)
  have "ar_authorization r = ''Bearer '' @ token \<or>
      s' = s \<and> (if url_path r = ''/healthz'' then rep_status rep1 \<in> {200, 405} else rep_status rep1 = 401)"
  proof (cases "url_path r = ''/healthz''")
    case True
    then show ?thesis
      using inner healthz_open [of ?r e s] by (auto simp: RequireAdminToken_def)
  next
    case False
    then show ?thesis
      using inner by (auto simp: RequireAdminToken_def cut_prefix_Some_iff split: option.splits if_splits)
  qed
  then show ?thesis using rep log by auto
qed

section \<open>What a request does to the store\<close>

definition limits_ok :: "tables \<Rightarrow> bool" where
  "limits_ok t \<longleftrightarrow> (\<forall>p \<in> set (t_policies t). 0 < sint (pol_max p))"

text \<open>A query that reports an error has changed nothing.\<close>

definition atomic :: "'a query \<Rightarrow> bool" where
  "atomic q \<longleftrightarrow> (\<forall>e t err t'. q e t = (Inl err, t') \<longrightarrow> t' = t)"

definition link_at :: "pg \<Rightarrow> db \<Rightarrow> link" where
  "link_at pg d = ce_link (pg_env pg (db_calls d))"

text \<open>What holds for the outcome of every handler.\<close>

definition benign :: "pg \<Rightarrow> db \<Rightarrow> http_reply \<times> db \<Rightarrow> bool" where
  "benign pg d x \<longleftrightarrow>
    (db_tables (snd x) = db_tables d \<or> db_step pg d (snd x)) \<and>
    (400 \<le> rep_status (fst x) \<longrightarrow> link_at pg d \<noteq> Lost \<longrightarrow> db_tables (snd x) = db_tables d) \<and>
    (limits_ok (db_tables d) \<longrightarrow> limits_ok (db_tables (snd x))) \<and>
    t_events (db_tables (snd x)) = t_events (db_tables d)"

lemma benign_same [intro]: "benign pg d (rep, d)"
  by (simp add: benign_def)

lemma benign_read: "benign pg d (answered f (exec pg (reading ok g) d))"
  using exec_read [of pg ok g d] by (simp add: benign_def answered_def)

lemma exec_atomic:
  "atomic q \<Longrightarrow> fst (exec pg q d) = Inl err \<Longrightarrow> link_at pg d \<noteq> Lost \<Longrightarrow> db_tables (snd (exec pg q d)) = db_tables d"
  by (auto simp: exec_def Let_def link_at_def atomic_def split: link.splits prod.splits)

lemma benign_write:
  assumes "db_step pg d (snd (exec pg q d))" and "atomic q" and "\<And>v. rep_status (f (Inr v)) < 400"
    and "\<And>e t. limits_ok t \<Longrightarrow> limits_ok (snd (q e t))" and "\<And>e t. t_events (snd (q e t)) = t_events t"
  shows "benign pg d (answered f (exec pg q d))"
proof -
  have "db_tables (snd (exec pg q d)) = db_tables d" if "400 \<le> rep_status (f (fst (exec pg q d)))" "link_at pg d \<noteq> Lost"
  proof (cases "fst (exec pg q d)")
    case (Inl err)
    with exec_atomic [OF assms(2)] that show ?thesis by blast
  next
    case (Inr v)
    with assms(3) [of v] that show ?thesis by simp
  qed
  moreover note exec_tables [of pg q d]
  ultimately show ?thesis
    using assms(1) assms(4) [of "db_tables d"] assms(5) [of _ "db_tables d"]
    by (auto simp: benign_def answered_def)
qed

lemmas statement_defs = CreateRole_def DeleteRole_def UpdateRole_def CreateUser_def SetUserActive_def UpdateUserRole_def
  CreateDownstreamServer_def SetDownstreamServerActive_def UpdateDownstreamServer_def DeletePolicy_def UpsertPolicy_def

lemma atomic_statements: "atomic (CreateRole a1)" "atomic (DeleteRole a2)" "atomic (UpdateRole a3)" "atomic (CreateUser a4)"
  "atomic (SetUserActive a5)" "atomic (UpdateUserRole a6)" "atomic (CreateDownstreamServer pg a7)"
  "atomic (SetDownstreamServerActive a8)" "atomic (UpdateDownstreamServer a9)" "atomic (DeletePolicy a2)"
  "atomic (UpsertPolicy a10)"
  by (auto simp: atomic_def statement_defs Let_def split: if_splits option.splits)

lemma limits_statements: "limits_ok t \<Longrightarrow> limits_ok (snd (CreateRole a1 e t))" "limits_ok t \<Longrightarrow> limits_ok (snd (DeleteRole a2 e t))"
  "limits_ok t \<Longrightarrow> limits_ok (snd (UpdateRole a3 e t))" "limits_ok t \<Longrightarrow> limits_ok (snd (CreateUser a4 e t))"
  "limits_ok t \<Longrightarrow> limits_ok (snd (SetUserActive a5 e t))" "limits_ok t \<Longrightarrow> limits_ok (snd (UpdateUserRole a6 e t))"
  "limits_ok t \<Longrightarrow> limits_ok (snd (CreateDownstreamServer pg a7 e t))"
  "limits_ok t \<Longrightarrow> limits_ok (snd (SetDownstreamServerActive a8 e t))"
  "limits_ok t \<Longrightarrow> limits_ok (snd (UpdateDownstreamServer a9 e t))" "limits_ok t \<Longrightarrow> limits_ok (snd (DeletePolicy a2 e t))"
  by (auto simp: limits_ok_def statement_defs Let_def split: option.split)

lemma limits_upsert: "0 < sint (up_max arg) \<Longrightarrow> limits_ok t \<Longrightarrow> limits_ok (snd (UpsertPolicy arg e t))"
  by (auto simp: limits_ok_def UpsertPolicy_def Let_def set_modify policy_update_def split: option.split)

lemma events_statements: "t_events (snd (CreateRole a1 e t)) = t_events t" "t_events (snd (DeleteRole a2 e t)) = t_events t"
  "t_events (snd (UpdateRole a3 e t)) = t_events t" "t_events (snd (CreateUser a4 e t)) = t_events t"
  "t_events (snd (SetUserActive a5 e t)) = t_events t" "t_events (snd (UpdateUserRole a6 e t)) = t_events t"
  "t_events (snd (CreateDownstreamServer pg a7 e t)) = t_events t"
  "t_events (snd (SetDownstreamServerActive a8 e t)) = t_events t"
  "t_events (snd (UpdateDownstreamServer a9 e t)) = t_events t" "t_events (snd (DeletePolicy a2 e t)) = t_events t"
  "t_events (snd (UpsertPolicy a10 e t)) = t_events t"
  by (simp_all add: statement_defs Let_def split: option.split)

lemmas statement_facts = atomic_statements limits_statements events_statements

lemma reply_below [simp]: "rep_status (row_reply f m e (Inr v)) < 400" "rep_status (created_reply pt f m e (Inr v)) < 400"
  "rep_status (list_reply f m (Inr vs)) < 400"
  by (simp_all add: row_reply_def created_reply_def list_reply_def)

lemma default_limit: "0 < sint (up_max (policy_params rid sid body))"
  by (simp add: policy_params_def)

lemmas handler_defs = ListRoles_handler_def CreateRole_handler_def GetRole_handler_def UpdateRole_handler_def
  DeleteRole_handler_def ListUsers_handler_def CreateUser_handler_def GetUser_handler_def UpdateUserRole_handler_def
  DeactivateUser_handler_def ListDownstreamServers_handler_def CreateDownstreamServer_handler_def
  GetDownstreamServer_handler_def UpdateDownstreamServer_handler_def SetDownstreamServerActive_handler_def
  ListPolicies_handler_def UpsertPolicy_handler_def GetPolicy_handler_def DeletePolicy_handler_def
  ListAuditEvents_handler_def

lemmas reading_queries = ListRoles_def GetRole_def ListActiveUsers_def GetUser_def ListDownstreamServers_def
  GetDownstreamServer_def ListPoliciesByRole_def GetPolicy_def ListAuditEvents_def ListAuditEventsByUser_def
  ListAuditEventsByServer_def ListAuditEventsByOutcome_def

lemma benign_reads: "benign pg d (ListRoles_handler pt (queries pg) r d)" "benign pg d (GetRole_handler pt (queries pg) r d)"
  "benign pg d (ListUsers_handler pt (queries pg) r d)" "benign pg d (GetUser_handler pt (queries pg) r d)"
  "benign pg d (ListDownstreamServers_handler pt (queries pg) r d)"
  "benign pg d (GetDownstreamServer_handler pt (queries pg) r d)" "benign pg d (ListPolicies_handler pt (queries pg) r d)"
  "benign pg d (GetPolicy_handler pt (queries pg) r d)" "benign pg d (ListAuditEvents_handler pt (queries pg) r d)"
  by (auto simp: handler_defs queries_def reading_queries Let_def intro!: benign_read split: sum.split)

lemma benign_writes: "benign pg d (CreateRole_handler pt (queries pg) r d)" "benign pg d (UpdateRole_handler pt (queries pg) r d)"
  "benign pg d (DeleteRole_handler pt (queries pg) r d)" "benign pg d (CreateUser_handler pt (queries pg) r d)"
  "benign pg d (UpdateUserRole_handler pt (queries pg) r d)" "benign pg d (DeactivateUser_handler pt (queries pg) r d)"
  "benign pg d (CreateDownstreamServer_handler pt (queries pg) r d)"
  "benign pg d (UpdateDownstreamServer_handler pt (queries pg) r d)"
  "benign pg d (SetDownstreamServerActive_handler pt (queries pg) r d)" "benign pg d (UpsertPolicy_handler pt (queries pg) r d)"
  "benign pg d (DeletePolicy_handler pt (queries pg) r d)"
  by (auto simp: handler_defs queries_def statement_facts limits_upsert default_limit
      intro!: benign_write db_step.intros split: option.split sum.split)

lemma on_store_benign: "benign pg (as_store s) (f (as_store s)) \<Longrightarrow>
    benign pg (as_store s) (map_prod id as_store (on_store f s)) \<and> as_redis (snd (on_store f s)) = as_redis s"
  by (cases "f (as_store s)") (simp add: on_store_def)

lemma on_redis_benign: "benign pg (as_store s) (map_prod id as_store (on_redis f s))"
  by (cases "f (as_redis s)") (auto simp: on_redis_def)

lemma endpoint_benign:
  assumes "h_q (an_handler e) = queries pg"
  shows "benign pg (as_store s) (map_prod id as_store (call_endpoint e ep r s))"
  using assms
  by (cases ep)
    (auto simp: call_endpoint_def intro!: on_store_benign [THEN conjunct1] benign_reads benign_writes on_redis_benign)

lemma mux_benign:
  assumes "h_q (an_handler e) = queries pg"
  shows "benign pg (as_store s) (map_prod id as_store (mux e r s))"
  using endpoint_benign [OF assms] by (auto simp: mux_def split: option.split list.split)

lemma token_benign:
  assumes "h_q (an_handler e) = queries pg"
  shows "benign pg (as_store s) (map_prod id as_store (RequireAdminToken token (mux e) r s))"
  using mux_benign [OF assms] by (auto simp: RequireAdminToken_def split: option.split)

lemma serve_benign:
  assumes "h_q (an_handler e) = queries pg" and "admin_serve token fresh ms e r (log, s) = (rep, log', s')"
  shows "benign pg (as_store s) (rep, as_store s')"
  using token_benign [OF assms(1), of s token "r\<lparr>ar_context_id := if ar_header_id r = [] then fresh else ar_header_id r\<rparr>"]
    assms(2) unfolding admin_serve_eq Let_def by (auto simp: benign_def split: prod.splits)

text \<open>C25: the administration refines the store. Whatever the request, the tables are as before or one statement
  of the store has run on them, so that the schema stays an invariant; and the audit log is not touched.\<close>

theorem administration_refines_store:
  assumes "h_q (an_handler e) = queries pg" and "admin_serve token fresh ms e r (log, s) = (rep, log', s')"
  shows "(db_tables (as_store s') = db_tables (as_store s) \<or> db_step pg (as_store s) (as_store s')) \<and>
    (tables_ok (db_tables (as_store s)) \<longrightarrow> tables_ok (db_tables (as_store s'))) \<and>
    t_events (db_tables (as_store s')) = t_events (db_tables (as_store s))"
  using serve_benign [OF assms] db_step_ok [of pg "as_store s" "as_store s'"] by (auto simp: benign_def)

text \<open>C26: an error reply means that nothing was changed. When the status of the reply is 400 or more, the tables
  are as they were before the request, unless the connection was lost after the statement had been sent.\<close>

theorem error_replies_change_nothing:
  assumes "h_q (an_handler e) = queries pg" and "admin_serve token fresh ms e r (log, s) = (rep, log', s')"
    and "400 \<le> rep_status rep" and "ce_link (pg_env pg (db_calls (as_store s))) \<noteq> Lost"
  shows "db_tables (as_store s') = db_tables (as_store s)"
  using serve_benign [OF assms(1,2)] assms(3,4) by (auto simp: benign_def link_at_def)

text \<open>C27: no stored policy lets nobody through by its limit. Starting from tables in which the limit of every
  policy is positive, every request leaves such tables: a missing, zero or negative limit was replaced by 30.\<close>

theorem stored_limits_are_positive:
  assumes "h_q (an_handler e) = queries pg" and "admin_serve token fresh ms e r (log, s) = (rep, log', s')"
    and "\<forall>p \<in> set (t_policies (db_tables (as_store s))). 0 < sint (pol_max p)"
  shows "\<forall>p \<in> set (t_policies (db_tables (as_store s'))). 0 < sint (pol_max p)"
  using serve_benign [OF assms(1,2)] assms(3) by (auto simp: benign_def limits_ok_def)

section \<open>Creating\<close>

text \<open>Creating a role. For a body with a name, when the database answers and its driver names unique
  violations as documented: 409 and nothing stored exactly when the name is taken, and otherwise 201, the new role
  as its body, and one new row with the name and the description of the request.\<close>

theorem create_role_status:
  assumes "read_role_body (ar_body r) = Some b" and "rb_Name b \<noteq> []" and "text_ok (rb_Name b)" and "opt_text_ok (rb_Description b)"
    and "pg_env pg (db_calls d) = env" and "ce_link env = Up"
    and "ce_uuid env \<notin> role_id ` set (t_roles (db_tables d))"
    and "\<And>err. isUniqueViolation pt err \<longleftrightarrow> err = UniqueViolation"
    and "CreateRole_handler pt (queries pg) r d = (rep, d')"
  shows "if rb_Name b \<in> role_name ` set (t_roles (db_tables d))
    then rep = WriteError 409 ErrCodeConflict ''role name already exists'' \<and> db_tables d' = db_tables d
    else \<exists>row. role_name row = rb_Name b \<and> role_desc row = rb_Description b \<and> rep = WriteJSON 201 (role_text pt row) \<and>
      db_tables d' = (db_tables d)\<lparr>t_roles := t_roles (db_tables d) @ [row]\<rparr>"
proof -
  let ?arg = "\<lparr>cr_name = rb_Name b, cr_desc = rb_Description b\<rparr>"
  have "(rep, d') = answered (created_reply pt (role_text pt) ''role name already exists'' ''failed to create role'')
      (exec pg (CreateRole ?arg) d)"
    using assms by (simp add: CreateRole_handler_def queries_def)
  moreover have "exec pg (CreateRole ?arg) d =
      (if rb_Name b \<in> role_name ` set (t_roles (db_tables d)) then (Inl UniqueViolation, d\<lparr>db_calls := db_calls d + 1\<rparr>)
       else let row = \<lparr>role_id = ce_uuid env, role_name = rb_Name b, role_desc = rb_Description b, role_created = ce_now env\<rparr>
         in (Inr row, d\<lparr>db_calls := db_calls d + 1,
              db_tables := (db_tables d)\<lparr>t_roles := t_roles (db_tables d) @ [row]\<rparr>\<rparr>))"
    using assms(3-7) by (simp add: exec_def CreateRole_def Let_def bex_disj_distrib bex_key)
  ultimately show ?thesis
    using assms(8) by (cases "rb_Name b \<in> role_name ` set (t_roles (db_tables d))")
      (simp_all add: answered_def created_reply_def Let_def exI [of _ "\<lparr>role_id = ce_uuid env, role_name = rb_Name b,
         role_desc = rb_Description b, role_created = ce_now env\<rparr>"])
qed

section \<open>The audit endpoint\<close>

lemma audit_limit_bound: "sint (audit_limit s) \<le> 200"
  by (simp add: audit_limit_def Let_def)

lemma page_rows: "page lim off rows = Inr out \<Longrightarrow> length out \<le> nat (sint lim) \<and> out = take (nat (sint lim)) (drop (nat (sint off)) rows)"
  by (auto simp: page_def split: if_splits)

lemma recent_sorted: "sorted_wrt (\<lambda>a b. ae_at b \<le> ae_at a) (recent rows)"
proof -
  have "sorted (map (\<lambda>a. - ae_at a) (recent rows))" by (simp add: recent_def)
  then show ?thesis by (simp add: sorted_map)
qed

lemma recent_page:
  assumes "page lim off (recent rows) = Inr out" and "sint lim \<le> 200"
  shows "length out \<le> 200 \<and> set out \<subseteq> set rows \<and> sorted_wrt (\<lambda>a b. ae_at b \<le> ae_at a) out"
proof -
  from page_rows [OF assms(1)] have out: "length out \<le> nat (sint lim)" "out = take (nat (sint lim)) (drop (nat (sint off)) (recent rows))"
    by blast+
  have "set out \<subseteq> set rows" unfolding out(2)
    by (metis in_set_dropD in_set_takeD recent_def set_sort subsetI)
  moreover have "sorted_wrt (\<lambda>a b. ae_at b \<le> ae_at a) out" unfolding out(2)
    by (intro sorted_wrt_take sorted_wrt_drop recent_sorted)
  ultimately show ?thesis using out(1) assms(2) by linarith
qed

lemma exec_reading_rows:
  "exec pg (reading ok f) d = (Inr rows, d') \<Longrightarrow> f (db_tables d) = Inr rows"
  by (auto simp: exec_def reading_def Let_def split: link.splits if_splits)

lemma list_reply_ok: "answered (list_reply f m) x = (rep, d') \<Longrightarrow> rep_status rep = 200 \<Longrightarrow>
    \<exists>rows. x = (Inr rows, d') \<and> rep = WriteJSON 200 (array_text (map f rows))"
  by (cases x) (auto simp: answered_def list_reply_def internal_error_def split: sum.splits)

text \<open>The rows that a request may see, by its filters.\<close>

definition filtered :: "pgtypes \<Rightarrow> admin_request \<Rightarrow> AuditEvent \<Rightarrow> bool" where
  "filtered pt r a \<longleftrightarrow>
    (if ar_query r ''user_id'' \<noteq> [] then pt_scan pt (ar_query r ''user_id'') = Some (ae_user a)
     else if ar_query r ''downstream_server_id'' \<noteq> [] then
       pt_scan pt (ar_query r ''downstream_server_id'') = Some (ae_server a)
     else if ar_query r ''outcome'' \<noteq> [] then ar_query r ''outcome'' = ae_outcome a
     else True)"

lemma parseUUID_Inr: "parseUUID pt s = Inr u \<longleftrightarrow> pt_scan pt s = Some u"
  by (simp add: parseUUID_def split: option.split)

lemma parseUUID_Inl: "parseUUID pt s = Inl rep \<Longrightarrow> rep_status rep = 400"
  by (auto simp: parseUUID_def split: option.splits)

text \<open>Every list query of the log is a page of the rows with some property.\<close>

lemma audit_answer:
  assumes "answered (list_reply f m) (exec pg (reading ok (\<lambda>t. page lim off (recent (filter P (t_events t))))) d) = (rep, d')"
    and "rep_status rep = 200" and "sint lim \<le> 200" and "\<And>a. P a \<Longrightarrow> Q a"
  shows "\<exists>rows. rep = WriteJSON 200 (array_text (map f rows)) \<and> length rows \<le> 200 \<and>
    (\<forall>a \<in> set rows. a \<in> set (t_events (db_tables d)) \<and> Q a) \<and> sorted_wrt (\<lambda>a b. ae_at b \<le> ae_at a) rows"
proof -
  obtain rows where "exec pg (reading ok (\<lambda>t. page lim off (recent (filter P (t_events t))))) d = (Inr rows, d')"
    and rep: "rep = WriteJSON 200 (array_text (map f rows))"
    using list_reply_ok [OF assms(1,2)] by blast
  then have "page lim off (recent (filter P (t_events (db_tables d)))) = Inr rows"
    using exec_reading_rows by fastforce
  from recent_page [OF this assms(3)] have "length rows \<le> 200" "set rows \<subseteq> set (filter P (t_events (db_tables d)))"
    "sorted_wrt (\<lambda>a b. ae_at b \<le> ae_at a) rows" by blast+
  with rep assms(4) show ?thesis by (intro exI [of _ rows]) auto
qed

lemma audit_branches:
  fixes pt pg r d
  defines "run \<equiv> \<lambda>ok P. answered (list_reply (audit_text pt) ''failed to list audit events'')
    (exec pg (reading ok (\<lambda>t. page (audit_limit (ar_query r ''limit'')) (audit_offset (ar_query r ''offset''))
      (recent (filter P (t_events t))))) d)"
  assumes "ListAuditEvents_handler pt (queries pg) r d = (rep, d')" and "rep_status rep = 200"
  obtains (user) u where "ar_query r ''user_id'' \<noteq> []" "pt_scan pt (ar_query r ''user_id'') = Some u"
      "run True (\<lambda>a. ae_user a = u) = (rep, d')"
    | (server) sid where "ar_query r ''user_id'' = []" "ar_query r ''downstream_server_id'' \<noteq> []"
      "pt_scan pt (ar_query r ''downstream_server_id'') = Some sid" "run True (\<lambda>a. ae_server a = sid) = (rep, d')"
    | (outcome) "ar_query r ''user_id'' = []" "ar_query r ''downstream_server_id'' = []" "ar_query r ''outcome'' \<noteq> []"
      "run (text_ok (ar_query r ''outcome'')) (\<lambda>a. ae_outcome a = ar_query r ''outcome'') = (rep, d')"
    | (none) "ar_query r ''user_id'' = []" "ar_query r ''downstream_server_id'' = []" "ar_query r ''outcome'' = []"
      "run True (\<lambda>_. True) = (rep, d')"
proof -
  note q = queries_def querier.simps ListAuditEvents_def ListAuditEventsByUser_def ListAuditEventsByServer_def
    ListAuditEventsByOutcome_def
  note h = assms(2) [unfolded ListAuditEvents_handler_def Let_def]
  consider "ar_query r ''user_id'' \<noteq> []" | "ar_query r ''user_id'' = []" "ar_query r ''downstream_server_id'' \<noteq> []"
    | "ar_query r ''user_id'' = []" "ar_query r ''downstream_server_id'' = []" "ar_query r ''outcome'' \<noteq> []"
    | "ar_query r ''user_id'' = []" "ar_query r ''downstream_server_id'' = []" "ar_query r ''outcome'' = []"
    by blast
  then show ?thesis
  proof cases
    case 1
    then show ?thesis
      using h assms(3) parseUUID_Inl [of pt "ar_query r ''user_id''"]
      by (cases "parseUUID pt (ar_query r ''user_id'')") (auto simp: q run_def parseUUID_Inr intro!: user)
  next
    case 2
    then show ?thesis
      using h assms(3) parseUUID_Inl [of pt "ar_query r ''downstream_server_id''"]
      by (cases "parseUUID pt (ar_query r ''downstream_server_id'')") (auto simp: q run_def parseUUID_Inr intro!: server)
  next
    case 3
    then show ?thesis
      using h assms(3) by (auto simp: q run_def bad_request_def intro!: outcome split: if_splits)
  next
    case 4
    then show ?thesis using h none by (simp add: q run_def)
  qed
qed

text \<open>C37: the audit endpoint is bounded and ordered. Whatever limit and offset are asked for, a reply with status
  200 lists at most 200 rows of the log, newest first, and all of them satisfy the filter of the request (the user, else the server,
  else the outcome).\<close>

theorem audit_endpoint_is_bounded:
  assumes "ListAuditEvents_handler pt (queries pg) r d = (rep, d')" and "rep_status rep = 200"
  shows "\<exists>rows. rep = WriteJSON 200 (array_text (map (audit_text pt) rows)) \<and> length rows \<le> 200 \<and>
    (\<forall>a \<in> set rows. a \<in> set (t_events (db_tables d)) \<and> filtered pt r a) \<and>
    sorted_wrt (\<lambda>a b. ae_at b \<le> ae_at a) rows"
proof -
  from assms show ?thesis
  proof (cases rule: audit_branches)
    case user
    show ?thesis
      by (rule audit_answer [OF user(3) assms(2) audit_limit_bound]) (use user in \<open>simp add: filtered_def\<close>)
  next
    case server
    show ?thesis
      by (rule audit_answer [OF server(4) assms(2) audit_limit_bound]) (use server in \<open>simp add: filtered_def\<close>)
  next
    case outcome
    show ?thesis
      by (rule audit_answer [OF outcome(4) assms(2) audit_limit_bound]) (use outcome in \<open>simp add: filtered_def\<close>)
  next
    case none
    show ?thesis
      by (rule audit_answer [OF none(4) assms(2) audit_limit_bound]) (use none in \<open>simp add: filtered_def\<close>)
  qed
qed

section \<open>From the administration to the proxy\<close>

lemma row_reply_ok: "answered (row_reply f m n) x = (rep, d') \<Longrightarrow> rep_status rep = 200 \<Longrightarrow> \<exists>row. x = (Inr row, d')"
  by (cases x) (auto simp: answered_def row_reply_def internal_error_def split: sum.splits if_splits)

lemma SetUserActive_rows:
  "exec pg (SetUserActive arg) d = (Inr row, d') \<Longrightarrow>
    t_users (db_tables d') = modify (\<lambda>u. user_id u = sua_id arg) (\<lambda>u. u\<lparr>user_active := sua_active arg\<rparr>) (t_users (db_tables d))"
  by (auto simp: exec_def SetUserActive_def Let_def split: link.splits option.splits)

lemma deactivated_rows:
  assumes "DeactivateUser_handler pt (queries pg) r d = (rep, d')" and "rep_status rep = 200"
    and "pt_scan pt (ar_id r) = Some uid" and "u \<in> set (t_users (db_tables d'))" and "user_id u = uid"
  shows "\<not> user_active u"
proof -
  have "answered (row_reply (user_text pt) ''user not found'' ''failed to deactivate user'')
      (exec pg (SetUserActive \<lparr>sua_id = uid, sua_active = False\<rparr>) d) = (rep, d')"
    using assms(1,3) by (simp add: DeactivateUser_handler_def parseUUID_def queries_def)
  from row_reply_ok [OF this assms(2)]
  obtain row where "exec pg (SetUserActive \<lparr>sua_id = uid, sua_active = False\<rparr>) d = (Inr row, d')" by blast
  from SetUserActive_rows [OF this]
  have "t_users (db_tables d') = modify (\<lambda>u. user_id u = uid) (\<lambda>u. u\<lparr>user_active := False\<rparr>) (t_users (db_tables d))"
    by simp
  with assms(4) have "u \<in> (\<lambda>v. if user_id v = uid then v\<lparr>user_active := False\<rparr> else v) ` set (t_users (db_tables d))"
    by (simp only: set_modify)
  then obtain v where "u = (if user_id v = uid then v\<lparr>user_active := False\<rparr> else v)" by blast
  with assms(5) show ?thesis by (cases "user_id v = uid") simp_all
qed

lemma GetUser_found: "exec pg (GetUser uid) d = (Inr u, d') \<Longrightarrow>
    u \<in> set (t_users (db_tables d)) \<and> user_id u = uid"
  by (auto simp: exec_def GetUser_def reading_def Let_def dest: one_Inr split: link.splits)

text \<open>C16: deactivating a user locks the user out of the proxy. Once the administration has answered 200 to
  the deactivation, and while the tables stay as they are, no request with a token of that user gets past the authentication:
  nothing is sent to a server, nothing is published, no quota is used, and nothing is cached.\<close>

theorem deactivated_user_is_locked_out:
  assumes "DeactivateUser_handler pt (queries pg) r d = (rep, d')" and "rep_status rep = 200"
    and "pt_scan pt (ar_id r) = Some uid"
    and "gw_queries g = queries pg'" and "db_tables (w_store w) = db_tables d'"
    and "\<And>tok u. in_authorization inp = ''Bearer '' @ tok \<Longrightarrow>
      Validate (gw_tokens g) tok (mo_token mo) (w_redis w) = Inr u \<Longrightarrow> gw_scan g u = Some uid"
  shows "\<exists>out calls. proxy_handler g mo inp w = (out, w\<lparr>w_store := calls\<rparr>) \<and> db_tables calls = db_tables d'"
proof (cases "decode dec_request zero_Request (in_body inp)")
  case None
  then have "proxy_handler g mo inp w = (writeRPCError [] [] CodeParseError ''parse error'', w\<lparr>w_store := w_store w\<rparr>)"
    by (simp add: proxy_handler_def)
  with assms(5) show ?thesis by blast
next
  case (Some req)
  have "\<exists>err s. authenticate g mo (in_authorization inp) (w_redis w) (w_store w) = (Inl err, s) \<and> db_tables s = db_tables d'"
  proof (cases "extractBearer (in_authorization inp)")
    case None
    then show ?thesis using assms(5) by (simp add: authenticate_def)
  next
    case tok: (Some tok)
    show ?thesis
    proof (cases "Validate (gw_tokens g) tok (mo_token mo) (w_redis w)")
      case (Inl err)
      then show ?thesis using tok assms(5) by (simp add: authenticate_def)
    next
      case (Inr u)
      have scan: "gw_scan g u = Some uid"
        using assms(6) [OF _ Inr] tok
        by (auto simp: extractBearer_def cut_prefix_Some_iff split: option.splits if_splits)
      obtain res s where run: "exec pg' (GetUser uid) (w_store w) = (res, s)" by fastforce
      have same: "db_tables s = db_tables d'"
        using exec_read [of pg' True "\<lambda>t. one (\<lambda>u. user_id u = uid) (t_users t)" "w_store w"] run assms(5)
        by (simp add: GetUser_def)
      have "\<not> user_active row" if "res = Inr row" for row
        using GetUser_found [of pg' uid "w_store w" row s] run that assms(5) deactivated_rows [OF assms(1-3)] by simp
      then show ?thesis
        using tok Inr scan run same assms(4)
        by (cases res) (simp_all add: authenticate_def queries_def)
    qed
  qed
  then obtain ec msg s where "authenticate g mo (in_authorization inp) (w_redis w) (w_store w) = (Inl (ec, msg), s)"
    "db_tables s = db_tables d'" by fastforce
  then show ?thesis using Some by (auto simp: proxy_handler_def)
qed

end
