(* ===== verification/Admin_Demo.thy ===== *)
theory Admin_Demo
  imports Admin_Props
begin

text \<open>A concrete administration server and concrete requests: the witnesses of its properties.\<close>

definition demo_pgtypes :: pgtypes where
  "demo_pgtypes = \<lparr>pt_scan = ref_scan, pt_uuid = \<lambda>u. quote (format_uuid u), pt_time = dec_int,
    pt_error = \<lambda>err. if err = UniqueViolation then ''duplicate key'' else ''x''\<rparr>"

lemma demo_driver: "isUniqueViolation demo_pgtypes err \<longleftrightarrow> err = UniqueViolation"
proof -
  have "containsAny ''duplicate key'' [''23505'', ''unique constraint'', ''duplicate key'']" by code_simp
  moreover have "\<not> containsAny ''x'' [''23505'', ''unique constraint'', ''duplicate key'']" by code_simp
  ultimately show ?thesis by (simp add: isUniqueViolation_def demo_pgtypes_def)
qed

definition demo_admin :: "(keyspace, db) admin_env" where
  "demo_admin = \<lparr>an_handler = New_handler (queries demo_pg) [Some (NewTokenManager mem_redis 0)],
    an_pgtypes = demo_pgtypes, an_random = Some (replicate 32 7), an_now = 0\<rparr>"

lemma demo_admin_queries: "h_q (an_handler demo_admin) = queries demo_pg"
  by (simp add: demo_admin_def New_handler_def)

definition demo_state :: "(keyspace, db) admin_state" where
  "demo_state = \<lparr>as_redis = demo_keyspace, as_store = demo_db True\<rparr>"

text \<open>A request of a stranger.\<close>

definition stranger :: admin_request where
  "stranger = \<lparr>ar_method = ''GET'', ar_segments = [''api'', ''v1'', ''roles''], ar_query = \<lambda>_. [], ar_id = [],
    ar_authorization = ''Bearer guess'', ar_header_id = [], ar_context_id = [], ar_body = []\<rparr>"

lemma stranger_refused: "RequireAdminToken ''secret'' next_handler (stranger\<lparr>ar_context_id := i\<rparr>) s =
    (WriteError 401 ErrCodeUnauthorized ''valid admin token required'', s)"
  by (simp add: RequireAdminToken_def stranger_def url_path_def cut_prefix_def)

lemma stranger_reply: "rep_status (fst (admin_serve ''secret'' ''r1'' 3 demo_admin stranger ([], demo_state))) = 401"
  unfolding admin_serve_eq Let_def by (simp add: stranger_refused)

definition stranger_answer where
  "stranger_answer = admin_serve ''secret'' ''r1'' 3 demo_admin stranger ([], demo_state)"

lemma stranger_run: "admin_serve ''secret'' ''r1'' 3 demo_admin stranger ([], demo_state) =
    (fst stranger_answer, fst (snd stranger_answer), snd (snd stranger_answer))"
  by (simp add: stranger_answer_def)

theorem administration_needs_the_token_witness:
  "snd (snd stranger_answer) = demo_state \<and> (\<exists>line. fst (snd stranger_answer) = [line] \<and> log_request_id line = ''r1'')"
  using administration_needs_the_token [OF stranger_run] by (auto simp: stranger_def)

theorem administration_refines_store_witness:
  "t_events (db_tables (as_store (snd (snd stranger_answer)))) = []"
  using administration_refines_store [OF demo_admin_queries stranger_run] by (simp add: demo_state_def demo_db_def)

theorem error_replies_change_nothing_witness:
  "db_tables (as_store (snd (snd stranger_answer))) = db_tables (demo_db True)"
proof -
  have "400 \<le> rep_status (fst stranger_answer)" using stranger_reply by (simp add: stranger_answer_def)
  then show ?thesis
    using error_replies_change_nothing [OF demo_admin_queries stranger_run] by (simp add: demo_state_def demo_pg_def)
qed

lemma stranger_state: "snd (snd stranger_answer) = demo_state"
  unfolding stranger_answer_def admin_serve_eq Let_def by (simp add: stranger_refused)

theorem stored_limits_are_positive_witness:
  "demo_policy True \<in> set (t_policies (db_tables (as_store (snd (snd stranger_answer))))) \<and>
    0 < sint (pol_max (demo_policy True))"
proof -
  have start: "\<forall>p \<in> set (t_policies (db_tables (as_store demo_state))). 0 < sint (pol_max p)"
    by (simp add: demo_state_def demo_db_def demo_policy_def)
  have "demo_policy True \<in> set (t_policies (db_tables (as_store (snd (snd stranger_answer)))))"
    unfolding stranger_state by (simp add: demo_state_def demo_db_def)
  then show ?thesis using stored_limits_are_positive [OF demo_admin_queries stranger_run start] by blast
qed

text \<open>Creating a role.\<close>

definition demo_role_members :: "(string \<times> json) list" where
  "demo_role_members = [(''name'', JStr ''ops'')]"

definition demo_new_role :: admin_request where
  "demo_new_role = stranger\<lparr>ar_method := ''POST'', ar_body := object_text (printed demo_role_members)\<rparr>"

lemma demo_role_texts: "utf8_ok ''name''" "utf8_ok ''ops''"
  by (simp_all add: utf8_len_def)

lemma demo_role_members_ok: "e \<in> set demo_role_members \<Longrightarrow> member_ok e"
  using demo_role_texts by (auto simp: demo_role_members_def member_ok_def simp del: utf8_ok.simps)

definition demo_role_body :: role_body where
  "demo_role_body = \<lparr>rb_Name = ''ops'', rb_Description = None\<rparr>"

lemma demo_role_read: "read_role_body (ar_body demo_new_role) = Some demo_role_body"
proof -
  have "read_role_body (ar_body demo_new_role) =
      set_fields role_body_field (printed demo_role_members) \<lparr>rb_Name = [], rb_Description = None\<rparr>"
    unfolding read_role_body_def demo_new_role_def
    by (simp add: decode_object [OF demo_role_members_ok] dec_struct_object [OF demo_role_members_ok])
  then show ?thesis
    using demo_role_texts
    by (simp add: demo_role_members_def demo_role_body_def set_fields_Cons folded_request_keys role_body_field_def
        del: fold_name.simps utf8_ok.simps)
qed

definition demo_created where
  "demo_created = CreateRole_handler demo_pgtypes (queries demo_pg) demo_new_role (demo_db True)"

lemma demo_created_run: "CreateRole_handler demo_pgtypes (queries demo_pg) demo_new_role (demo_db True) =
    (fst demo_created, snd demo_created)"
  by (simp add: demo_created_def)

lemma demo_role_facts: "rb_Name demo_role_body = ''ops''" "rb_Name demo_role_body \<noteq> []" "text_ok (rb_Name demo_role_body)"
  "opt_text_ok (rb_Description demo_role_body)"
  by (simp_all add: demo_role_body_def text_ok_def opt_text_ok_def utf8_len_def)

lemma demo_fresh_role: "ce_link (pg_env demo_pg (db_calls (demo_db True))) = Up"
  "ce_uuid (pg_env demo_pg (db_calls (demo_db True))) \<notin> role_id ` set (t_roles (db_tables (demo_db True)))"
  "''ops'' \<notin> role_name ` set (t_roles (db_tables (demo_db True)))"
  by (simp_all add: demo_pg_def demo_db_def id1_def)

theorem create_role_status_witness:
  "\<exists>row. role_name row = ''ops'' \<and> fst demo_created = WriteJSON 201 (role_text demo_pgtypes row)"
  using create_role_status [OF demo_role_read demo_role_facts(2-4) refl demo_fresh_role(1,2) demo_driver demo_created_run]
    demo_fresh_role(3) unfolding demo_role_facts(1) by (simp only: if_False) blast

text \<open>Reading the audit log.\<close>

lemma demo_listing: "ListAuditEvents_handler demo_pgtypes (queries demo_pg) stranger (demo_db True) =
    (WriteJSON 200 (array_text []), (demo_db True)\<lparr>db_calls := 1\<rparr>)"
  by (simp add: ListAuditEvents_handler_def stranger_def queries_def exec_def demo_pg_def ListAuditEvents_def reading_def
      page_def audit_limit_def audit_offset_def parseIntParam_def demo_db_def recent_def answered_def list_reply_def Let_def)

theorem audit_endpoint_is_bounded_witness:
  "\<exists>rows. WriteJSON 200 (array_text []) = WriteJSON 200 (array_text (map (audit_text demo_pgtypes) rows)) \<and>
    (\<forall>a \<in> set rows. a \<in> set (t_events (db_tables (demo_db True))))"
  using audit_endpoint_is_bounded [OF demo_listing] by auto

text \<open>Deactivating the user of the concrete gateway.\<close>

definition demo_deactivate :: admin_request where
  "demo_deactivate = stranger\<lparr>ar_method := ''DELETE'', ar_id := format_uuid id3\<rparr>"

definition demo_deactivated where
  "demo_deactivated = DeactivateUser_handler demo_pgtypes (queries demo_pg) demo_deactivate (demo_db True)"

lemma demo_deactivated_ok: "rep_status (fst demo_deactivated) = 200"
  by (simp add: demo_deactivated_def DeactivateUser_handler_def demo_deactivate_def parseUUID_def demo_pgtypes_def ref_scan_ids
      queries_def exec_def demo_pg_def SetUserActive_def demo_db_def answered_def row_reply_def)

theorem deactivated_user_is_locked_out_witness:
  "\<exists>out calls. proxy_handler demo_gateway demo_moment demo_in ((demo_world True)\<lparr>w_store := snd demo_deactivated\<rparr>) =
    (out, ((demo_world True)\<lparr>w_store := snd demo_deactivated\<rparr>)\<lparr>w_store := calls\<rparr>)"
proof -
  let ?w = "(demo_world True)\<lparr>w_store := snd demo_deactivated\<rparr>"
  have run: "DeactivateUser_handler demo_pgtypes (queries demo_pg) demo_deactivate (demo_db True) =
      (fst demo_deactivated, snd demo_deactivated)"
    by (simp add: demo_deactivated_def)
  have scan: "pt_scan demo_pgtypes (ar_id demo_deactivate) = Some id3"
    by (simp add: demo_pgtypes_def demo_deactivate_def ref_scan_ids)
  have q: "gw_queries demo_gateway = queries demo_pg" by (simp add: demo_gateway_def)
  have tables: "db_tables (w_store ?w) = db_tables (snd demo_deactivated)" by simp
  have tokens: "gw_scan demo_gateway u = Some id3"
    if "in_authorization demo_in = ''Bearer '' @ tok" "Validate (gw_tokens demo_gateway) tok (mo_token demo_moment) (w_redis ?w) = Inr u"
    for tok u
  proof -
    have "tok = demo_token" using that(1) by (simp add: demo_in_def)
    then have "u = format_uuid id3"
      using that(2) by (simp add: Validate_user demo_gateway_def NewTokenManager_def mem_redis_def demo_world_def
          demo_keyspace_def ks_view_def demo_moment_def seconds_def split: if_splits)
    then show ?thesis by (simp add: demo_gateway_def ref_scan_ids)
  qed
  have "\<exists>out calls. proxy_handler demo_gateway demo_moment demo_in ?w = (out, ?w\<lparr>w_store := calls\<rparr>) \<and>
      db_tables calls = db_tables (snd demo_deactivated)"
    by (rule deactivated_user_is_locked_out [OF run demo_deactivated_ok scan q tables]) (erule (1) tokens)
  then show ?thesis by blast
qed

end
