(* ===== verification/Tool_Results.thy ===== *)
theory Tool_Results
  imports Message_Types
begin

text \<open>
  Tool results, printed and read again (\<open>tool_result_read\<close>), also from inside another message
  (\<open>tool_result_compact\<close>). What \<^verbatim>\<open>Marshal\<close> prints is well-formed UTF-8 (\<open>utf8_ok_print\<close>).
\<close>

section \<open>Printed documents are UTF-8\<close>

lemma utf8_ok_append: "utf8_ok p \<Longrightarrow> utf8_ok (p @ t) = utf8_ok t"
proof (induction p rule: utf8_ok.induct)
  case (2 c r)
  let ?n = "utf8_len (c # r)"
  have n: "?n \<noteq> 0" using 2 by simp
  have "(c # r) @ t = take ?n (c # r) @ (drop ?n (c # r) @ t)" by simp
  then have "utf8_ok ((c # r) @ t) = utf8_ok (drop ?n (c # r) @ t)"
    using utf8_ok_chunk [OF utf8_chunk_take [OF n]] by metis
  also have "drop ?n (c # r) = drop (?n - 1) r" using n by (cases ?n) simp_all
  finally show ?case using 2 by simp
qed simp

lemma utf8_ok_ascii: "list_all (\<lambda>c. code c < 128) p \<Longrightarrow> utf8_ok p"
  by (induction p) (auto simp: utf8_len_ascii)

lemma escape_ascii_utf8: "code c < 128 \<Longrightarrow> utf8_ok (escape_ascii c)"
proof (rule utf8_ok_ascii)
  assume c: "code c < 128"
  have "code x < 128" if "x \<in> hex_chars" for x using that by (auto simp: hex_chars_def)
  then have "list_all (\<lambda>c. code c < 128) (low_hex n)" for n using hex_digit_in by (simp add: low_hex_def)
  with c show "list_all (\<lambda>c. code c < 128) (escape_ascii c)" by (auto simp: escape_ascii_def)
qed

lemma utf8_ok_escape: "utf8_ok (escape s)"
proof (induction s rule: escape.induct)
  case (2 c r)
  show ?case
  proof (cases "code c < 128")
    case True
    then show ?thesis using 2 by (simp add: utf8_ok_append escape_ascii_utf8 del: utf8_ok.simps)
  next
    case big: False
    have u: "utf8_ok ((BSL # ''ufffd'') @ x) = utf8_ok x" "utf8_ok ((BSL # ''u2028'') @ x) = utf8_ok x"
      "utf8_ok ((BSL # ''u2029'') @ x) = utf8_ok x" for x
      by (rule utf8_ok_append, rule utf8_ok_ascii, simp)+
    show ?thesis
    proof (cases "utf8_len (c # r)")
      case 0
      then show ?thesis using big 2 u by simp
    next
      case (Suc k)
      have "utf8_chunk (c # take k r)" using utf8_chunk_take [of "c # r"] Suc by simp
      from utf8_ok_chunk [OF this] show ?thesis using big 2 u Suc by (auto simp del: utf8_ok.simps)
    qed
  qed
qed simp

lemma utf8_ok_quote: "utf8_ok (quote s)"
  using utf8_ok_append [of "[DQ]" "escape s @ [DQ]"] utf8_ok_append [OF utf8_ok_escape, of s "[DQ]"]
  by (simp add: quote_def utf8_len_ascii)

lemma utf8_ok_Cons: "code c < 128 \<Longrightarrow> utf8_ok (c # s) = utf8_ok s"
  by (simp add: utf8_len_ascii)

lemma utf8_ok_commas: "(\<And>x. x \<in> set xs \<Longrightarrow> utf8_ok x) \<Longrightarrow> utf8_ok (commas xs)"
  by (induction xs rule: commas.induct) (auto simp: utf8_ok_append utf8_ok_Cons simp del: utf8_ok.simps(2))

lemma utf8_ok_print: "json_ok f d v \<Longrightarrow> utf8_ok (json_print v)"
proof (induction v arbitrary: d)
  case (JNum t)
  then have "list_all number_char t" using number_chars by simp
  then have "list_all (\<lambda>c. code c < 128) t"
    by (rule list.pred_mono_strong) (auto simp: number_char_def is_digit_def)
  then show ?case by (simp add: utf8_ok_ascii)
next
  case (JStr s)
  then show ?case by (simp add: utf8_ok_quote)
next
  case (JArr vs)
  then have "utf8_ok (commas (map json_print vs))" by (intro utf8_ok_commas) auto
  then show ?case by (simp add: utf8_ok_append utf8_ok_Cons del: utf8_ok.simps(2))
next
  case (JObj kvs)
  have "utf8_ok (print_member e)" if "e \<in> set kvs" for e
  proof (cases e)
    case (Pair k v)
    then have "utf8_ok (json_print v)" using JObj.prems that by (intro JObj.IH [OF that, of v "d - 1"]) auto
    then show ?thesis using Pair by (simp add: utf8_ok_append utf8_ok_quote utf8_ok_Cons del: utf8_ok.simps(2))
  qed
  then have "utf8_ok (commas (map print_member kvs))" by (intro utf8_ok_commas) auto
  then show ?case by (simp add: utf8_ok_append utf8_ok_Cons del: utf8_ok.simps(2))
qed (simp_all add: utf8_len_ascii)

section \<open>Tool results\<close>

definition compact_text :: "string \<Rightarrow> bool" where
  "compact_text x \<longleftrightarrow> (\<forall>r. compact False (x @ r) = x @ compact False r)"

lemma compact_text_quote: "compact_text (quote s)"
  by (simp add: compact_text_def compact_quote)

lemma compact_text_commas: "(\<And>x. x \<in> set xs \<Longrightarrow> compact_text x) \<Longrightarrow> compact False (commas xs @ r) = commas xs @ compact False r"
  by (rule compact_commas) (simp add: compact_text_def)

lemma compact_text_object:
  assumes "\<forall>m \<in> set ms. compact_text (snd m)"
  shows "compact_text (object_text ms)"
proof -
  have "compact_text (member_text m)" if "m \<in> set ms" for m
    using assms that compact_quote by (cases m) (auto simp: compact_text_def is_ws_def)
  then have "compact False (commas (map member_text ms) @ r) = commas (map member_text ms) @ compact False r" for r
    by (intro compact_text_commas) auto
  then show ?thesis by (simp add: compact_text_def object_text_def is_ws_def)
qed

lemma compact_text_array:
  assumes "\<forall>x \<in> set xs. compact_text x"
  shows "compact_text (array_text xs)"
  using compact_text_commas [of xs] assms by (simp add: compact_text_def array_text_def is_ws_def)

lemma compact_text_bool: "compact_text (bool_text b)"
  using compact_keywords by (simp add: compact_text_def bool_text_def)

lemma compact_text_raw: "compact_text x \<Longrightarrow> x \<noteq> [] \<Longrightarrow> raw_text x = x"
  using spec [of "\<lambda>r. compact False (x @ r) = x @ compact False r" "[]"] by (simp add: compact_text_def raw_text_def)

lemma tool_result_compact: "raw_text (tool_result_text x) = tool_result_text x"
proof (rule compact_text_raw)
  have "compact_text (item_text_json i)" for i
    unfolding item_text_json_def by (rule compact_text_object) (auto simp: compact_text_quote optional_def)
  then have "compact_text (slice_text item_text_json (tool_Content x))"
    using compact_keywords(3) compact_text_array by (auto simp: slice_text_def compact_text_def [of "''null''"] split: option.split)
  then show "compact_text (tool_result_text x)"
    unfolding tool_result_text_def by (intro compact_text_object) (auto simp: compact_text_bool optional_def)
qed (simp add: tool_result_text_def object_text_def)

lemma result_folds:
  "fold_name ''type'' = ''TYPE''" "fold_name ''text'' = ''TEXT''" "fold_name ''content'' = ''CONTENT''"
  "fold_name ''isError'' = ''ISERROR''"
  by code_simp+

lemma result_keys: "list_all utf8_ok [''type'', ''text'', ''content'', ''isError'']"
  by code_simp

definition item_utf8 :: "ContentItem \<Rightarrow> bool" where
  "item_utf8 i \<longleftrightarrow> utf8_ok (item_Type i) \<and> utf8_ok (item_Text i)"

lemma item_read: "item_utf8 i \<Longrightarrow> dec_struct item_field (item_text_json i) zero_ContentItem = Some i"
proof -
  assume i: "item_utf8 i"
  let ?ms = "(''type'', quote (item_Type i)) # optional (item_Text i \<noteq> []) ''text'' (quote (item_Text i))"
  have raw: "\<forall>m \<in> set ?ms. member_raw m"
    using result_keys by (auto simp: member_raw_def raw_value_quote optional_def simp del: utf8_ok.simps)
  show ?thesis
    unfolding item_text_json_def dec_struct_raw [OF raw]
    using i by (auto simp: set_fields_Cons result_folds item_field_def optional_def zero_ContentItem_def item_utf8_def
        simp del: fold_name.simps)
qed

lemma items_read: "list_all item_utf8 is \<Longrightarrow> dec_elems (dec_struct item_field) zero_ContentItem (map item_text_json is) [] = Some is"
  by (induction "is") (auto simp: item_read)

lemma item_raw: "raw_value (Suc d) (item_text_json i)"
  unfolding item_text_json_def by (intro raw_value_object) (auto simp: raw_value_quote optional_def)

lemma items_slice_read:
  assumes "list_all item_utf8 is"
  shows "dec_slice (dec_struct item_field) zero_ContentItem (array_text (map item_text_json is)) nil_slice = Some (to_slice is)"
proof -
  have "raw_value max_depth (item_text_json i)" for i
    using item_raw [of "max_depth - 1" i] by (simp add: max_depth_def)
  then have "raw_elems (array_text (map item_text_json is)) = Some (map item_text_json is)"
    by (intro raw_elems_raw) auto
  then show ?thesis
    using items_read [OF assms]
    by (cases "is") (auto simp: dec_slice_def is_null_def array_text_def nil_slice_def to_slice_def)
qed

lemma tool_result_read:
  assumes "list_all item_utf8 is"
  shows "unmarshal dec_tool_result zero_ToolResult (tool_result_text \<lparr>tool_Content = to_slice is, tool_IsError = b\<rparr>) =
    Some \<lparr>tool_Content = to_slice is, tool_IsError = b\<rparr>"
proof -
  let ?ms = "(''content'', array_text (map item_text_json is)) # optional b ''isError'' (bool_text b)"
  have "raw_value (max_depth - 1) (array_text (map item_text_json is))"
    using raw_value_array [of "map item_text_json is" "max_depth - 2"] item_raw [of "max_depth - 3"]
    by (simp add: max_depth_def)
  then have raw: "\<forall>m \<in> set ?ms. member_raw m"
    using result_keys by (auto simp: member_raw_def raw_value_bool optional_def simp del: utf8_ok.simps)
  show ?thesis
    unfolding dec_tool_result_def tool_result_text_def
    using unmarshal_raw_object [OF raw, of tool_result_field zero_ToolResult] items_slice_read [OF assms]
    by (auto simp: set_fields_Cons result_folds tool_result_field_def optional_def zero_ToolResult_def slice_text_to_slice
        simp del: fold_name.simps)
qed

end
