(* ===== verification/Mock_Server.thy ===== *)
theory Mock_Server
  imports Tool_Results Proxy_Types Proxy_Redaction Admin_Server
begin

text \<open>
  The mock server of \<^verbatim>\<open>cmd/mockdownstream/main.go\<close>: a server for MCP calls that answers every \<^verbatim>\<open>tools/call\<close> with one
  employee record, salary and social security number included. The repository keeps it to check the redaction end
  to end, and so does this theory: the mock is put behind \<open>Forward\<close> as the HTTP client's other end, and
  \<open>mock_answer_redacted\<close> says what the redaction makes of its answer.

  A \<^verbatim>\<open>map[string]any\<close> is written down in the order of the source; \<open>map_puts\<close> sorts it, as \<^verbatim>\<open>Marshal\<close> does.
\<close>

section \<open>Replies\<close>

definition any_map :: "(string \<times> json) list \<Rightarrow> json" where
  "any_map kvs = JObj (map_puts [] kvs)"

text \<open>A map that holds the raw id next to printed values; \<^verbatim>\<open>Encode\<close> writes nothing when the id is not JSON.\<close>

definition encode_with_id :: "string \<Rightarrow> (string \<times> string) list \<Rightarrow> string" where
  "encode_with_id rid ms = (if raw_ok rid then object_text (map_puts [] ms) @ [CHR 0x0A] else [])"

definition json_header :: "(string \<times> string) list" where
  "json_header = [(''Content-Type'', ''application/json'')]"

definition writeSuccess :: "string \<Rightarrow> json \<Rightarrow> http_reply" where
  "writeSuccess rid result =
    \<lparr>rep_status = 200, rep_headers = json_header,
     rep_body = encode_with_id rid
       [(''jsonrpc'', quote ''2.0''), (''id'', raw_text rid), (''result'', json_print result)]\<rparr>"

definition writeError :: "string \<Rightarrow> 64 word \<Rightarrow> string \<Rightarrow> http_reply" where
  "writeError rid ec msg =
    \<lparr>rep_status = 200, rep_headers = json_header,
     rep_body = encode_with_id rid
       [(''jsonrpc'', quote ''2.0''), (''id'', raw_text rid),
        (''error'', json_print (any_map [(''code'', JNum (int_text ec)), (''message'', JStr msg)]))]\<rparr>"

definition mock_healthz :: http_reply where
  "mock_healthz = \<lparr>rep_status = 200, rep_headers = json_header,
    rep_body = object_text [(''status'', quote ''ok''), (''service'', quote ''mockdownstream'')] @ [CHR 0x0A]\<rparr>"

section \<open>The handlers\<close>

definition mock_record :: "(string \<times> json) list" where
  "mock_record =
    [(''employee_id'', JStr ''EMP-0042''), (''name'', JStr ''Alice Testuser''), (''department'', JStr ''Engineering''),
     (''salary'', JNum ''120000''), (''ssn'', JStr ''123-45-6789''), (''email'', JStr ''alice@example.com''),
     (''start_date'', JStr ''2019-03-01'')]"

definition handleToolCall :: "string \<Rightarrow> http_reply" where
  "handleToolCall rid =
    (let text = json_print (any_map mock_record)
     in writeSuccess rid (any_map
       [(''content'', JArr [any_map [(''type'', JStr ''text''), (''text'', JStr text)]]),
        (''isError'', JBool False)]))"

definition handleToolList :: "string \<Rightarrow> http_reply" where
  "handleToolList rid = writeSuccess rid (any_map
    [(''tools'', JArr
      [any_map
        [(''name'', JStr ''get_employee_record''), (''description'', JStr ''Fetch an employee record by ID.''),
         (''inputSchema'', any_map
           [(''type'', JStr ''object''),
            (''properties'', any_map [(''employee_id'', any_map [(''type'', JStr ''string'')])]),
            (''required'', JArr [JStr ''employee_id''])])],
       any_map
        [(''name'', JStr ''list_employees''), (''description'', JStr ''List all employees.''),
         (''inputSchema'', any_map [(''type'', JStr ''object''), (''properties'', any_map [])])]])])"

definition handleInitialize :: "string \<Rightarrow> http_reply" where
  "handleInitialize rid = writeSuccess rid (any_map
    [(''protocolVersion'', JStr ''2024-11-05''),
     (''serverInfo'', any_map [(''name'', JStr ''mock-bamboohr''), (''version'', JStr ''1.0.0'')]),
     (''capabilities'', any_map [(''tools'', any_map [])])])"

text \<open>The anonymous struct of \<^verbatim>\<open>mcpHandler\<close> has the fields and the tags of \<^verbatim>\<open>mcp.Request\<close>.\<close>

definition mcpHandler :: "string \<Rightarrow> http_reply" where
  "mcpHandler body =
    (case decode dec_request zero_Request body of
      None \<Rightarrow> writeError [] (-32700) ''parse error''
    | Some req \<Rightarrow>
      (if req_Method req = ''tools/call'' then handleToolCall (req_ID req)
       else if req_Method req = ''tools/list'' then handleToolList (req_ID req)
       else if req_Method req = ''initialize'' then handleInitialize (req_ID req)
       else writeError (req_ID req) (-32601) (''method not found: '' @ req_Method req)))"

text \<open>The routes, for paths without empty and dot segments: \<^verbatim>\<open>GET /healthz\<close>, and \<^verbatim>\<open>POST /\<close> for every path.\<close>

definition mock_serve :: "string \<Rightarrow> string \<Rightarrow> string \<Rightarrow> http_reply" where
  "mock_serve meth path body =
    (if match_method ''GET'' meth \<and> path = ''/healthz'' then mock_healthz
     else if meth = ''POST'' then mcpHandler body
     else http_error 405 ''Method Not Allowed''
       [(''Allow'', if path = ''/healthz'' then ''GET, HEAD, POST'' else ''POST'')])"

definition envOr :: "(string \<Rightarrow> string) \<Rightarrow> string \<Rightarrow> string \<Rightarrow> string" where
  "envOr getenv key def = (if getenv key \<noteq> [] then getenv key else def)"

definition mock_addr :: "(string \<Rightarrow> string) \<Rightarrow> string" where
  "mock_addr getenv = CHR '':'' # envOr getenv ''MOCK_PORT'' ''9090''"

text \<open>The other end of the proxy's HTTP client; the path of an URL is a parameter, and the requests are logged.\<close>

definition mock_client :: "(string \<Rightarrow> string) \<Rightarrow> http_request list http_client" where
  "mock_client path_of h log =
    (let reply = mock_serve (hreq_method h) (path_of (hreq_url h)) (hreq_body h)
     in (Inr \<lparr>hres_status = int (rep_status reply), hres_body = rep_body reply, hres_broken = False\<rparr>, log @ [h]))"

section \<open>The answer to a tool call\<close>

definition mock_employee :: "(string \<times> json) list" where
  "mock_employee = map_puts [] mock_record"

definition mock_text :: string where
  "mock_text = json_print (JObj mock_employee)"

lemma mock_employee_ok:
  assumes "f ''120000'' = Some ''120000''"
  shows "json_ok f max_depth (JObj mock_employee)"
proof -
  have texts: "list_all (\<lambda>(k, v). utf8_ok k \<and> (case v of JStr x \<Rightarrow> utf8_ok x | _ \<Rightarrow> v = JNum ''120000'')) mock_record"
    by code_simp
  have num: "is_number ''120000''" by code_simp
  have "utf8_ok k \<and> json_ok f (max_depth - 1) v" if "(k, v) \<in> set mock_record" for k v
    using texts [unfolded list_all_iff, THEN bspec, OF that] num assms by (cases v) simp_all
  then have "\<forall>(k, v) \<in> set mock_record. utf8_ok k \<and> json_ok f (max_depth - 1) v" by blast
  then have "\<forall>(k, v) \<in> set mock_employee. utf8_ok k \<and> json_ok f (max_depth - 1) v"
    using set_map_puts [of "[]" mock_record] by (auto simp: mock_employee_def)
  then show ?thesis by (simp add: mock_employee_def ordered_map_puts max_depth_def)
qed

lemma mock_record_distinct: "distinct (map fst mock_record)"
  by code_simp

lemma map_of_mock_employee: "map_of mock_employee = map_of mock_record"
proof -
  have "map_of (rev mock_record) = map_of mock_record"
    using mock_record_distinct by (intro map_of_inject_set [THEN iffD2]) (simp_all add: rev_map [symmetric])
  then show ?thesis by (simp add: mock_employee_def map_of_map_puts)
qed

definition mock_result :: json where
  "mock_result = JObj [(''content'', JArr [JObj [(''text'', JStr mock_text), (''type'', JStr ''text'')]]),
    (''isError'', JBool False)]"

lemma handleToolCall_reply: "handleToolCall rid = writeSuccess rid mock_result"
proof -
  have "any_map [(''type'', a), (''text'', b)] = JObj [(''text'', b), (''type'', a)]" for a b
    by (simp add: any_map_def less_char_def)
  moreover have "any_map [(''content'', a), (''isError'', b)] = JObj [(''content'', a), (''isError'', b)]" for a b
    by (simp add: any_map_def less_char_def)
  moreover have "json_print (any_map mock_record) = mock_text"
    by (simp add: mock_text_def mock_employee_def any_map_def)
  ultimately show ?thesis by (simp add: handleToolCall_def mock_result_def Let_def)
qed

lemma mock_text_utf8: "utf8_ok mock_text"
  unfolding mock_text_def by (rule utf8_ok_print [OF mock_employee_ok [of Some]]) simp

definition mock_members :: "string \<Rightarrow> (string \<times> string) list" where
  "mock_members rid = [(''id'', raw_text rid), (''jsonrpc'', quote ''2.0''), (''result'', json_print mock_result)]"

lemma success_body:
  assumes "raw_field d rid" and "d \<le> max_depth"
  shows "rep_body (writeSuccess rid mock_result) = object_text (mock_members rid) @ [CHR 0x0A]"
  using raw_field_ok [OF assms]
  by (simp add: writeSuccess_def encode_with_id_def mock_members_def less_char_def)

lemma mock_result_ok: "json_ok Some (max_depth - 1) mock_result"
  using mock_text_utf8 result_keys
  by (auto simp: mock_result_def max_depth_def less_char_def simp del: utf8_ok.simps)

lemma mock_members_raw:
  assumes "raw_field (max_depth - 1) rid"
  shows "\<forall>m \<in> set (mock_members rid). member_raw m"
  using message_keys raw_field_text [OF assms] raw_value_print [OF mock_result_ok]
  by (auto simp: mock_members_def member_raw_def raw_value_quote simp del: utf8_ok.simps json_print.simps)

definition mock_response :: "string \<Rightarrow> Response" where
  "mock_response rid = \<lparr>resp_JSONRPC = ''2.0'', resp_ID = raw_text rid, resp_Result = json_print mock_result, resp_Error = None\<rparr>"

lemma mock_response_read:
  assumes "raw_field (max_depth - 1) rid"
  shows "unmarshal dec_response zero_Response (object_text (mock_members rid) @ [CHR 0x0A]) = Some (mock_response rid)"
proof -
  have "utf8_ok ''2.0''" by code_simp
  then have "dec_response (object_text (mock_members rid)) zero_Response = Some (mock_response rid)"
    unfolding dec_response_def dec_struct_raw [OF mock_members_raw [OF assms]]
    by (simp add: mock_members_def set_fields_Cons message_folds response_field_def dec_raw_def zero_Response_def
        mock_response_def del: fold_name.simps utf8_ok.simps json_print.simps)
  then show ?thesis
    using unmarshal_raw [OF raw_value_members [OF mock_members_raw [OF assms]], of "[CHR 0x0A]" dec_response zero_Response]
    by (simp add: delim_Cons is_ws_def)
qed

definition mock_item :: ContentItem where
  "mock_item = \<lparr>item_Type = ''text'', item_Text = mock_text\<rparr>"

lemma mock_result_read:
  "unmarshal dec_tool_result zero_ToolResult (json_print mock_result) = Some \<lparr>tool_Content = to_slice [mock_item], tool_IsError = False\<rparr>"
proof -
  let ?kvs = "[(''content'', JArr [demo_item mock_text]), (''isError'', JBool False)]"
  have item: "json_ok Some d (demo_item mock_text)" if "d \<noteq> 0" for d
    using mock_text_utf8 result_keys that by (auto simp: demo_item_def less_char_def simp del: utf8_ok.simps)
  then have "\<forall>e \<in> set ?kvs. member_ok e"
    using result_keys by (auto simp: member_ok_def max_depth_def simp del: utf8_ok.simps)
  then have "unmarshal dec_tool_result zero_ToolResult (object_text (printed ?kvs)) = set_fields tool_result_field (printed ?kvs) zero_ToolResult"
    unfolding dec_tool_result_def by (intro unmarshal_object) blast
  moreover have "json_print mock_result = object_text (printed ?kvs)"
    by (simp add: mock_result_def object_text_def demo_item_def)
  moreover have "raw_elems (json_print (JArr [demo_item mock_text])) = Some [json_print (demo_item mock_text)]"
    using raw_elems_array [of "[demo_item mock_text]"] item by (simp add: array_text_def max_depth_def)
  moreover have "dec_bool (json_print (JBool False)) b = Some False" for b
    using dec_bool_text [of False b] by (simp add: bool_text_def)
  ultimately show ?thesis
    using demo_item_read [OF mock_text_utf8]
    by (simp add: set_fields_Cons result_folds tool_result_field_def zero_ToolResult_def dec_slice_def is_null_def
        nil_slice_def to_slice_def mock_item_def del: fold_name.simps)
qed

text \<open>What the redaction leaves of the record.\<close>

definition redacted_item :: "string list \<Rightarrow> ContentItem" where
  "redacted_item fs = \<lparr>item_Type = ''text'', item_Text = json_print (JObj (redact_doc fs mock_employee))\<rparr>"

lemma mock_redacted:
  assumes "f ''120000'' = Some ''120000''" and "fs \<noteq> []"
  shows "redact_response f fs (mock_response rid) =
    (mock_response rid)\<lparr>resp_Result := tool_result_text \<lparr>tool_Content = to_slice [redacted_item fs], tool_IsError = False\<rparr>\<rparr>"
proof -
  have "reads_map f mock_text mock_employee"
    unfolding mock_text_def by (rule reads_map_print [OF mock_employee_ok]) (rule assms(1))
  then have "redact_item f fs mock_item = redacted_item fs"
    using reads_map_nonempty by (auto simp: redact_item_def mock_item_def redacted_item_def redactJSON_object)
  moreover have "json_print mock_result \<noteq> []" by (simp add: mock_result_def)
  ultimately show ?thesis
    using assms(2) mock_result_read
    by (simp add: redact_response_def mock_response_def Mcp.RedactFields_def)
qed

lemma redacted_item_utf8: "f ''120000'' = Some ''120000'' \<Longrightarrow> item_utf8 (redacted_item fs)"
  using utf8_ok_print [OF json_ok_redact_doc [OF mock_employee_ok, of f fs]]
  by (simp add: item_utf8_def redacted_item_def utf8_len_def)

lemma length_mock_body:
  assumes "length (raw_text rid) \<le> 1000000"
  shows "length (object_text (mock_members rid) @ [CHR 0x0A]) \<le> body_limit"
proof -
  have "length (quote ''2.0'') = 5" "length (json_print mock_result) \<le> 1000"
    by code_simp+
  then show ?thesis
    using assms by (simp add: mock_members_def object_text_def quote_def [of "''id''"] quote_def [of "''jsonrpc''"]
        quote_def [of "''result''"] escape_ascii_def body_limit_def)
qed

section \<open>The mock behind the proxy\<close>

lemma mock_answers_calls:
  assumes "request_typed (max_depth - 1) req" and "req_Method req = ''tools/call''"
  shows "mcpHandler (request_text req) =
    \<lparr>rep_status = 200, rep_headers = json_header, rep_body = object_text (mock_members (raw_text (req_ID req))) @ [CHR 0x0A]\<rparr>"
proof -
  have "utf8_fix ''tools/call'' = ''tools/call''" by code_simp
  then have "mcpHandler (request_text req) = handleToolCall (raw_text (req_ID req))"
    using request_read [OF assms(1)] assms(2) by (simp add: mcpHandler_def reread_request_def)
  moreover have "raw_field (max_depth - 1) (raw_text (req_ID req))"
    using assms(1) by (simp add: request_typed_def raw_field_text raw_field_value)
  ultimately show ?thesis
    using success_body [of "max_depth - 1" "raw_text (req_ID req)"] by (simp add: handleToolCall_reply) (simp add: writeSuccess_def)
qed

lemma forward_to_mock:
  assumes "request_typed (max_depth - 1) req" and "req_Method req = ''tools/call''"
    and "length (raw_text (raw_text (req_ID req))) \<le> 1000000"
    and "url_ok base" and "ref = [] \<or> (\<exists>secret. resolve ref = Inr secret)"
  shows "\<exists>h. Forward resolve url_ok (mock_client path_of) base ty ref req log = (Inr (mock_response (raw_text (req_ID req))), log @ [h])"
proof -
  let ?id = "raw_text (req_ID req)"
  have id_ok: "raw_field (max_depth - 1) ?id"
    using assms(1) by (simp add: request_typed_def raw_field_text raw_field_value)
  have "raw_ok (req_ID req)" "raw_ok (req_Params req)"
    using assms(1) by (auto simp: request_typed_def intro: raw_field_ok)
  then obtain h where h: "build_request resolve url_ok base ty ref req = Inr h" "hreq_method h = ''POST''" "hreq_body h = request_text req"
    using assms(4,5) by (cases "ref = []") (auto simp: build_request_def Let_def)
  have "mock_serve (hreq_method h) p (hreq_body h) =
      \<lparr>rep_status = 200, rep_headers = json_header, rep_body = object_text (mock_members ?id) @ [CHR 0x0A]\<rparr>" for p
    using mock_answers_calls [OF assms(1,2)] by (simp add: mock_serve_def match_method_def h)
  then have "mock_client path_of h log =
      (Inr \<lparr>hres_status = 200, hres_body = object_text (mock_members ?id) @ [CHR 0x0A], hres_broken = False\<rparr>, log @ [h])"
    by (simp add: mock_client_def Let_def)
  then show ?thesis
    using h(1) length_mock_body [OF assms(3)] mock_response_read [OF id_ok]
    by (simp add: Forward_def read_response_def Let_def)
qed

text \<open>C23: the redaction works end to end, on the server that the repository keeps to check it. A call that the proxy
  lets through to the mock server is answered with one text item, which decodes to the employee record with exactly
  the fields that the policy lists replaced: a policy that lists \<^verbatim>\<open>salary\<close> hides the salary from the client.\<close>

theorem mock_answer_redacted:
  assumes "number_codec (gw_f64 g)" and "gw_f64 g ''120000'' = Some ''120000''" and "gw_http g = mock_client path_of"
    and "gw_url_ok g (srv_base_url srv)" and "srv_secret_ref srv = [] \<or> (\<exists>secret. gw_resolve g (srv_secret_ref srv) = Inr secret)"
    and "raw_field (max_depth - 1) rid" and "length (raw_text (raw_text rid)) \<le> 1000000" and "raw_value (max_depth - 1) params"
    and "fs \<noteq> []" and "forward_call g mo rid userID tool params srv fs w = (out, w')"
  shows "\<exists>r t i doc. unmarshal dec_response zero_Response (out_body out) = Some r \<and> resp_Error r = None \<and>
    unmarshal dec_tool_result zero_ToolResult (resp_Result r) = Some t \<and> slice_list (tool_Content t) = [i] \<and>
    reads_map (gw_f64 g) (item_Text i) doc \<and>
    (\<forall>k. map_of doc k = (if k \<in> set fs then map_option (\<lambda>_. JStr redactedPlaceholder) (map_of mock_record k)
      else map_of mock_record k))"
proof -
  let ?req = "\<lparr>req_JSONRPC = ''2.0'', req_ID = rid, req_Method = ''tools/call'', req_Params = params\<rparr>"
  let ?resp = "(mock_response (raw_text rid))\<lparr>resp_Result := tool_result_text \<lparr>tool_Content = to_slice [redacted_item fs], tool_IsError = False\<rparr>\<rparr>"
  have req: "request_typed (max_depth - 1) ?req" using assms(6,8) by (simp add: request_typed_def raw_field_value)
  obtain h where "Forward (gw_resolve g) (gw_url_ok g) (gw_http g) (srv_base_url srv) (srv_auth_type srv) (srv_secret_ref srv)
      ?req (w_net w) = (Inr (mock_response (raw_text rid)), w_net w @ [h])"
    using forward_to_mock [OF req, of "gw_url_ok g" "srv_base_url srv" "srv_secret_ref srv" "gw_resolve g" path_of
        "srv_auth_type srv" "w_net w"] assms(3,4,5,7) by auto
  then have out: "out = writeJSON [] ?resp"
    using assms(10) mock_redacted [of "gw_f64 g" fs, OF assms(2,9)] by (simp add: forward_call_def Let_def)
  have "raw_value (max_depth - 1) (tool_result_text t)" for t
    by (rule raw_value_mono [OF tool_result_raw [of 0]]) (simp add: max_depth_def)
  moreover have "raw_value (max_depth - 1) (raw_text (raw_text rid))"
    using raw_field_text [OF raw_field_value [OF raw_field_text [OF assms(6)]]] .
  ultimately have typed: "response_typed (max_depth - 1) ?resp"
    by (simp add: response_typed_def mock_response_def raw_field_value)
  then have "unmarshal dec_response zero_Response (out_body out) = Some (reread_response ?resp)"
    using response_read(1) typed_response_ok by (simp add: out writeJSON_def)
  moreover have "resp_Result (reread_response ?resp) = tool_result_text \<lparr>tool_Content = to_slice [redacted_item fs], tool_IsError = False\<rparr>"
    using tool_result_compact by (simp add: reread_response_def reread_optional_def)
  moreover have "resp_Error (reread_response ?resp) = None" by (simp add: reread_response_def mock_response_def)
  moreover have "unmarshal dec_tool_result zero_ToolResult
      (tool_result_text \<lparr>tool_Content = to_slice [redacted_item fs], tool_IsError = False\<rparr>) =
      Some \<lparr>tool_Content = to_slice [redacted_item fs], tool_IsError = False\<rparr>"
    using redacted_item_utf8 [of "gw_f64 g" fs, OF assms(2)] by (intro tool_result_read) simp
  moreover have "reads_map (gw_f64 g) (item_Text (redacted_item fs)) (redact_doc fs mock_employee)"
    unfolding redacted_item_def by (simp del: json_print.simps) (intro reads_map_print json_ok_redact_doc mock_employee_ok assms(2))
  moreover have "map_of (redact_doc fs mock_employee) k =
      (if k \<in> set fs then map_option (\<lambda>_. JStr redactedPlaceholder) (map_of mock_record k) else map_of mock_record k)" for k
    using redact_doc_lookup [of mock_employee fs k] by (simp add: map_of_mock_employee [symmetric]) (simp add: mock_employee_def ordered_map_puts)
  ultimately show ?thesis by (metis (no_types, lifting) slice_list_to_slice ToolResult.select_convs(1))
qed

definition mock_gateway :: "(keyspace, zspace, db, http_request list, Event list) gateway" where
  "mock_gateway = demo_gateway\<lparr>gw_http := mock_client id\<rparr>"

definition mock_out :: http_out where
  "mock_out = fst (forward_call mock_gateway demo_moment ''7'' ''u'' ''read'' ''{}'' demo_srv [''salary'', ''ssn''] (demo_world True))"

theorem mock_answer_redacted_witness:
  "\<exists>r t i doc. unmarshal dec_response zero_Response (out_body mock_out) = Some r \<and>
    unmarshal dec_tool_result zero_ToolResult (resp_Result r) = Some t \<and> slice_list (tool_Content t) = [i] \<and>
    reads_map demo_f64 (item_Text i) doc \<and> map_of doc ''salary'' = Some (JStr redactedPlaceholder) \<and>
    map_of doc ''name'' = Some (JStr ''Alice Testuser'')"
proof -
  have g: "gw_f64 mock_gateway = demo_f64" "gw_http mock_gateway = mock_client id" "gw_url_ok mock_gateway u" for u
    by (simp_all add: mock_gateway_def demo_gateway_def)
  have num: "demo_f64 ''120000'' = Some ''120000''" by code_simp
  have rid: "raw_field (max_depth - 1) ''7''"
    using raw_value_print [of "max_depth - 1" "JNum ''7''"] demo_number by (simp add: raw_field_value)
  have "length (raw_text (raw_text ''7'')) \<le> 1" by code_simp
  then have len: "length (raw_text (raw_text ''7'')) \<le> 1000000" by simp
  have params: "raw_value (max_depth - 1) ''{}''"
    using raw_value_print [of "max_depth - 1" "JObj []"] by (simp add: max_depth_def)
  have ref: "srv_secret_ref demo_srv = [] \<or> (\<exists>secret. gw_resolve mock_gateway (srv_secret_ref demo_srv) = Inr secret)"
    by (simp add: demo_srv_def)
  have flds: "[''salary'', ''ssn''] \<noteq> []" by simp
  obtain w' where run: "forward_call mock_gateway demo_moment ''7'' ''u'' ''read'' ''{}'' demo_srv [''salary'', ''ssn''] (demo_world True) = (mock_out, w')"
    by (metis mock_out_def prod.collapse)
  obtain r t i doc where facts: "unmarshal dec_response zero_Response (out_body mock_out) = Some r"
      "unmarshal dec_tool_result zero_ToolResult (resp_Result r) = Some t" "slice_list (tool_Content t) = [i]"
      "reads_map demo_f64 (item_Text i) doc"
    and doc: "\<forall>k. map_of doc k = (if k \<in> set [''salary'', ''ssn''] then map_option (\<lambda>_. JStr redactedPlaceholder) (map_of mock_record k)
      else map_of mock_record k)"
    using mock_answer_redacted [OF _ _ g(2,3) ref rid len params flds run, unfolded g(1), OF demo_f64_codec num] by blast
  have "map_of mock_record ''salary'' = Some (JNum ''120000'')" "map_of mock_record ''name'' = Some (JStr ''Alice Testuser'')"
    by code_simp+
  with doc have "map_of doc ''salary'' = Some (JStr redactedPlaceholder)" "map_of doc ''name'' = Some (JStr ''Alice Testuser'')"
    by simp_all
  with facts show ?thesis by blast
qed

end
