(* ===== verification/Lifecycle.thy ===== *)
theory Lifecycle
  imports Proxy_Props Audit_Consumers Admin_Server Mock_Server
begin

text \<open>
  How the three processes start and stop (\<^verbatim>\<open>main\<close> in \<^verbatim>\<open>cmd/proxy\<close>, \<^verbatim>\<open>cmd/adminapi\<close>, \<^verbatim>\<open>cmd/worker\<close>).

  The first part is the code of the three \<^verbatim>\<open>main\<close> functions: a call of a library is a \<open>proc_call\<close>, and the environment
  says whether it succeeds. \<^verbatim>\<open>os.Exit(1)\<close> ends the process at once; a \<^verbatim>\<open>return\<close> runs the deferred calls, the last
  one first. \<open>startup_and_exit\<close> says which calls are made in which order, and \<open>worker_main_starts\<close> that the worker's
  calls on its broker are those of \<open>worker_start\<close>.

  The second part is the end of the proxy as a step relation (\<open>proc_step\<close>): requests in flight, the worker of the
  publisher, the signal, \<^verbatim>\<open>Shutdown\<close> with its timeout, and \<^verbatim>\<open>Close\<close>. Because \<^verbatim>\<open>Shutdown\<close> waits for the handlers, the
  race of \<open>Publish\<close> with \<open>Close\<close> does not occur there, and an orderly end loses no event; an end by timeout does.
\<close>

section \<open>Processes\<close>

datatype proc_call =
    NewPool string
  | PingPool
  | ClosePool
  | ParseRedisURL string
  | CloseRedis
  | ConnectPublisher string int
  | ClosePublisher
  | ConnectWriter string
  | StartWriter
  | StopWriter
  | ConnectAlerts string
  | StartAlerts
  | StopAlerts
  | ServeUntilSignal string
  | ListenAndServe string
  | AwaitSignal
  | ShutdownServer
  | CancelContext

text \<open>\<open>ServeUntilSignal\<close> succeeds when a signal arrives before the server fails.\<close>

datatype exit = Return | Exit nat | Panic config_panic

record 'b process =
  pr_world :: 'b
  pr_deferred :: "proc_call list"
  pr_calls :: "(proc_call \<times> bool) list"
  pr_level :: level
  pr_log :: "(level \<times> string) list"

type_synonym 'b environment = "proc_call \<Rightarrow> 'b \<Rightarrow> bool \<times> 'b"
type_synonym 'b main_code = "'b process \<Rightarrow> exit \<times> 'b process"

definition new_process :: "'b \<Rightarrow> 'b process" where
  "new_process b = \<lparr>pr_world = b, pr_deferred = [], pr_calls = [], pr_level = LevelInfo, pr_log = []\<rparr>"

definition perform :: "'b environment \<Rightarrow> proc_call \<Rightarrow> 'b process \<Rightarrow> bool \<times> 'b process" where
  "perform env c p =
    (case env c (pr_world p) of (ok, b) \<Rightarrow> (ok, p\<lparr>pr_world := b, pr_calls := pr_calls p @ [(c, ok)]\<rparr>))"

fun severity :: "level \<Rightarrow> int" where
  "severity LevelDebug = -4"
| "severity LevelInfo = 0"
| "severity LevelWarn = 4"
| "severity LevelError = 8"

text \<open>The levels are ordered as \<^verbatim>\<open>slog\<close> orders them.\<close>

instantiation level :: linorder
begin

definition less_eq_level :: "level \<Rightarrow> level \<Rightarrow> bool" where
  "less_eq_level l l' \<longleftrightarrow> severity l \<le> severity l'"

definition less_level :: "level \<Rightarrow> level \<Rightarrow> bool" where
  "less_level l l' \<longleftrightarrow> severity l < severity l'"

instance
proof
  fix l l' :: level
  assume "l \<le> l'" "l' \<le> l"
  then show "l = l'" by (cases l; cases l') (simp_all add: less_eq_level_def)
qed (auto simp: less_eq_level_def less_level_def)

end

definition log_line_at :: "level \<Rightarrow> string \<Rightarrow> 'b process \<Rightarrow> 'b process" where
  "log_line_at l msg p = (if pr_level p \<le> l then p\<lparr>pr_log := pr_log p @ [(l, msg)]\<rparr> else p)"

text \<open>The statements of the \<^verbatim>\<open>main\<close> functions, each with the code that follows it.\<close>

definition info :: "string \<Rightarrow> 'b main_code \<Rightarrow> 'b main_code" where
  "info msg k p = k (log_line_at LevelInfo msg p)"

definition must :: "'b environment \<Rightarrow> proc_call \<Rightarrow> string \<Rightarrow> 'b main_code \<Rightarrow> 'b main_code" where
  "must env c msg k p =
    (case perform env c p of (ok, p') \<Rightarrow> if ok then k p' else (Exit 1, log_line_at LevelError msg p'))"

definition ignoring :: "'b environment \<Rightarrow> proc_call \<Rightarrow> 'b main_code \<Rightarrow> 'b main_code" where
  "ignoring env c k p = k (snd (perform env c p))"

definition deferring :: "proc_call \<Rightarrow> 'b main_code \<Rightarrow> 'b main_code" where
  "deferring c k p = k (p\<lparr>pr_deferred := c # pr_deferred p\<rparr>)"

fun run_deferred :: "'b environment \<Rightarrow> proc_call list \<Rightarrow> 'b process \<Rightarrow> 'b process" where
  "run_deferred env [] p = p"
| "run_deferred env (c # cs) p = run_deferred env cs (snd (perform env c p))"

definition return_main :: "'b environment \<Rightarrow> 'b main_code" where
  "return_main env p = (Return, run_deferred env (pr_deferred p) (p\<lparr>pr_deferred := []\<rparr>))"

definition with_config :: "(string \<Rightarrow> string) \<Rightarrow> (string \<Rightarrow> level) \<Rightarrow> (Config \<Rightarrow> 'b main_code) \<Rightarrow> 'b main_code" where
  "with_config getenv logger k p =
    (case Load getenv of Inl e \<Rightarrow> (Panic e, p) | Inr cfg \<Rightarrow> k cfg (p\<lparr>pr_level := logger (cfg_LogLevel cfg)\<rparr>))"

definition port_addr :: "int \<Rightarrow> string" where
  "port_addr n = CHR '':'' # dec_int n"

text \<open>Each program has its own copy of \<^verbatim>\<open>newLogger\<close>.\<close>

definition proxy_newLogger :: "string \<Rightarrow> level" where
  "proxy_newLogger l = (if l = ''debug'' then LevelDebug else if l = ''warn'' then LevelWarn
    else if l = ''error'' then LevelError else LevelInfo)"

definition worker_newLogger :: "string \<Rightarrow> level" where
  "worker_newLogger l = (if l = ''debug'' then LevelDebug else if l = ''warn'' then LevelWarn
    else if l = ''error'' then LevelError else LevelInfo)"

section \<open>The main functions\<close>

text \<open>The goroutine with \<^verbatim>\<open>ListenAndServe\<close>, and the wait for a signal next to it.\<close>

definition serve :: "'b environment \<Rightarrow> string \<Rightarrow> int \<Rightarrow> 'b main_code \<Rightarrow> 'b main_code" where
  "serve env name port k =
    info (name @ '' listening'') (
    must env (ServeUntilSignal (port_addr port)) (name @ '' server error'') (
    info (name @ '' shutting down'') k))"

definition proxy_main :: "'b environment \<Rightarrow> (string \<Rightarrow> string) \<Rightarrow> 'b main_code" where
  "proxy_main env getenv = with_config getenv proxy_newLogger (\<lambda>cfg.
    must env (NewPool (cfg_PostgresDSN cfg)) ''failed to create postgres pool'' (
    deferring ClosePool (
    must env PingPool ''failed to connect to postgres'' (
    must env (ParseRedisURL (cfg_RedisURL cfg)) ''invalid REDIS_URL'' (
    deferring CloseRedis (
    must env (ConnectPublisher (cfg_RabbitMQURL cfg) 2048) ''failed to connect to rabbitmq for audit'' (
    deferring ClosePublisher (
    serve env ''proxy'' (cfg_ProxyPort cfg) (
    deferring CancelContext (
    must env ShutdownServer ''proxy shutdown error'' (
    info ''proxy stopped'' (
    return_main env))))))))))))"

definition admin_main :: "'b environment \<Rightarrow> (string \<Rightarrow> string) \<Rightarrow> 'b main_code" where
  "admin_main env getenv = with_config getenv newLogger (\<lambda>cfg.
    must env (NewPool (cfg_PostgresDSN cfg)) ''failed to create postgres pool'' (
    deferring ClosePool (
    must env PingPool ''failed to connect to postgres'' (
    info ''connected to postgres'' (
    must env (ParseRedisURL (cfg_RedisURL cfg)) ''failed to parse redis url'' (
    deferring CloseRedis (
    serve env ''adminapi'' (cfg_AdminAPIPort cfg) (
    deferring CancelContext (
    must env ShutdownServer ''adminapi shutdown error'' (
    info ''adminapi stopped'' (
    return_main env)))))))))))"

definition worker_main :: "'b environment \<Rightarrow> (string \<Rightarrow> string) \<Rightarrow> 'b main_code" where
  "worker_main env getenv = with_config getenv worker_newLogger (\<lambda>cfg.
    info ''worker starting'' (
    must env (NewPool (cfg_PostgresDSN cfg)) ''failed to create postgres pool'' (
    deferring ClosePool (
    must env PingPool ''failed to connect to postgres'' (
    info ''connected to postgres'' (
    must env (ConnectWriter (cfg_RabbitMQURL cfg)) ''failed to initialize audit writer'' (
    deferring StopWriter (
    must env StartWriter ''failed to start audit writer'' (
    must env (ConnectAlerts (cfg_RabbitMQURL cfg)) ''failed to initialize alert consumer'' (
    deferring StopAlerts (
    must env StartAlerts ''failed to start alert consumer'' (
    info ''worker ready; listening for audit events and alerts'' (
    ignoring env AwaitSignal (
    info ''worker shutting down'' (
    deferring CancelContext (
    ignoring env StopWriter (
    ignoring env StopAlerts (
    info ''worker stopped'' (
    return_main env)))))))))))))))))))"

text \<open>The mock server has no configuration and no shutdown.\<close>

definition mock_main :: "'b environment \<Rightarrow> (string \<Rightarrow> string) \<Rightarrow> 'b main_code" where
  "mock_main env getenv =
    info ''mock downstream listening'' (
    must env (ListenAndServe (mock_addr getenv)) ''mock downstream error'' (
    return_main env))"

text \<open>The components that \<^verbatim>\<open>main\<close> of the proxy puts together: one database, one Redis server for tokens, policies and
  limits, the secrets of the environment, and the publisher.\<close>

definition proxy_gateway ::
  "pg \<Rightarrow> 'r redis \<Rightarrow> 'z zredis \<Rightarrow> (string \<Rightarrow> string) \<Rightarrow> (string \<Rightarrow> bool) \<Rightarrow> 'w http_client \<Rightarrow>
    (Event \<Rightarrow> 'p \<Rightarrow> publish_error option \<times> 'p) \<Rightarrow> (string \<Rightarrow> uuid option) \<Rightarrow> (string \<Rightarrow> string option) \<Rightarrow>
    (string \<Rightarrow> string) \<Rightarrow> (string \<Rightarrow> string) \<Rightarrow> (forward_error \<Rightarrow> string) \<Rightarrow> ('r, 'z, db, 'w, 'p) gateway" where
  "proxy_gateway pg rdb zdb getenv url_ok http publish scan f64 quoted json_error forward_error =
    \<lparr>gw_queries = queries pg, gw_tokens = NewTokenManager rdb 0, gw_engine = db_engine rdb pg, gw_limiter = zdb,
     gw_resolve = Resolve getenv, gw_url_ok = url_ok, gw_http = http, gw_publish = publish, gw_scan = scan, gw_f64 = f64,
     gw_quoted = quoted, gw_json_error = json_error, gw_forward_error = forward_error\<rparr>"

text \<open>The optional publisher of \<^verbatim>\<open>makeProxyHandler\<close>: without one, events are dropped.\<close>

definition choose_publisher ::
  "(Event \<Rightarrow> 'p \<Rightarrow> publish_error option \<times> 'p) option list \<Rightarrow> Event \<Rightarrow> 'p \<Rightarrow> publish_error option \<times> 'p" where
  "choose_publisher pubs = (case pubs of Some publish # _ \<Rightarrow> publish | _ \<Rightarrow> (\<lambda>e p. (None, p)))"

text \<open>The routes of the proxy, for paths without empty and dot segments. \<^verbatim>\<open>http\<close> writes the status 200 for a handler that
  sets none.\<close>

definition reply_of :: "http_out \<Rightarrow> http_reply" where
  "reply_of out = \<lparr>rep_status = 200, rep_headers = out_headers out, rep_body = out_body out\<rparr>"

definition proxy_serve ::
  "('r, 'z, 'd, 'w, 'p) gateway \<Rightarrow> moment \<Rightarrow> string \<Rightarrow> string \<Rightarrow> http_in \<Rightarrow> ('r, 'z, 'd, 'w, 'p) world \<Rightarrow>
    http_reply \<times> ('r, 'z, 'd, 'w, 'p) world" where
  "proxy_serve g mo meth path inp w =
    (if match_method ''GET'' meth \<and> path = ''/healthz'' then (reply_of healthzHandler, w)
     else if meth = ''POST'' then (case proxy_handler g mo inp w of (out, w') \<Rightarrow> (reply_of out, w'))
     else (http_error 405 ''Method Not Allowed''
       [(''Allow'', if path = ''/healthz'' then ''GET, HEAD, POST'' else ''POST'')], w))"

text \<open>Whatever the path, a request that changes anything is a POST and was handled as a call.\<close>

lemma proxy_serve_effects:
  "proxy_serve g mo meth path inp w = (rep, w') \<Longrightarrow> w' \<noteq> w \<Longrightarrow>
    meth = ''POST'' \<and> (\<exists>out. proxy_handler g mo inp w = (out, w') \<and> rep = reply_of out)"
  by (auto simp: proxy_serve_def split: if_splits prod.splits)

section \<open>What a main function does\<close>

text \<open>The process made its calls in order. Either all of them succeeded and the closing calls followed, or it
  exited with status 1 at the first one that failed and made no other.\<close>

definition ran :: "(proc_call \<times> bool) list \<Rightarrow> proc_call list \<Rightarrow> proc_call list \<Rightarrow> exit \<times> 'b process \<Rightarrow> bool" where
  "ran before musts closes r \<longleftrightarrow>
    (fst r = Return \<and> (\<exists>oks. length oks = length closes \<and>
      pr_calls (snd r) = before @ map (\<lambda>c. (c, True)) musts @ zip closes oks)) \<or>
    (fst r = Exit 1 \<and> (\<exists>n < length musts.
      pr_calls (snd r) = before @ map (\<lambda>c. (c, True)) (take n musts) @ [(musts ! n, False)]))"

definition runs ::
  "(proc_call \<times> bool) list \<Rightarrow> proc_call list \<Rightarrow> proc_call list \<Rightarrow> proc_call list \<Rightarrow> 'b main_code \<Rightarrow> bool" where
  "runs before deferred musts closes k \<longleftrightarrow>
    (\<forall>p. pr_calls p = before \<longrightarrow> pr_deferred p = deferred \<longrightarrow> ran before musts closes (k p))"

named_theorems runs_intro

lemma log_line_at_simps [simp]:
  "pr_calls (log_line_at l msg p) = pr_calls p" "pr_deferred (log_line_at l msg p) = pr_deferred p"
  by (simp_all add: log_line_at_def)

lemma runs_info [runs_intro]: "runs before ds musts closes k \<Longrightarrow> runs before ds musts closes (info msg k)"
  by (simp add: runs_def info_def)

lemma runs_deferring [runs_intro]: "runs before (c # ds) musts closes k \<Longrightarrow> runs before ds musts closes (deferring c k)"
  by (simp add: runs_def deferring_def)

lemma runs_must [runs_intro]:
  assumes "runs (before @ [(c, True)]) ds musts closes k"
  shows "runs before ds (c # musts) closes (must env c msg k)"
  unfolding runs_def
proof (intro allI impI)
  fix p :: "'a process"
  assume p: "pr_calls p = before" "pr_deferred p = ds"
  obtain ok b where env: "env c (pr_world p) = (ok, b)" by fastforce
  let ?p = "p\<lparr>pr_world := b, pr_calls := before @ [(c, ok)]\<rparr>"
  show "ran before (c # musts) closes (must env c msg k p)"
  proof (cases ok)
    case True
    then have "ran (before @ [(c, True)]) musts closes (k ?p)" using assms p by (simp add: runs_def)
    then have "ran before (c # musts) closes (k ?p)"
      unfolding ran_def by (auto intro: exI [of _ "Suc _"])
    then show ?thesis using True p by (simp add: must_def perform_def env)
  next
    case False
    then show ?thesis using p by (auto simp: must_def perform_def env ran_def intro!: exI [of _ 0])
  qed
qed

lemma runs_ignoring [runs_intro]:
  assumes "\<And>ok. runs (before @ [(c, ok)]) ds [] closes k"
  shows "runs before ds [] (c # closes) (ignoring env c k)"
  unfolding runs_def
proof (intro allI impI)
  fix p :: "'a process"
  assume p: "pr_calls p = before" "pr_deferred p = ds"
  obtain ok b where env: "env c (pr_world p) = (ok, b)" by fastforce
  let ?p = "p\<lparr>pr_world := b, pr_calls := before @ [(c, ok)]\<rparr>"
  have "ran (before @ [(c, ok)]) [] closes (k ?p)"
    using assms [of ok] p by (simp add: runs_def)
  then obtain oks where "fst (k ?p) = Return" "length oks = length closes"
    "pr_calls (snd (k ?p)) = before @ zip (c # closes) (ok # oks)" by (auto simp: ran_def)
  moreover have "ignoring env c k p = k ?p" using p by (simp add: ignoring_def perform_def env)
  moreover have "length (ok # oks) = length (c # closes)" if "length oks = length closes" for oks
    using that by simp
  ultimately show "ran before [] (c # closes) (ignoring env c k p)"
    unfolding ran_def by (metis append_Nil list.simps(8))
qed

lemma run_deferred_calls:
  "\<exists>oks. length oks = length cs \<and> pr_calls (run_deferred env cs p) = pr_calls p @ zip cs oks"
proof (induction cs arbitrary: p)
  case (Cons c cs)
  obtain ok b where env: "env c (pr_world p) = (ok, b)" by fastforce
  let ?p = "p\<lparr>pr_world := b, pr_calls := pr_calls p @ [(c, ok)]\<rparr>"
  obtain oks where "length oks = length cs" "pr_calls (run_deferred env cs ?p) = pr_calls ?p @ zip cs oks"
    using Cons.IH by blast
  then show ?case by (intro exI [of _ "ok # oks"]) (simp add: perform_def env)
qed simp

lemma runs_return [runs_intro]: "runs before ds [] ds (return_main env)"
  unfolding runs_def
proof (intro allI impI)
  fix p :: "'a process"
  assume "pr_calls p = before" "pr_deferred p = ds"
  then show "ran before [] ds (return_main env p)"
    using run_deferred_calls [of ds env "p\<lparr>pr_deferred := []\<rparr>"] by (auto simp: return_main_def ran_def)
qed

lemma runs_serve [runs_intro]:
  "runs (before @ [(ServeUntilSignal (port_addr port), True)]) ds musts closes k \<Longrightarrow>
    runs before ds (ServeUntilSignal (port_addr port) # musts) closes (serve env name port k)"
  unfolding serve_def by (intro runs_intro)

lemma ran_with_config:
  assumes "Load getenv = Inr cfg" and "runs [] [] musts closes (k cfg)"
  shows "ran [] musts closes (with_config getenv logger k (new_process b))"
  using assms by (simp add: with_config_def runs_def new_process_def)

text \<open>The calls that have to succeed, and the calls of an orderly end.\<close>

definition proxy_musts :: "Config \<Rightarrow> proc_call list" where
  "proxy_musts cfg = [NewPool (cfg_PostgresDSN cfg), PingPool, ParseRedisURL (cfg_RedisURL cfg),
    ConnectPublisher (cfg_RabbitMQURL cfg) 2048, ServeUntilSignal (port_addr (cfg_ProxyPort cfg)), ShutdownServer]"

definition admin_musts :: "Config \<Rightarrow> proc_call list" where
  "admin_musts cfg = [NewPool (cfg_PostgresDSN cfg), PingPool, ParseRedisURL (cfg_RedisURL cfg),
    ServeUntilSignal (port_addr (cfg_AdminAPIPort cfg)), ShutdownServer]"

definition worker_musts :: "Config \<Rightarrow> proc_call list" where
  "worker_musts cfg = [NewPool (cfg_PostgresDSN cfg), PingPool, ConnectWriter (cfg_RabbitMQURL cfg), StartWriter,
    ConnectAlerts (cfg_RabbitMQURL cfg), StartAlerts]"

lemma proxy_runs: "Load getenv = Inr cfg \<Longrightarrow>
    ran [] (proxy_musts cfg) [CancelContext, ClosePublisher, CloseRedis, ClosePool] (proxy_main env getenv (new_process b))"
  unfolding proxy_main_def proxy_musts_def by (rule ran_with_config, assumption) (intro runs_intro)

lemma admin_runs: "Load getenv = Inr cfg \<Longrightarrow>
    ran [] (admin_musts cfg) [CancelContext, CloseRedis, ClosePool] (admin_main env getenv (new_process b))"
  unfolding admin_main_def admin_musts_def by (rule ran_with_config, assumption) (intro runs_intro)

lemma worker_runs: "Load getenv = Inr cfg \<Longrightarrow>
    ran [] (worker_musts cfg) [AwaitSignal, StopWriter, StopAlerts, CancelContext, StopAlerts, StopWriter, ClosePool]
      (worker_main env getenv (new_process b))"
  unfolding worker_main_def worker_musts_def by (rule ran_with_config, assumption) (intro runs_intro)

lemma mock_runs: "ran [] [ListenAndServe (mock_addr getenv)] [] (mock_main env getenv (new_process b))"
proof -
  have "runs [] [] [ListenAndServe (mock_addr getenv)] [] (mock_main env getenv)"
    unfolding mock_main_def by (intro runs_intro)
  then show ?thesis by (simp add: runs_def new_process_def)
qed

text \<open>C22: how the programs start and end. When the configuration cannot be loaded, the process panics before
  any call. Otherwise it makes its calls in order; at the first one that fails it exits with status 1, and no
  deferred call runs. When all succeed it returns, after the closing calls in the reverse order of their \<^verbatim>\<open>defer\<close>
  statements: the proxy closes the publisher, then Redis, then the pool; the worker stops each consumer twice. The mock
  server only listens, and exits with status 1 when that fails.\<close>

theorem startup_and_exit:
  "(case Load getenv of
     Inl e \<Rightarrow> proxy_main penv getenv (new_process b) = (Panic e, new_process b) \<and>
       admin_main aenv getenv (new_process b) = (Panic e, new_process b) \<and>
       worker_main wenv getenv (new_process b) = (Panic e, new_process b)
   | Inr cfg \<Rightarrow>
       ran [] (proxy_musts cfg) [CancelContext, ClosePublisher, CloseRedis, ClosePool] (proxy_main penv getenv (new_process b)) \<and>
       ran [] (admin_musts cfg) [CancelContext, CloseRedis, ClosePool] (admin_main aenv getenv (new_process b)) \<and>
       ran [] (worker_musts cfg) [AwaitSignal, StopWriter, StopAlerts, CancelContext, StopAlerts, StopWriter, ClosePool]
         (worker_main wenv getenv (new_process b))) \<and>
    ran [] [ListenAndServe (mock_addr getenv)] [] (mock_main menv getenv (new_process b))"
proof (cases "Load getenv")
  case (Inl e)
  then show ?thesis using mock_runs by (simp add: proxy_main_def admin_main_def worker_main_def with_config_def)
next
  case (Inr cfg)
  then show ?thesis using mock_runs by (simp add: proxy_runs [OF Inr] admin_runs [OF Inr] worker_runs [OF Inr])
qed

section \<open>The start of the worker on its broker\<close>

text \<open>The environment of the worker over a broker: the calls of \<^verbatim>\<open>worker_start\<close> and \<^verbatim>\<open>worker_stop\<close>.\<close>

definition worker_env :: "'b broker \<Rightarrow> bool \<Rightarrow> bool \<Rightarrow> 'b environment" where
  "worker_env br pool_ok ping_ok c b = (case c of
      NewPool dsn \<Rightarrow> (pool_ok, b)
    | PingPool \<Rightarrow> (ping_ok, b)
    | ConnectWriter url \<Rightarrow> (case NewWriter br b of (f, b') \<Rightarrow> (f = None, b'))
    | StartWriter \<Rightarrow> Writer_Start br b
    | StopWriter \<Rightarrow> (case Writer_Stop br b of (f, b') \<Rightarrow> (f = None, b'))
    | ConnectAlerts url \<Rightarrow> (case NewAlertConsumer br b of (f, b') \<Rightarrow> (f = None, b'))
    | StartAlerts \<Rightarrow> Alert_Start br b
    | StopAlerts \<Rightarrow> (case Alert_Stop br b of (f, b') \<Rightarrow> (f = None, b'))
    | _ \<Rightarrow> (True, b))"

text \<open>A program that starts as \<open>start\<close> says: it exits in the state of the failure, or it goes on to its return.\<close>

definition starts :: "('b \<Rightarrow> 'f option \<times> 'b) \<Rightarrow> 'b main_code \<Rightarrow> bool" where
  "starts start k \<longleftrightarrow> (\<forall>p. case start (pr_world p) of
      (Some f, b) \<Rightarrow> fst (k p) = Exit 1 \<and> pr_world (snd (k p)) = b
    | (None, b) \<Rightarrow> fst (k p) = Return)"

lemma starts_via: "starts start k \<Longrightarrow> (\<And>p. pr_world (h p) = pr_world p) \<Longrightarrow> starts start (\<lambda>p. k (h p))"
  unfolding starts_def by metis

lemma starts_info: "starts start k \<Longrightarrow> starts start (info msg k)"
  unfolding info_def by (erule starts_via) (simp add: log_line_at_def)

lemma starts_deferring: "starts start k \<Longrightarrow> starts start (deferring c k)"
  unfolding deferring_def by (erule starts_via) simp

lemma starts_must:
  assumes "starts start' k"
    and "\<And>b b'. env c b = (True, b') \<Longrightarrow> start b = start' b'"
    and "\<And>b b'. env c b = (False, b') \<Longrightarrow> \<exists>f. start b = (Some f, b')"
  shows "starts start (must env c msg k)"
  unfolding starts_def
proof
  fix p :: "'a process"
  obtain ok b' where env: "env c (pr_world p) = (ok, b')" by fastforce
  let ?p = "p\<lparr>pr_world := b', pr_calls := pr_calls p @ [(c, ok)]\<rparr>"
  have must: "must env c msg k p = (if ok then k ?p else (Exit 1, log_line_at LevelError msg ?p))"
    by (simp add: must_def perform_def env)
  show "case start (pr_world p) of
      (Some f, b) \<Rightarrow> fst (must env c msg k p) = Exit 1 \<and> pr_world (snd (must env c msg k p)) = b
    | (None, b) \<Rightarrow> fst (must env c msg k p) = Return"
  proof (cases ok)
    case True
    then have "start (pr_world p) = start' (pr_world ?p)" using assms(2) env by simp
    moreover have "must env c msg k p = k ?p" using must True by simp
    ultimately show ?thesis using assms(1) [unfolded starts_def, rule_format, of ?p] by metis
  next
    case False
    then obtain f where "start (pr_world p) = (Some f, b')" using assms(3) [of "pr_world p" b'] env by auto
    with False show ?thesis by (simp add: must log_line_at_def)
  qed
qed

lemma starts_ready: "(\<And>p. fst (k p) = Return) \<Longrightarrow> starts (\<lambda>b. (None, b)) k"
  by (simp add: starts_def)

lemma worker_main_starts:
  assumes "Load getenv = Inr cfg"
  shows "starts (worker_start br pool_ok ping_ok) (worker_main (worker_env br pool_ok ping_ok) getenv)"
proof -
  let ?env = "worker_env br pool_ok ping_ok"
  let ?alert_start = "\<lambda>b. case Alert_Start br b of (ok, b4) \<Rightarrow> (if ok then None else Some AlertStart, b4)"
  let ?alert = "\<lambda>b. case NewAlertConsumer br b of (Some c, b3) \<Rightarrow> (Some (AlertInit c), b3) | (None, b3) \<Rightarrow> ?alert_start b3"
  let ?start = "\<lambda>b. case Writer_Start br b of (ok, b2) \<Rightarrow> if \<not> ok then (Some WriterStart, b2) else ?alert b2"
  let ?writer = "\<lambda>b. case NewWriter br b of (Some c, b1) \<Rightarrow> (Some (WriterInit c), b1) | (None, b1) \<Rightarrow> ?start b1"
  have config: "starts s (with_config getenv worker_newLogger k)" if "starts s (k cfg)" for s :: "'a \<Rightarrow> worker_failure option \<times> 'a" and k
    unfolding with_config_def using assms starts_via [OF that, of "\<lambda>p. p\<lparr>pr_level := worker_newLogger (cfg_LogLevel cfg)\<rparr>"]
    by simp
  show ?thesis
    unfolding worker_main_def
    apply (rule config, rule starts_info)
    apply (rule starts_must [of "\<lambda>b. if ping_ok then ?writer b else (Some PingFailed, b)"], rule starts_deferring)
      apply (rule starts_must [of ?writer], rule starts_info)
        apply (rule starts_must [of ?start], rule starts_deferring)
          apply (rule starts_must [of ?alert])
            apply (rule starts_must [of ?alert_start], rule starts_deferring)
              apply (rule starts_must [of "\<lambda>b. (None, b)"])
                apply (rule starts_info, rule starts_ready)
    by (auto simp: worker_env_def worker_start_def info_def ignoring_def deferring_def return_main_def split: prod.splits option.splits)
qed

section \<open>The end of the proxy\<close>

datatype phase = Serving | Stopping | Closing | Ended nat

text \<open>\<open>pp_handlers\<close> counts the requests in flight that have not called \<open>Publish\<close> yet; those inside \<open>Publish\<close> are in
  \<open>rb_checked\<close>. A handler publishes at most once, as its last step.\<close>

record proxy_process =
  pp_phase :: phase
  pp_handlers :: nat
  pp_pub :: rabbit

definition running :: "proxy_process \<Rightarrow> bool" where
  "running s \<longleftrightarrow> (\<forall>n. pp_phase s \<noteq> Ended n)"

inductive proc_step :: "proxy_process \<Rightarrow> proxy_process \<Rightarrow> bool" where
  accept: "pp_phase s = Serving \<Longrightarrow> proc_step s (s\<lparr>pp_handlers := Suc (pp_handlers s)\<rparr>)"
| finish: "running s \<Longrightarrow> pp_handlers s = Suc n \<Longrightarrow> proc_step s (s\<lparr>pp_handlers := n\<rparr>)"
| check_flag: "running s \<Longrightarrow> pp_handlers s = Suc n \<Longrightarrow> \<not> rb_done (pp_pub s) \<Longrightarrow>
    proc_step s (s\<lparr>pp_handlers := n, pp_pub := (pp_pub s)\<lparr>rb_checked := rb_checked (pp_pub s) @ [e]\<rparr>\<rparr>)"
| put_event: "running s \<Longrightarrow> rb_checked (pp_pub s) = xs @ e # ys \<Longrightarrow>
    enqueue e ((pp_pub s)\<lparr>rb_checked := xs @ ys\<rparr>) = (r, p) \<Longrightarrow> proc_step s (s\<lparr>pp_pub := p\<rparr>)"
| work: "running s \<Longrightarrow> worker_take (pp_pub s) = Some p \<or> worker_return (pp_pub s) = Some p \<Longrightarrow> proc_step s (s\<lparr>pp_pub := p\<rparr>)"
| signal: "pp_phase s = Serving \<Longrightarrow> proc_step s (s\<lparr>pp_phase := Stopping\<rparr>)"
| server_error: "pp_phase s = Serving \<Longrightarrow> proc_step s (s\<lparr>pp_phase := Ended 1\<rparr>)"
| timeout: "pp_phase s = Stopping \<Longrightarrow> proc_step s (s\<lparr>pp_phase := Ended 1\<rparr>)"
| shut_down: "pp_phase s = Stopping \<Longrightarrow> pp_handlers s = 0 \<Longrightarrow> rb_checked (pp_pub s) = [] \<Longrightarrow>
    proc_step s (s\<lparr>pp_phase := Closing, pp_pub := Close_begin (pp_pub s)\<rparr>)"
| close_returns: "pp_phase s = Closing \<Longrightarrow> rb_stopped (pp_pub s) \<Longrightarrow> proc_step s (s\<lparr>pp_phase := Ended 0\<rparr>)"

inductive_cases proc_stepE [elim]: "proc_step s s'"

definition proc_start :: proxy_process where
  "proc_start = \<lparr>pp_phase = Serving, pp_handlers = 0, pp_pub = new_rabbit 2048\<rparr>"

inductive proc_reachable :: "proxy_process \<Rightarrow> bool" where
  start: "proc_reachable proc_start"
| step: "proc_reachable s \<Longrightarrow> proc_step s s' \<Longrightarrow> proc_reachable s'"

text \<open>\<^verbatim>\<open>Close\<close> begins only when no handler is left.\<close>

definition proc_inv :: "proxy_process \<Rightarrow> bool" where
  "proc_inv s \<longleftrightarrow> rb_reachable 2048 (pp_pub s) \<and>
    (case pp_phase s of
      Closing \<Rightarrow> rb_done (pp_pub s) \<and> pp_handlers s = 0 \<and> rb_checked (pp_pub s) = [] \<and> rb_late (pp_pub s) = []
    | Ended n \<Rightarrow> n = 0 \<longrightarrow> rb_stopped (pp_pub s) \<and> rb_late (pp_pub s) = []
    | _ \<Rightarrow> \<not> rb_done (pp_pub s))"

lemma not_done_running: "rb_reachable n p \<Longrightarrow> \<not> rb_done p \<Longrightarrow> \<not> rb_stopped p \<and> rb_late p = []"
  using rb_inv_reachable [of n p] by (auto simp: rb_inv_def split: if_splits)

lemma proc_step_pub:
  assumes "proc_step s s'"
  shows "pp_pub s' = pp_pub s \<or> rb_step (pp_pub s) (pp_pub s') \<or> pp_phase s = Stopping \<and> pp_phase s' = Closing \<and> pp_pub s' = Close_begin (pp_pub s)"
  using assms by cases (auto intro: rb_step.intros)

lemma proc_inv_step:
  assumes "proc_step s s'" and "proc_inv s"
  shows "proc_inv s'"
proof -
  have reach: "rb_reachable 2048 (pp_pub s)" using assms(2) by (simp add: proc_inv_def)
  have "rb_step (pp_pub s) (Close_begin (pp_pub s))" if "pp_phase s = Stopping"
    using assms(2) that by (intro rb_step.close) (simp add: proc_inv_def)
  then have reach': "rb_reachable 2048 (pp_pub s')"
    using proc_step_pub [OF assms(1)] rb_reachable.step [OF reach] reach by auto
  from assms(1) show ?thesis
  proof cases
    case (put_event xs e ys r p)
    then show ?thesis using assms(2) reach'
      by (cases "pp_phase s") (auto simp: proc_inv_def running_def enqueue_def split: if_splits)
  next
    case (work p)
    then show ?thesis using assms(2) reach'
      by (cases "pp_phase s")
        (auto simp: proc_inv_def running_def worker_take_def worker_return_def split: if_splits list.splits)
  next
    case shut_down
    then have "rb_late (pp_pub s) = []"
      using assms(2) not_done_running [OF reach] by (simp add: proc_inv_def)
    then show ?thesis using shut_down reach' by (simp add: proc_inv_def Close_begin_def)
  qed (use assms(2) reach' in \<open>auto simp: proc_inv_def running_def split: phase.splits\<close>)
qed

lemma proc_reachable_inv: "proc_reachable s \<Longrightarrow> proc_inv s"
proof (induction rule: proc_reachable.induct)
  case start
  show ?case by (simp add: proc_inv_def proc_start_def rb_reachable.start) (simp add: new_rabbit_def)
next
  case (step s s')
  then show ?case using proc_inv_step by blast
qed

section \<open>What an end of the proxy leaves\<close>

definition proc_work :: "proxy_process \<Rightarrow> nat" where
  "proc_work s = (case pp_phase s of Closing \<Rightarrow> Suc (rb_work (pp_pub s)) | _ \<Rightarrow> 0)"

lemma ended_stays: "pp_phase s = Ended n \<Longrightarrow> \<not> proc_step s s'"
  by (auto simp: running_def)

lemma closing_step:
  assumes "proc_step s s'" and "proc_inv s" and "pp_phase s = Closing"
  shows "proc_work s' < proc_work s \<and> pp_phase s' \<in> {Closing, Ended 0}"
  using assms(1)
proof cases
  case (work p)
  then have "rb_step (pp_pub s) p" by (auto intro: rb_step.intros)
  moreover have "rb_done (pp_pub s)" using assms(2,3) by (simp add: proc_inv_def)
  ultimately have "rb_work p < rb_work (pp_pub s)" by (rule closed_work)
  then show ?thesis using work assms(3) by (simp add: proc_work_def)
qed (use assms in \<open>auto simp: proc_inv_def proc_work_def\<close>)

lemma closing_steps:
  "(proc_step ^^ k) s s' \<Longrightarrow> proc_reachable s \<Longrightarrow> pp_phase s \<in> {Closing, Ended 0} \<Longrightarrow>
    k + proc_work s' \<le> proc_work s \<and> proc_reachable s' \<and> pp_phase s' \<in> {Closing, Ended 0}"
proof (induction k arbitrary: s')
  case (Suc k)
  then obtain q where q: "(proc_step ^^ k) s q" and step: "proc_step q s'" by auto
  from Suc.IH [OF q Suc.prems(2,3)] have IH: "k + proc_work q \<le> proc_work s" "proc_reachable q" "pp_phase q \<in> {Closing, Ended 0}"
    by simp_all
  then have "pp_phase q = Closing" using ended_stays [of q 0 s'] step by blast
  with closing_step [OF step proc_reachable_inv [OF IH(2)]] IH proc_reachable.step [OF IH(2) step] show ?case by simp
qed simp

lemma closing_goes_on:
  assumes "proc_inv s" and "pp_phase s = Closing"
  shows "\<exists>s'. proc_step s s'"
proof (cases "rb_stopped (pp_pub s)")
  case True
  then show ?thesis using assms(2) proc_step.close_returns by blast
next
  case False
  then have "worker_take (pp_pub s) \<noteq> None \<or> worker_return (pp_pub s) \<noteq> None"
    using assms by (cases "rb_queue (pp_pub s)") (simp_all add: proc_inv_def worker_take_def worker_return_def)
  moreover have "running s" using assms(2) by (simp add: running_def)
  ultimately show ?thesis using proc_step.work by blast
qed

text \<open>C20: an orderly end of the proxy loses no audit event. In every interleaving of requests, the worker of the
  publisher and the shutdown, a process that has ended with status 0 has sent every event that it accepted: the
  race between \<open>Publish\<close> and \<open>Close\<close> cannot occur in it, because \<^verbatim>\<open>Shutdown\<close> waits for the handlers. And once
  \<open>Close\<close> has begun, the process ends: it can always make a step, and it makes at most one for each buffered event
  and two more.\<close>

theorem orderly_shutdown_loses_nothing:
  assumes "proc_reachable s"
  shows "(pp_phase s = Ended 0 \<longrightarrow> rb_sent (pp_pub s) = rb_accepted (pp_pub s)) \<and>
    (pp_phase s = Closing \<longrightarrow> (\<exists>s'. proc_step s s') \<and>
      (\<forall>k s'. (proc_step ^^ k) s s' \<longrightarrow> k \<le> length (rb_queue (pp_pub s)) + 2))"
proof -
  have inv: "proc_inv s" by (rule proc_reachable_inv [OF assms])
  have sent: "rb_sent (pp_pub s) = rb_accepted (pp_pub s)" if "pp_phase s = Ended 0"
    using inv that rb_inv_reachable [of 2048 "pp_pub s"] by (auto simp: proc_inv_def rb_inv_def split: if_splits)
  have "k \<le> length (rb_queue (pp_pub s)) + 2" if "pp_phase s = Closing" "(proc_step ^^ k) s s'" for k s'
  proof -
    have "k \<le> proc_work s" using closing_steps [OF that(2) assms] that(1) by simp
    moreover have "rb_checked (pp_pub s) = []" using inv that(1) by (simp add: proc_inv_def)
    ultimately show ?thesis using that(1) by (auto simp: proc_work_def rb_work_def split: if_splits)
  qed
  with sent closing_goes_on [OF inv] show ?thesis by blast
qed

text \<open>A run for the witness: one request is published, the signal comes, and the process ends.\<close>

definition serving :: "Event list \<Rightarrow> Event list \<Rightarrow> proxy_process" where
  "serving checked buffered = proc_start\<lparr>pp_pub :=
    (new_rabbit 2048)\<lparr>rb_checked := checked, rb_queue := buffered, rb_accepted := buffered\<rparr>\<rparr>"

lemma serving_steps:
  "proc_step proc_start (proc_start\<lparr>pp_handlers := 1\<rparr>)"
  "proc_step (proc_start\<lparr>pp_handlers := 1\<rparr>) (serving [e] [])"
  "proc_step (serving [e] []) (serving [] [e])"
proof -
  show "proc_step proc_start (proc_start\<lparr>pp_handlers := 1\<rparr>)"
    using proc_step.accept [of proc_start] by (simp add: proc_start_def)
  show "proc_step (proc_start\<lparr>pp_handlers := 1\<rparr>) (serving [e] [])"
    using proc_step.check_flag [of "proc_start\<lparr>pp_handlers := 1\<rparr>" 0 e]
    by (simp add: proc_start_def running_def new_rabbit_def serving_def)
  show "proc_step (serving [e] []) (serving [] [e])"
    using proc_step.put_event [of "serving [e] []" "[]" e "[]" None "pp_pub (serving [] [e])"]
    by (simp add: proc_start_def running_def new_rabbit_def enqueue_def serving_def)
qed

definition published :: proxy_process where
  "published = serving [] [demo_event]"

lemma published_reachable: "proc_reachable published"
  unfolding published_def
  by (rule proc_reachable.step [OF proc_reachable.step [OF proc_reachable.step [OF proc_reachable.start]]])
    (rule serving_steps)+

definition ended :: proxy_process where
  "ended = \<lparr>pp_phase = Ended 0, pp_handlers = 0, pp_pub = (new_rabbit 2048)\<lparr>rb_done := True, rb_stopped := True,
    rb_sent := [demo_event], rb_accepted := [demo_event]\<rparr>\<rparr>"

lemma ended_reachable: "proc_reachable ended"
proof -
  let ?p1 = "(new_rabbit 2048)\<lparr>rb_queue := [demo_event], rb_accepted := [demo_event], rb_done := True\<rparr>"
  let ?p2 = "(new_rabbit 2048)\<lparr>rb_sent := [demo_event], rb_accepted := [demo_event], rb_done := True\<rparr>"
  let ?p3 = "?p2\<lparr>rb_stopped := True\<rparr>"
  let ?s1 = "published\<lparr>pp_phase := Stopping\<rparr>"
  let ?s2 = "\<lambda>p. \<lparr>pp_phase = Closing, pp_handlers = 0, pp_pub = p\<rparr>"
  have 1: "proc_step published ?s1"
    by (rule proc_step.signal) (simp add: published_def serving_def proc_start_def)
  have 2: "proc_step ?s1 (?s2 ?p1)"
    using proc_step.shut_down [of ?s1] by (simp add: published_def serving_def proc_start_def Close_begin_def new_rabbit_def)
  have 3: "proc_step (?s2 ?p1) (?s2 ?p2)"
    using proc_step.work [of "?s2 ?p1" ?p2] by (simp add: running_def worker_take_def new_rabbit_def)
  have 4: "proc_step (?s2 ?p2) (?s2 ?p3)"
    using proc_step.work [of "?s2 ?p2" ?p3] by (simp add: running_def worker_return_def new_rabbit_def)
  have 5: "proc_step (?s2 ?p3) ended"
    using proc_step.close_returns [of "?s2 ?p3"] by (simp add: ended_def new_rabbit_def)
  note r = proc_reachable.step
  show ?thesis by (rule r [OF r [OF r [OF r [OF r [OF published_reachable 1] 2] 3] 4] 5])
qed

theorem orderly_shutdown_loses_nothing_witness:
  "rb_sent (pp_pub ended) = rb_accepted (pp_pub ended) \<and> rb_accepted (pp_pub ended) = [demo_event]"
  using orderly_shutdown_loses_nothing [OF ended_reachable] by (simp add: ended_def new_rabbit_def)

text \<open>An end by the timeout of \<^verbatim>\<open>Shutdown\<close> skips the deferred \<open>Close\<close>: what is in the buffer then is lost.\<close>

theorem timeout_loses_events:
  "\<exists>s. proc_reachable s \<and> pp_phase s = Ended 1 \<and> demo_event \<in> set (rb_accepted (pp_pub s)) \<and>
    demo_event \<notin> set (rb_sent (pp_pub s)) \<and> (\<nexists>s'. proc_step s s')"
proof -
  let ?s1 = "published\<lparr>pp_phase := Stopping\<rparr>"
  let ?s2 = "published\<lparr>pp_phase := Ended 1\<rparr>"
  have 1: "proc_step published ?s1"
    by (rule proc_step.signal) (simp add: published_def serving_def proc_start_def)
  have 2: "proc_step ?s1 ?s2"
    using proc_step.timeout [of ?s1] by simp
  have "proc_reachable ?s2" by (rule proc_reachable.step [OF proc_reachable.step [OF published_reachable 1] 2])
  moreover have "\<not> proc_step ?s2 s'" for s' by (rule ended_stays) simp
  ultimately show ?thesis
    by (intro exI [of _ ?s2]) (simp add: published_def serving_def proc_start_def new_rabbit_def)
qed

section \<open>The proxy as it is put together\<close>

lemma proxy_gateway_deployed:
  "uuid_scanner scan \<Longrightarrow> deployed_on rdb pg (proxy_gateway pg rdb zdb getenv url_ok http publish scan f64 quoted json_error forward_error)"
  by (simp add: deployed_on_def proxy_gateway_def NewTokenManager_def)

end
