(* ===== verification/Pipeline.thy ===== *)
theory Pipeline
  imports Lifecycle Proxy_Types
begin

text \<open>
  The audit trail from end to end: the handlers of the proxy, its publisher, the broker, and the worker that writes the
  audit log, put together as one step relation (\<open>pl_step\<close>). The proxy makes the steps of \<open>proc_step\<close>, the worker
  those of \<open>wk_step\<close>, and the two meet in \<open>send\<close>, which gives the message of an event to the broker.
\<close>

section \<open>The steps\<close>

text \<open>\<open>pl_lost\<close> is a ghost: the events whose \<open>send\<close> failed, which the publisher only logs.\<close>

record 'b pipeline =
  pl_proxy :: proxy_process
  pl_worker :: "'b worker_sys"
  pl_lost :: "Event list"

abbreviation pl_pub :: "'b pipeline \<Rightarrow> rabbit" where
  "pl_pub s \<equiv> pp_pub (pl_proxy s)"

text \<open>The events that the handler hands over to \<open>Publish\<close>, for requests with a fresh event id. The publisher of the gateway is the
  one that records them.\<close>

definition handed_over :: "('r, 'z, 'd, 'w, Event list) gateway \<Rightarrow> Event \<Rightarrow> bool" where
  "handed_over g e \<longleftrightarrow> (\<exists>mo inp w. mo_fresh mo \<noteq> [] \<and> w_pub (snd (proxy_handler g mo inp w)) = w_pub w @ [e])"

inductive pl_step ::
  "(Event \<Rightarrow> bool) \<Rightarrow> clock \<Rightarrow> (string \<Rightarrow> uuid option) \<Rightarrow> pg \<Rightarrow> ('b \<Rightarrow> string multiset) \<Rightarrow> ('b \<Rightarrow> string multiset) \<Rightarrow>
    (disposition \<Rightarrow> string \<Rightarrow> 'b \<Rightarrow> 'b) \<Rightarrow> 'b pipeline \<Rightarrow> 'b pipeline \<Rightarrow> bool"
  for emits clk scan pg pending dead settle where
  proxy: "proc_step (pl_proxy s) p \<Longrightarrow> rb_sent (pp_pub p) = rb_sent (pl_pub s) \<Longrightarrow>
    \<forall>e \<in> set (rb_checked (pp_pub p)) - set (rb_checked (pl_pub s)). emits e \<Longrightarrow>
    pl_step emits clk scan pg pending dead settle s (s\<lparr>pl_proxy := p\<rparr>)"
| send: "running (pl_proxy s) \<Longrightarrow> worker_take (pl_pub s) = Some p \<Longrightarrow> rb_queue (pl_pub s) = e # q \<Longrightarrow>
    send_message clk e = Some (exch, key, mid, m) \<Longrightarrow>
    pending b = pending (ws_broker (pl_worker s)) + {#m#} \<Longrightarrow> dead b = dead (ws_broker (pl_worker s)) \<Longrightarrow>
    pl_step emits clk scan pg pending dead settle s
      (s\<lparr>pl_proxy := (pl_proxy s)\<lparr>pp_pub := p\<rparr>,
         pl_worker := (pl_worker s)\<lparr>ws_broker := b, ws_published := m # ws_published (pl_worker s)\<rparr>\<rparr>)"
| send_fails: "running (pl_proxy s) \<Longrightarrow> worker_take (pl_pub s) = Some p \<Longrightarrow> rb_queue (pl_pub s) = e # q \<Longrightarrow>
    pl_step emits clk scan pg pending dead settle s
      (s\<lparr>pl_proxy := (pl_proxy s)\<lparr>pp_pub := p\<rparr>, pl_lost := e # pl_lost s\<rparr>)"
| worker: "wk_step clk scan pg pending dead settle (pl_worker s) w \<Longrightarrow> ws_published w = ws_published (pl_worker s) \<Longrightarrow>
    pl_step emits clk scan pg pending dead settle s (s\<lparr>pl_worker := w\<rparr>)"

inductive pl_reachable ::
  "(Event \<Rightarrow> bool) \<Rightarrow> clock \<Rightarrow> (string \<Rightarrow> uuid option) \<Rightarrow> pg \<Rightarrow> ('b \<Rightarrow> string multiset) \<Rightarrow> ('b \<Rightarrow> string multiset) \<Rightarrow>
    (disposition \<Rightarrow> string \<Rightarrow> 'b \<Rightarrow> 'b) \<Rightarrow> 'b pipeline \<Rightarrow> bool"
  for emits clk scan pg pending dead settle where
  start: "pending b = {#} \<Longrightarrow> dead b = {#} \<Longrightarrow>
    pl_reachable emits clk scan pg pending dead settle
      \<lparr>pl_proxy = proc_start, pl_worker = \<lparr>ws_broker = b, ws_db = d, ws_published = []\<rparr>, pl_lost = []\<rparr>"
| step: "pl_reachable emits clk scan pg pending dead settle s \<Longrightarrow> pl_step emits clk scan pg pending dead settle s s' \<Longrightarrow>
    pl_reachable emits clk scan pg pending dead settle s'"

section \<open>The invariant\<close>

text \<open>Every event that the publisher has taken from its buffer is lost, or its message went to the broker; and every event in
  the publisher came from a handler.\<close>

definition on_its_way :: "clock \<Rightarrow> 'b pipeline \<Rightarrow> Event \<Rightarrow> bool" where
  "on_its_way clk s e \<longleftrightarrow> e \<in> set (pl_lost s) \<or>
    (\<exists>m. event_text clk e = Some m \<and> m \<in> set (ws_published (pl_worker s)))"

definition pl_inv :: "(Event \<Rightarrow> bool) \<Rightarrow> clock \<Rightarrow> 'b pipeline \<Rightarrow> bool" where
  "pl_inv emits clk s \<longleftrightarrow> (\<forall>e \<in> set (rb_sent (pl_pub s)). on_its_way clk s e) \<and>
    (\<forall>e \<in> set (rb_checked (pl_pub s)) \<union> set (rb_accepted (pl_pub s)). emits e)"

lemma taken: "worker_take p = Some p' \<Longrightarrow> rb_queue p = e # q \<Longrightarrow> p' = p\<lparr>rb_queue := q, rb_sent := rb_sent p @ [e]\<rparr>"
  by (auto simp: worker_take_def split: if_splits)

lemma proc_accepts:
  assumes "proc_step s s'"
  shows "set (rb_accepted (pp_pub s')) \<subseteq> set (rb_accepted (pp_pub s)) \<union> set (rb_checked (pp_pub s))"
  using assms
  by cases (auto simp: enqueue_def worker_take_def worker_return_def Close_begin_def split: if_splits list.splits)

lemma pl_inv_step:
  "pl_step emits clk scan pg pending dead settle s s' \<Longrightarrow> pl_inv emits clk s \<Longrightarrow> pl_inv emits clk s'"
proof (induction rule: pl_step.induct)
  case (proxy s p)
  then show ?case using proc_accepts [OF proxy(1)] by (fastforce simp: pl_inv_def on_its_way_def)
next
  case (send s p e q exch key mid m b)
  then show ?case using taken [OF send(2,3)]
    by (auto simp: pl_inv_def on_its_way_def send_message_def)
next
  case (send_fails s p e q)
  then show ?case using taken [OF send_fails(2,3)] by (auto simp: pl_inv_def on_its_way_def)
next
  case (worker s w)
  then show ?case by (simp add: pl_inv_def on_its_way_def)
qed

lemma pl_parts_step:
  "pl_step emits clk scan pg pending dead settle s s' \<Longrightarrow>
    (pl_proxy s' = pl_proxy s \<or> proc_step (pl_proxy s) (pl_proxy s')) \<and>
    (pl_worker s' = pl_worker s \<or> wk_step clk scan pg pending dead settle (pl_worker s) (pl_worker s'))"
proof (induction rule: pl_step.induct)
  case (send s p e q exch key mid m b)
  then show ?case using wk_step.publish [of pending b "pl_worker s" m dead] proc_step.work [of "pl_proxy s" p] by simp
next
  case (send_fails s p e q)
  then show ?case using proc_step.work [of "pl_proxy s" p] by simp
qed simp_all

text \<open>A run of the pipeline is a run of each of its parts.\<close>

lemma pl_reachable_parts:
  "pl_reachable emits clk scan pg pending dead settle s \<Longrightarrow>
    pl_inv emits clk s \<and> proc_reachable (pl_proxy s) \<and> wk_reachable clk scan pg pending dead settle (pl_worker s)"
proof (induction rule: pl_reachable.induct)
  case (start b d)
  then show ?case
    using proc_reachable.start wk_reachable.init
    by (auto simp: pl_inv_def proc_start_def new_rabbit_def)
next
  case (step s s')
  then show ?case
    using pl_inv_step [OF step(2)] pl_parts_step [OF step(2)] proc_reachable.step wk_reachable.step by metis
qed

lemma handed_over_event:
  assumes "number_codec (gw_f64 g)" and "gw_publish g = Memory_Publish" and "gw_scan g [] = None" and "handed_over g e"
  shows "event_typed e \<and> Validate_event e = None"
proof -
  obtain mo inp w where mo: "mo_fresh mo \<noteq> []" and e: "w_pub (snd (proxy_handler g mo inp w)) = w_pub w @ [e]"
    using assms(4) by (auto simp: handed_over_def)
  obtain out w' where run: "proxy_handler g mo inp w = (out, w')" by fastforce
  with handler_types [OF assms(1) run] e mo assms(2,3) show ?thesis by (auto simp: Memory_Publish_def)
qed

section \<open>The property\<close>

text \<open>C4: the audit trail holds from end to end. In every interleaving of requests, the publisher, the broker, the
  worker and the shutdown, an event of a handler that \<open>Publish\<close> accepted is still in the buffer of the publisher, or
  its \<open>send\<close> failed; or else it was published as a text that the worker takes for a valid event, and this text waits
  at the broker or the event, as JSON keeps it, has its row in the audit log. After an orderly end of the proxy the
  buffer is empty.\<close>

theorem accepted_events_reach_the_log:
  assumes "amqp_queue pending dead settle" and "clock_ok clk"
    and "number_codec (gw_f64 g)" and "gw_publish g = Memory_Publish" and "gw_scan g [] = None"
    and "pl_reachable (handed_over g) clk scan pg pending dead settle s"
    and "e \<in> set (rb_accepted (pl_pub s))"
  shows "(e \<in> set (rb_queue (pl_pub s)) \<and> pp_phase (pl_proxy s) \<noteq> Ended 0) \<or> e \<in> set (pl_lost s) \<or>
    (\<exists>m. event_text clk e = Some m \<and> valid_event clk m (reread_event e) \<and>
      (m \<in># pending (ws_broker (pl_worker s)) \<or> persisted scan (reread_event e) (log_of (ws_db (pl_worker s)))))"
proof -
  note parts = pl_reachable_parts [OF assms(6)]
  from parts have inv: "proc_inv (pl_proxy s)" by (auto intro: proc_reachable_inv)
  then have split: "rb_accepted (pl_pub s) = rb_sent (pl_pub s) @ rb_queue (pl_pub s)"
    using rb_inv_reachable [of 2048 "pl_pub s"] by (simp add: proc_inv_def rb_inv_def)
  have empty: "rb_queue (pl_pub s) = []" if "pp_phase (pl_proxy s) = Ended 0"
    using inv that rb_inv_reachable [of 2048 "pl_pub s"] by (auto simp: proc_inv_def rb_inv_def split: if_splits)
  from parts assms(7) have "handed_over g e" by (auto simp: pl_inv_def)
  note e = handed_over_event [OF assms(3,4,5) this]
  have arrived: ?thesis if "event_text clk e = Some m" "m \<in> set (ws_published (pl_worker s))" for m
  proof -
    have "valid_event clk m (reread_event e)"
      using event_read [OF assms(2) _ that(1)] valid_reread e by (simp add: valid_event_def)
    then show ?thesis
      using amqp_queue.wk_inv_reachable [OF assms(1)] parts that by (fastforce simp: wk_inv_def)
  qed
  have "e \<in> set (rb_queue (pl_pub s)) \<or> on_its_way clk s e"
    using parts assms(7) split by (auto simp: pl_inv_def)
  then show ?thesis using empty arrived by (auto simp: on_its_way_def)
qed

section \<open>A run\<close>

text \<open>The denied call of the demonstration: its event is published, sent, and waits at the broker.\<close>

lemma demo_denied: "handed_over demo_gateway denied_event"
  using demo_run [of False] demo_denied_pub unfolding handed_over_def
  by (intro exI [of _ demo_moment] exI [of _ demo_in] exI [of _ "demo_world False"])
    (simp add: demo_moment_def demo_world_def format_uuid_def)

definition denied_text :: string where
  "denied_text = the (event_text demo_clock denied_event)"

definition denied_sent :: "(string multiset \<times> string multiset) pipeline" where
  "denied_sent = \<lparr>pl_proxy = proc_start\<lparr>pp_pub := (new_rabbit 2048)\<lparr>rb_accepted := [denied_event], rb_sent := [denied_event]\<rparr>\<rparr>,
    pl_worker = \<lparr>ws_broker = ({#denied_text#}, {#}), ws_db = demo_db True, ws_published = [denied_text]\<rparr>, pl_lost = []\<rparr>"

lemma demo_gateway_parts:
  "number_codec (gw_f64 demo_gateway)" "gw_publish demo_gateway = Memory_Publish" "gw_scan demo_gateway [] = None"
  using demo_f64_codec by (simp_all add: demo_gateway_def ref_scan_def)

lemma denied_sent_reachable:
  "pl_reachable (handed_over demo_gateway) demo_clock ref_scan demo_pg fst snd mem_settle denied_sent"
proof -
  let ?reach = "pl_reachable (handed_over demo_gateway) demo_clock ref_scan demo_pg fst snd mem_settle"
  let ?step = "pl_step (handed_over demo_gateway) demo_clock ref_scan demo_pg fst snd mem_settle"
  let ?s = "\<lambda>p. \<lparr>pl_proxy = p, pl_worker = \<lparr>ws_broker = ({#}, {#}), ws_db = demo_db True, ws_published = []\<rparr>, pl_lost = []\<rparr>"
  have proxy: "?step (?s p) (?s p')"
    if "proc_step p p'" "rb_sent (pp_pub p') = rb_sent (pp_pub p)"
      "set (rb_checked (pp_pub p')) \<subseteq> insert denied_event (set (rb_checked (pp_pub p)))" for p p'
  proof -
    have "\<forall>e \<in> set (rb_checked (pp_pub p')) - set (rb_checked (pp_pub p)). handed_over demo_gateway e"
      using that(3) demo_denied by blast
    then show ?thesis using pl_step.proxy [of "?s p" p'] that(1,2) by simp
  qed
  have 0: "?reach (?s proc_start)" by (rule pl_reachable.start) simp_all
  have 1: "?step (?s proc_start) (?s (proc_start\<lparr>pp_handlers := 1\<rparr>))"
    by (rule proxy [OF serving_steps(1)]) (simp_all add: proc_start_def new_rabbit_def)
  have 2: "?step (?s (proc_start\<lparr>pp_handlers := 1\<rparr>)) (?s (serving [denied_event] []))"
    by (rule proxy [OF serving_steps(2)]) (simp_all add: serving_def proc_start_def new_rabbit_def)
  have 3: "?step (?s (serving [denied_event] [])) (?s (serving [] [denied_event]))"
    by (rule proxy [OF serving_steps(3)]) (simp_all add: serving_def proc_start_def new_rabbit_def)
  have "time_text demo_clock (event_At denied_event) = Some ''0''"
    by (simp add: denied_event_def event_of_def NewEvent_def demo_moment_def demo_clock_def)
  then have "event_text demo_clock denied_event \<noteq> None"
    using handed_over_event [OF demo_gateway_parts demo_denied] event_text_typed by blast
  then have m: "event_text demo_clock denied_event = Some denied_text" by (auto simp: denied_text_def)
  have sent: "send_message demo_clock denied_event =
      Some (ExchangeAudit, RoutingKey (event_Outcome denied_event), event_ID denied_event, denied_text)"
    by (simp add: send_message_def m)
  have take: "running (serving [] [denied_event])"
    "worker_take (pp_pub (serving [] [denied_event])) = Some (pp_pub (pl_proxy denied_sent))"
    "rb_queue (pp_pub (serving [] [denied_event])) = [denied_event]"
    by (simp_all add: serving_def running_def proc_start_def worker_take_def new_rabbit_def denied_sent_def)
  have "(?s (serving [] [denied_event]))\<lparr>pl_proxy := (serving [] [denied_event])\<lparr>pp_pub := pp_pub (pl_proxy denied_sent)\<rparr>,
      pl_worker := \<lparr>ws_broker = ({#denied_text#}, {#}), ws_db = demo_db True, ws_published = [denied_text]\<rparr>\<rparr> = denied_sent"
    by (simp add: serving_def denied_sent_def)
  then have 4: "?step (?s (serving [] [denied_event])) denied_sent"
    using pl_step.send [of "?s (serving [] [denied_event])" "pp_pub (pl_proxy denied_sent)" denied_event "[]" demo_clock,
        OF _ _ _ sent, of fst "({#denied_text#}, {#})" snd "handed_over demo_gateway" ref_scan demo_pg mem_settle] take
    by simp
  note r = pl_reachable.step
  show ?thesis by (rule r [OF r [OF r [OF r [OF 0 1] 2] 3] 4])
qed

theorem accepted_events_reach_the_log_witness:
  "\<exists>m. event_text demo_clock denied_event = Some m \<and> valid_event demo_clock m (reread_event denied_event)"
  using accepted_events_reach_the_log [OF mem_queue.amqp_queue_axioms demo_clock_ok demo_gateway_parts denied_sent_reachable,
      of denied_event]
  by (auto simp: denied_sent_def proc_start_def new_rabbit_def)

end
