(* ===== verification/Storing.thy ===== *)
theory Storing
  imports Worker_Props Proxy_Types Tool_Results
begin

text \<open>
  When an audit event gets into the log. \<open>writer_decides_exactly\<close> says for every delivery and every store what the
  writer does with it; \<open>proxy_events_are_stored\<close> that an event of the deployed proxy is stored by the first delivery
  that reaches the database, because users and servers are never deleted (\<open>known_steps\<close>).
\<close>

section \<open>Rows that stay\<close>

definition known :: "uuid \<Rightarrow> uuid \<Rightarrow> db \<Rightarrow> bool" where
  "known u s d \<longleftrightarrow> u \<in> user_id ` set (t_users (db_tables d)) \<and> s \<in> srv_id ` set (t_servers (db_tables d))"

lemma ids_of_modified:
  assumes "\<And>r. g (f r) = g r"
  shows "g ` set (modify P f xs) = g ` set xs"
  using map_modify_same [of g f P xs, OF assms] by (metis list.set_map)

lemma known_exec:
  assumes "known u s d"
    and "\<And>e t. user_id ` set (t_users t) \<subseteq> user_id ` set (t_users (snd (q e t)))"
    and "\<And>e t. srv_id ` set (t_servers t) \<subseteq> srv_id ` set (t_servers (snd (q e t)))"
  shows "known u s (snd (exec pg q d))"
  using exec_tables [of pg q d] assms(1) assms(2,3) [of "db_tables d" "pg_env pg (db_calls d)"]
  by (auto simp: known_def)

lemma users_stay:
  "user_id ` set (t_users (snd (CreateUser arg1 e t))) \<supseteq> user_id ` set (t_users t)"
  "user_id ` set (t_users (snd (SetUserActive arg2 e t))) = user_id ` set (t_users t)"
  "user_id ` set (t_users (snd (UpdateUserRole arg3 e t))) = user_id ` set (t_users t)"
  by (auto simp: CreateUser_def SetUserActive_def UpdateUserRole_def Let_def ids_of_modified split: option.split)

lemma servers_stay:
  "srv_id ` set (t_servers (snd (CreateDownstreamServer pg arg1 e t))) \<supseteq> srv_id ` set (t_servers t)"
  "srv_id ` set (t_servers (snd (SetDownstreamServerActive arg2 e t))) = srv_id ` set (t_servers t)"
  "srv_id ` set (t_servers (snd (UpdateToolManifest pg arg3 e t))) = srv_id ` set (t_servers t)"
  "srv_id ` set (t_servers (snd (UpdateDownstreamServer arg4 e t))) = srv_id ` set (t_servers t)"
  by (auto simp: CreateDownstreamServer_def SetDownstreamServerActive_def UpdateToolManifest_def UpdateDownstreamServer_def
      Let_def ids_of_modified server_update_def split: option.split)

text \<open>No statement of the program deletes a user or a server, or changes its id.\<close>

lemma known_step: "db_step pg d d' \<Longrightarrow> known u s d \<Longrightarrow> known u s d'"
proof (induction rule: db_step.induct)
  case (CreateUser pg s arg)
  then show ?case by (intro known_exec) (use users_stay(1) in \<open>auto simp: CreateUser_def Let_def\<close>)
next
  case (SetUserActive pg s arg)
  then show ?case by (intro known_exec) (use users_stay(2) in \<open>auto simp: SetUserActive_def split: option.split\<close>)
next
  case (UpdateUserRole pg s arg)
  then show ?case by (intro known_exec) (use users_stay(3) in \<open>auto simp: UpdateUserRole_def split: option.split\<close>)
next
  case (CreateDownstreamServer pg s arg)
  then show ?case
    by (intro known_exec) (use servers_stay(1) in \<open>auto simp: CreateDownstreamServer_def Let_def split: option.split\<close>)
next
  case (SetDownstreamServerActive pg s arg)
  then show ?case
    by (intro known_exec) (use servers_stay(2) in \<open>auto simp: SetDownstreamServerActive_def split: option.split\<close>)
next
  case (UpdateToolManifest pg s arg)
  then show ?case
    by (intro known_exec) (use servers_stay(3) in \<open>auto simp: UpdateToolManifest_def split: option.split\<close>)
next
  case (UpdateDownstreamServer pg s arg)
  then show ?case
    by (intro known_exec) (use servers_stay(4) in \<open>auto simp: UpdateDownstreamServer_def split: option.split\<close>)
qed (rule known_exec; simp add: CreateRole_def DeleteRole_def UpdateRole_def DeletePoliciesByRole_def DeletePolicy_def
      UpsertPolicy_def CreateAuditEvent_def InsertAuditEventWithID_def insert_event_def Let_def split: option.split)+

lemma known_steps: "(db_step pg)\<^sup>*\<^sup>* d d' \<Longrightarrow> known u s d \<Longrightarrow> known u s d'"
  by (induction rule: rtranclp_induct) (auto intro: known_step)

section \<open>What can be inserted\<close>

text \<open>What the table and its types ask of an event: PostgreSQL takes no NUL in a \<^verbatim>\<open>text\<close> and refuses some documents as \<^verbatim>\<open>jsonb\<close>.\<close>

definition storable :: "pg \<Rightarrow> Event \<Rightarrow> bool" where
  "storable pg e \<longleftrightarrow> text_ok (event_Tool e) \<and> jsonb_arg pg (event_Params e) \<noteq> None \<and> jsonb_arg pg (event_Summary e) \<noteq> None \<and>
    event_At e \<noteq> zero_time"

lemma outcome_ok: "Validate_event e = None \<Longrightarrow> event_Outcome e \<in> set outcomes \<and> text_ok (event_Outcome e)"
proof -
  have "set outcomes = {OutcomeAllowed, OutcomeDenied, OutcomeRateLimited, OutcomeError}"
    "\<forall>oc \<in> set outcomes. text_ok oc"
    unfolding outcomes_def outcome_defs text_ok_def by auto code_simp+
  then show "Validate_event e = None \<Longrightarrow> ?thesis" by (auto simp: Validate_event_def split: if_splits)
qed

lemma insert_succeeds:
  assumes "Validate_event e = None"
  shows "fst (InsertAuditEventWithID pg (insert_params i u s e) env t) \<in> range Inr \<longleftrightarrow>
    storable pg e \<and> i \<notin> ae_id ` set (t_events t) \<and> u \<in> user_id ` set (t_users t) \<and> s \<in> srv_id ` set (t_servers t)"
  using outcome_ok [OF assms]
  by (auto simp: InsertAuditEventWithID_def insert_event_def insert_params_def storable_def image_iff
      split: option.split)

lemma db_insert_succeeds:
  assumes "Validate_event e = None"
  shows "fst (db_insert pg (insert_params i u s e) d) \<in> range Inr \<longleftrightarrow>
    ce_link (pg_env pg (db_calls d)) = Up \<and> storable pg e \<and> i \<notin> ae_id ` set (log_of d) \<and> known u s d"
  using insert_succeeds [OF assms, of pg i u s "pg_env pg (db_calls d)" "db_tables d"]
  by (auto simp: queries_def exec_def Let_def known_def split: link.split prod.split)

lemma persist_succeeds:
  assumes "Validate_event e = None"
  shows "fst (persist scan (db_insert pg) e d) = None \<longleftrightarrow> (\<exists>i u s. scan (event_ID e) = Some i \<and>
    scan (event_UserID e) = Some u \<and> scan (event_ServerID e) = Some s \<and> ce_link (pg_env pg (db_calls d)) = Up \<and>
    storable pg e \<and> i \<notin> ae_id ` set (log_of d) \<and> known u s d)"
proof -
  have "fst (persist scan (db_insert pg) e d) = None \<longleftrightarrow> (\<exists>i u s. scan (event_ID e) = Some i \<and>
      scan (event_UserID e) = Some u \<and> scan (event_ServerID e) = Some s \<and>
      fst (db_insert pg (insert_params i u s e) d) \<in> range Inr)"
    by (auto simp: persist_def split: option.splits prod.splits sum.splits)
  then show ?thesis by (simp only: db_insert_succeeds [OF assms])
qed

section \<open>The decision of the writer\<close>

text \<open>C11: what the writer does with a delivery, exactly. It dead-letters a body that is not a valid event, and nothing
  else. It acknowledges a valid event if and only if its three ids can be read, the database can be reached, the tool is a
  text and the raw messages are documents that PostgreSQL takes, the id is new, and the user and the server are in the
  store. Every other delivery goes back to the queue: also those that no store will ever take, such as an event whose tool
  contains a NUL, or one that is stored already.\<close>

theorem writer_decides_exactly:
  assumes "handleDelivery clk scan (db_insert pg) m d = (x, d')"
  shows "(x = Nack False \<longleftrightarrow> (\<nexists>e. valid_event clk m e)) \<and>
    (x = Ack \<longleftrightarrow> (\<exists>e i u s. valid_event clk m e \<and> scan (event_ID e) = Some i \<and> scan (event_UserID e) = Some u \<and>
      scan (event_ServerID e) = Some s \<and> ce_link (pg_env pg (db_calls d)) = Up \<and>
      text_ok (event_Tool e) \<and> jsonb_arg pg (event_Params e) \<noteq> None \<and> jsonb_arg pg (event_Summary e) \<noteq> None \<and>
      event_At e \<noteq> zero_time \<and> i \<notin> ae_id ` set (log_of d) \<and> u \<in> user_id ` set (t_users (db_tables d)) \<and>
      s \<in> srv_id ` set (t_servers (db_tables d))))"
proof (cases "\<exists>e. valid_event clk m e")
  case False
  then have "x = Nack False" using assms by (auto simp: handleDelivery_def valid_event_def split: option.splits if_splits)
  with False show ?thesis by auto
next
  case True
  then obtain e where e: "valid_event clk m e" by blast
  then have valid: "Validate_event e = None" and only: "valid_event clk m e' \<longleftrightarrow> e' = e" for e'
    by (auto simp: valid_event_def)
  have x: "x = (if fst (persist scan (db_insert pg) e d) = None then Ack else Nack True)"
    using assms e by (auto simp: handleDelivery_def valid_event_def split: option.splits prod.splits)
  show ?thesis
    using persist_succeeds [OF valid, of scan pg d] unfolding x storable_def known_def only by auto
qed

theorem writer_decides_exactly_witness:
  "fst (handleDelivery demo_clock ref_scan (db_insert demo_pg) demo_body (demo_db True)) = Ack \<and>
    fst (handleDelivery demo_clock ref_scan (db_insert demo_pg) ''{}'' (demo_db True)) \<noteq> Ack"
proof -
  obtain x d' where x: "handleDelivery demo_clock ref_scan (db_insert demo_pg) ''{}'' (demo_db True) = (x, d')" by fastforce
  have "\<nexists>e. valid_event demo_clock ''{}'' e"
    using unmarshal_object [of "[]" "event_field demo_clock" zero_Event]
    by (simp add: valid_event_def read_event_def object_text_def zero_Event_def Validate_event_def)
  then have "x = Nack False" using writer_decides_exactly [OF x] by blast
  with x demo_handled show ?thesis by simp
qed

section \<open>The events of the proxy\<close>

lemma handler_publishes:
  assumes "proxy_handler g mo inp w = (out, w')"
  shows "w_pub w' = w_pub w \<or> (\<exists>req userID user d1 tool params srv d2 oc flds sm.
    caller g mo (in_authorization inp) (w_redis w) (w_store w) userID user d1 \<and> target g req d1 tool params srv d2 \<and>
    w_pub w' = snd (gw_publish g (event_of g mo userID srv tool oc params flds sm) (w_pub w)))"
  using assms
proof (cases rule: handler_cases)
  case rejected
  then show ?thesis by simp
next
  case (decided req userID user d1 tool params srv d2)
  let ?w = "w\<lparr>w_store := d2\<rparr>"
  obtain ev d3 where ev: "evaluated g mo user srv tool (w_redis ?w) (w_store ?w) = (ev, d3)" by fastforce
  obtain err rl z where rl: "limiting g mo userID srv (ev_decision ev) (w_zsets ?w) = (err, rl, z)" by (metis prod_cases3)
  have "w_pub w' = w_pub w \<or> (\<exists>oc flds sm. w_pub w' = snd (gw_publish g (event_of g mo userID srv tool oc params flds sm) (w_pub w)))"
    using decided(4) ev rl
  proof (cases rule: decide_call_cases)
    case (forwarded w2)
    from forwarded(4) show ?thesis by (cases rule: forward_call_cases) (auto simp: forwarded(6))
  qed auto
  with decided(2,3) show ?thesis by blast
qed

text \<open>The user and the server of such an event are in the store from which the request was answered.\<close>

lemma published_event_known:
  assumes "deployed_on R pg g" and "gw_publish g = Memory_Publish"
    and "proxy_handler g mo inp w = (out, w')" and "w_pub w' = w_pub w @ [e]"
    and "\<forall>srv \<in> set (t_servers (db_tables (w_store w))). uuid_ok (srv_id srv)"
  shows "event_ID e = mo_fresh mo \<and> event_At e = mo_event mo \<and> (\<exists>u s. gw_scan g (event_UserID e) = Some u \<and>
    gw_scan g (event_ServerID e) = Some s \<and> known u s (w_store w))"
proof -
  obtain req userID user d1 tool params srv d2 oc flds sm where
    caller: "caller g mo (in_authorization inp) (w_redis w) (w_store w) userID user d1" and target: "target g req d1 tool params srv d2"
    and e: "e = event_of g mo userID srv tool oc params flds sm"
    using handler_publishes [OF assms(3)] assms(2,4) by (auto simp: Memory_Publish_def)
  obtain u where u: "gw_scan g userID = Some u" "q_GetUser (queries pg) u (w_store w) = (Inr user, d1)"
    using caller assms(1) by (auto simp: caller_def deployed_on_def)
  note user = GetUser_row [OF u(2)]
  obtain name where "q_GetDownstreamServerByName (queries pg) name d1 = (Inr srv, d2)"
    using target assms(1) by (auto simp: target_def deployed_on_def)
  note server = GetServer_row [OF this]
  then have srv: "srv \<in> set (t_servers (db_tables (w_store w)))" using user by simp
  then have "gw_scan g (format_uuid (srv_id srv)) = Some (srv_id srv)"
    using assms(1,5) by (simp add: deployed_on_def uuid_scanner_def)
  then show ?thesis
    using u(1) user srv unfolding e by (auto simp: event_of_def NewEvent_def known_def)
qed

text \<open>C12: an event of the proxy gets into the log when PostgreSQL takes its texts. Take an event that the deployed proxy has
  published with a readable id that is new and with a time, any later state of the database, and the text that the
  publisher has sent. If the tool is a text without NUL, and the parameters and the summary are documents that PostgreSQL takes as
  \<^verbatim>\<open>jsonb\<close>, then the first delivery of this text that reaches the database is acknowledged and has stored the event: the user
  and the server of the event cannot have disappeared, and its ids are readable.\<close>

theorem proxy_events_are_stored:
  assumes "deployed_on R pg g" and "number_codec (gw_f64 g)" and "gw_publish g = Memory_Publish"
    and "gw_scan g [] = None" and "\<forall>t. gw_scan g t \<noteq> None \<longrightarrow> utf8_ok t"
    and "\<forall>srv \<in> set (t_servers (db_tables (w_store w))). uuid_ok (srv_id srv)"
    and "proxy_handler g mo inp w = (out, w')" and "w_pub w' = w_pub w @ [e]"
    and "gw_scan g (mo_fresh mo) = Some i" and "mo_event mo \<noteq> zero_time"
    and "clock_ok clk" and "event_text clk e = Some m"
    and "db_tables d0 = db_tables (w_store w)" and "(db_step pg)\<^sup>*\<^sup>* d0 d"
    and "i \<notin> ae_id ` set (log_of d)" and "ce_link (pg_env pg (db_calls d)) = Up"
    and "text_ok (event_Tool (reread_event e))"
    and "jsonb_arg pg (event_Params (reread_event e)) \<noteq> None" and "jsonb_arg pg (event_Summary (reread_event e)) \<noteq> None"
  shows "\<exists>d'. handleDelivery clk (gw_scan g) (db_insert pg) m d = (Ack, d') \<and>
    persisted (gw_scan g) (reread_event e) (log_of d')"
proof -
  obtain u s where ids: "event_ID e = mo_fresh mo" "event_At e = mo_event mo" "gw_scan g (event_UserID e) = Some u"
    "gw_scan g (event_ServerID e) = Some s" and known: "known u s (w_store w)"
    using published_event_known [OF assms(1,3,7,8,6)] by blast
  have "known u s d" using known_steps [OF assms(14)] known assms(13) by (simp add: known_def)
  have "utf8_fix t = t" if "gw_scan g t = Some x" for t x using assms(5) that utf8_fix_id by auto
  then have scans: "gw_scan g (event_ID (reread_event e)) = Some i" "gw_scan g (event_UserID (reread_event e)) = Some u"
    "gw_scan g (event_ServerID (reread_event e)) = Some s" "event_At (reread_event e) \<noteq> zero_time"
    using ids assms(9,10) by (simp_all add: reread_event_def del: utf8_fix.simps)
  have e: "event_typed e" "Validate_event e = None"
    using handler_types [OF assms(2,7)] assms(3,4,8,9) by (auto simp: Memory_Publish_def)
  then have read: "read_event clk m = Some (reread_event e)" "Validate_event (reread_event e) = None"
    using event_read [OF assms(11) _ assms(12)] valid_reread by blast+
  then have "fst (persist (gw_scan g) (db_insert pg) (reread_event e) d) = None"
    using persist_succeeds [OF read(2), of "gw_scan g" pg d] scans \<open>known u s d\<close> assms(15-19) by (simp add: storable_def)
  then obtain d' where p: "persist (gw_scan g) (db_insert pg) (reread_event e) d = (None, d')"
    by (cases "persist (gw_scan g) (db_insert pg) (reread_event e) d") simp
  with read have "handleDelivery clk (gw_scan g) (db_insert pg) m d = (Ack, d')" by (simp add: handleDelivery_def)
  with db_events.persist_ok [OF p] show ?thesis by blast
qed

lemma hex_val_ascii: "hex_val c = Some n \<Longrightarrow> code c < 128"
  unfolding hex_val_def by (simp split: if_splits)

lemma ref_scan_utf8: "ref_scan t \<noteq> None \<Longrightarrow> utf8_ok t"
proof -
  have hex: "list_all (\<lambda>c. code c < 128) u" if "hex_decode u \<noteq> None" for u
    using that by (induction u rule: hex_decode.induct) (auto intro: hex_val_ascii split: option.splits)
  assume "ref_scan t \<noteq> None"
  then have "hex_decode (filter (\<lambda>c. c \<noteq> CHR ''-'') t) \<noteq> None" by (simp add: ref_scan_def split: if_splits)
  from hex [OF this] have "\<forall>c \<in> set t. c \<noteq> CHR ''-'' \<longrightarrow> code c < 128" by (simp add: list_all_iff)
  moreover have "code (CHR ''-'') < 128" by code_simp
  ultimately have "\<forall>c \<in> set t. code c < 128" by metis
  then show "utf8_ok t" by (intro utf8_ok_ascii) (simp only: list_all_iff)
qed

theorem proxy_events_are_stored_witness:
  "\<exists>m d'. event_text demo_clock denied_event = Some m \<and>
    handleDelivery demo_clock ref_scan (db_insert demo_pg) m (demo_db False) = (Ack, d')"
proof -
  have g: "deployed_on mem_redis demo_pg demo_gateway" "number_codec (gw_f64 demo_gateway)"
    "gw_publish demo_gateway = Memory_Publish" "gw_scan demo_gateway = ref_scan"
    using demo_f64_codec by (simp_all add: deployed_on_def demo_gateway_def NewTokenManager_def uuid_scanner_ref)
  have scan: "gw_scan demo_gateway [] = None" "\<forall>t. gw_scan demo_gateway t \<noteq> None \<longrightarrow> utf8_ok t"
    using ref_scan_utf8 by (auto simp: g(4) ref_scan_def)
  have servers: "\<forall>srv \<in> set (t_servers (db_tables (w_store (demo_world False)))). uuid_ok (srv_id srv)"
    using demo_db_good [of False] by (simp add: demo_world_def demo_db_def)
  have pub: "w_pub (demo_after False) = w_pub (demo_world False) @ [denied_event]"
    by (simp add: demo_denied_pub demo_world_def)
  have mo: "gw_scan demo_gateway (mo_fresh demo_moment) = Some id1" "mo_event demo_moment \<noteq> zero_time"
    using ref_scan_ids by (simp_all add: demo_moment_def g(4) zero_time_def)
  have at: "time_text demo_clock (event_At denied_event) = Some ''0''"
    by (simp add: denied_event_def event_of_def NewEvent_def demo_moment_def demo_clock_def)
  obtain e where "w_pub (demo_after False) = snd (gw_publish demo_gateway e (w_pub (demo_world False))) \<and> event_typed e"
    using handler_types [OF g(2) demo_run [of False]] pub by auto
  then have "event_typed denied_event" by (auto simp: g(3) Memory_Publish_def pub)
  then obtain m where m: "event_text demo_clock denied_event = Some m" using event_text_typed [OF _ at] by blast
  have tool: "text_ok (event_Tool (reread_event denied_event))"
    using utf8_fix_id [OF demo_texts_ok(8)] demo_text_ok(2)
    by (simp add: reread_event_def denied_event_def event_of_def NewEvent_def del: utf8_fix.simps)
  have jsonb: "jsonb_arg demo_pg x \<noteq> None" for x by (simp add: jsonb_arg_def demo_pg_def)
  have store: "db_tables (demo_db False) = db_tables (w_store (demo_world False))" by (simp add: demo_world_def)
  have fresh: "id1 \<notin> ae_id ` set (log_of (demo_db False))" by (simp add: demo_db_def)
  have link: "ce_link (pg_env demo_pg (db_calls (demo_db False))) = Up" by (simp add: demo_pg_def)
  note stored = proxy_events_are_stored [OF g(1-3) scan servers demo_run pub mo demo_clock_ok m store rtranclp.rtrancl_refl
      fresh link tool jsonb jsonb]
  then obtain d' where "handleDelivery demo_clock ref_scan (db_insert demo_pg) m (demo_db False) = (Ack, d')"
    unfolding g(4) by blast
  with m show ?thesis by blast
qed

end
