(* ===== verification/Event_Round.thy ===== *)
theory Event_Round
  imports Storing Proxy_Params
begin

text \<open>
  From the proxy to the worker: the message that the publisher sends for an event of the proxy, and what the worker
  reads from it. The texts of an event are well-formed UTF-8, and the raw messages that the proxy prints itself are
  compact already, so only a raw answer of a server can be changed on the way, by losing white space.
\<close>

section \<open>Messages that are compact already\<close>

lemma compact_text_print: "json_ok f d v \<Longrightarrow> compact_text (json_print v)"
  by (simp add: compact_text_def compact_print)

lemma reread_compact: "compact_text x \<Longrightarrow> reread_optional x = x"
  by (auto simp: compact_text_def reread_optional_def raw_text_def dest: spec [of _ "[]"])

lemma reread_tool_result: "reread_optional (tool_result_text x) = tool_result_text x"
  by (simp add: reread_optional_def tool_result_compact)

lemma params_compact:
  assumes "number_codec f" and "utf8_ok tool" and "json_ok f (max_depth - 1) (JObj args)"
  shows "compact_text (RedactJSONBytes f (call_params_text \<lparr>call_Name = tool, call_Arguments = Some args\<rparr>) flds)"
proof (cases "flds = []")
  case True
  have "compact_text (object_text (printed (clean_members tool args)))"
    using compact_text_print [OF assms(3)] compact_text_quote
    by (intro compact_text_object) (auto simp: clean_members_def)
  then show ?thesis using True by (simp add: RedactJSONBytes_def call_params_members)
next
  case False
  note reads = clean_params_read [OF assms(2,3)]
  show ?thesis
    unfolding RedactJSONBytes_object [OF reads False]
    by (rule compact_text_print [OF json_ok_redact_doc [OF reads_map_ok [OF assms(1) reads]]])
qed

section \<open>Texts\<close>

lemma uuid_text_utf8: "utf8_ok (format_uuid u)"
proof (rule utf8_ok_ascii)
  have hex: "list_all (\<lambda>c. code c < 128) (hex_encode bs)" for bs
  proof -
    have "\<forall>c \<in> hex_chars. code c < 128" unfolding hex_chars_def by code_simp
    then show ?thesis using set_hex_encode [of bs] by (auto simp: list_all_iff)
  qed
  have "code (CHR ''-'') < 128" by code_simp
  with hex show "list_all (\<lambda>c. code c < 128) (format_uuid u)" by (simp add: format_uuid_def)
qed

lemma outcomes_utf8: "utf8_ok OutcomeAllowed" "utf8_ok OutcomeDenied" "utf8_ok OutcomeRateLimited" "utf8_ok OutcomeError"
  unfolding outcome_defs by code_simp+

section \<open>The events of the handler\<close>

lemma published_stage:
  assumes "gw_publish g = Memory_Publish" and "proxy_handler g mo inp w = (out, w')" and "w_pub w' = w_pub w @ [e]"
  obtains req st where "decode dec_request zero_Request (in_body inp) = Some req" and "ends g mo inp req w st"
    and "stage_event g mo st = Some e"
proof (cases "decode dec_request zero_Request (in_body inp)")
  case None
  then show ?thesis using assms(2,3) by (auto simp: proxy_handler_def)
next
  case (Some req)
  obtain st where st: "ends g mo inp req w st" using ends_somewhere by blast
  have "w_pub w' = (case stage_event g mo st of None \<Rightarrow> w_pub w | Some e \<Rightarrow> snd (gw_publish g e (w_pub w)))"
    using ends_handled [OF assms(2) Some st] by (simp add: handled_def)
  then have "stage_event g mo st = Some e"
    using assms(1,3) by (auto simp: Memory_Publish_def split: option.splits)
  with Some st show ?thesis by (rule that)
qed

text \<open>The texts and the messages of such an event; a summary that is not an answer is compact.\<close>

lemma published_parts:
  assumes "number_codec (gw_f64 g)" and "\<forall>t. gw_scan g t \<noteq> None \<longrightarrow> utf8_ok t"
    and "decode dec_request zero_Request (in_body inp) = Some req" and "ends g mo inp req w st" and "stage_event g mo st = Some e"
  shows "event_ID e = mo_fresh mo" and "event_At e = mo_event mo"
    and "utf8_ok (event_UserID e)" and "utf8_ok (event_ServerID e)" and "utf8_ok (event_Tool e)" and "utf8_ok (event_Outcome e)"
    and "compact_text (event_Params e)" and "event_Outcome e \<noteq> OutcomeAllowed \<Longrightarrow> reread_optional (event_Summary e) = event_Summary e"
proof -
  obtain userID srv tool params flds v where st: "st = Decided userID srv tool params flds v"
    using assms(5) by (cases st) (auto simp: stage_event_def)
  obtain user d1 d2 where c: "caller g mo (in_authorization inp) (w_redis w) (w_store w) userID user d1"
    and t: "target g req d1 tool params srv d2"
    using assms(4) unfolding st by (rule ends_decided)
  obtain name where call: "parseToolCall g req = Inr (name, tool, params)" using t by (auto simp: target_def)
  obtain args where args: "utf8_ok tool" "json_ok (gw_f64 g) (max_depth - 1) (JObj args)"
    "params = call_params_text \<lparr>call_Name = tool, call_Arguments = Some args\<rparr>"
    using parsed_call [OF assms(1) decoded_request [OF assms(3)] call] by blast
  have user: "utf8_ok userID" using c assms(2) by (auto simp: caller_def)
  obtain oc sm where e: "e = event_of g mo userID srv tool oc params flds sm"
    and oc: "utf8_ok oc" "oc \<noteq> OutcomeAllowed \<Longrightarrow> reread_optional sm = sm"
  proof (cases v)
    case (Server_failed err)
    have "reread_optional (object_text [(''error'', quote s)]) = object_text [(''error'', quote s)]" for s
      by (rule reread_compact [OF compact_text_object]) (simp add: compact_text_quote)
    then show ?thesis using that assms(5) outcomes_utf8 unfolding st Server_failed stage_event_of by blast
  qed (use that assms(5) outcomes_utf8 in \<open>auto simp: st stage_event_of reread_optional_def\<close>)
  show "event_ID e = mo_fresh mo" and "event_At e = mo_event mo"
    and "utf8_ok (event_UserID e)" and "utf8_ok (event_ServerID e)" and "utf8_ok (event_Tool e)" and "utf8_ok (event_Outcome e)"
    and "event_Outcome e \<noteq> OutcomeAllowed \<Longrightarrow> reread_optional (event_Summary e) = event_Summary e"
    using user args(1) uuid_text_utf8 oc by (simp_all add: e event_of_def NewEvent_def)
  show "compact_text (event_Params e)"
    using params_compact [OF assms(1) args(1,2)] by (simp add: e event_of_def NewEvent_def args(3))
qed

text \<open>C29: what the proxy publishes is what the worker reads. For every event that the handler publishes, with an id
  that is a text and a time that can be printed, the publisher sends one message: to the audit exchange, under the key \<^verbatim>\<open>audit.\<close> and its outcome,
  with the id of the event as the message id. The worker reads the same event from its body, field by field; only the
  summary of an answered call that was not redacted can differ, which is the answer's own JSON and comes back without white
  space and with the HTML characters escaped.\<close>

theorem sent_event_is_read_back:
  assumes "clock_ok clk" and "number_codec (gw_f64 g)" and "gw_publish g = Memory_Publish"
    and "\<forall>t. gw_scan g t \<noteq> None \<longrightarrow> utf8_ok t" and "utf8_ok (mo_fresh mo)" and "time_text clk (mo_event mo) \<noteq> None"
    and "proxy_handler g mo inp w = (out, w')" and "w_pub w' = w_pub w @ [e]"
  shows "\<exists>body. send_message clk e = Some (ExchangeAudit, ''audit.'' @ event_Outcome e, mo_fresh mo, body) \<and>
    read_event clk body = Some (e\<lparr>event_Summary := (if event_Summary e = [] then [] else compact False (event_Summary e))\<rparr>) \<and>
    (event_Outcome e \<noteq> OutcomeAllowed \<or> (\<exists>x. event_Summary e = tool_result_text x) \<longrightarrow> read_event clk body = Some e)"
proof -
  obtain req st where st: "decode dec_request zero_Request (in_body inp) = Some req" "ends g mo inp req w st"
    "stage_event g mo st = Some e"
    using published_stage [OF assms(3,7,8)] by blast
  note parts = published_parts [OF assms(2,4) st]
  have typed: "event_typed e"
    using handler_types [OF assms(2,7)] assms(3,8) by (auto simp: Memory_Publish_def)
  obtain at where "time_text clk (event_At e) = Some at" using assms(6) parts(2) by auto
  then obtain body where body: "event_text clk e = Some body" using event_text_typed [OF typed] by blast
  have read: "read_event clk body = Some (reread_event e)" by (rule event_read [OF assms(1) typed body])
  have summary: "reread_optional (event_Summary e) = (if event_Summary e = [] then [] else compact False (event_Summary e))"
    by (simp add: reread_optional_def raw_text_def)
  have "reread_event e = e\<lparr>event_Summary := reread_optional (event_Summary e)\<rparr>"
    using parts(1,3-6) assms(5) reread_compact [OF parts(7)]
    by (simp add: reread_event_def utf8_fix_id del: utf8_fix.simps utf8_ok.simps)
  moreover from this have "event_Outcome e \<noteq> OutcomeAllowed \<or> (\<exists>x. event_Summary e = tool_result_text x) \<Longrightarrow> reread_event e = e"
    using parts(8) reread_tool_result by auto
  ultimately show ?thesis
    using read by (intro exI [of _ body]) (simp add: send_message_def body RoutingKey_eq parts(1) summary)
qed

theorem sent_event_is_read_back_witness:
  "\<exists>body. send_message demo_clock denied_event = Some (ExchangeAudit, ''audit.denied'', format_uuid id1, body) \<and>
    read_event demo_clock body = Some denied_event"
proof -
  have g: "number_codec (gw_f64 demo_gateway)" "gw_publish demo_gateway = Memory_Publish" "gw_scan demo_gateway = ref_scan"
    using demo_f64_codec by (simp_all add: demo_gateway_def)
  have scan: "\<forall>t. gw_scan demo_gateway t \<noteq> None \<longrightarrow> utf8_ok t" using ref_scan_utf8 by (auto simp: g(3))
  have mo: "utf8_ok (mo_fresh demo_moment)" "time_text demo_clock (mo_event demo_moment) \<noteq> None"
    using utf8_ids by (simp_all add: demo_moment_def demo_clock_def del: utf8_ok.simps)
  have pub: "w_pub (demo_after False) = w_pub (demo_world False) @ [denied_event]"
    by (simp add: demo_denied_pub demo_world_def)
  have oc: "event_Outcome denied_event = ''denied''" by (simp add: denied_event_def event_of_def NewEvent_def outcome_defs)
  from sent_event_is_read_back [OF demo_clock_ok g(1,2) scan mo demo_run pub] show ?thesis
    by (auto simp: oc outcome_defs demo_moment_def)
qed

end
