(* ===== verification/Spec2Isabelle.thy ===== *)
theory Spec2Isabelle
  imports Mcp_Props Auth_Props Forward_Answers Policy_Props Ratelimit Rate_Bound Store_Props Worker_Props Audit_Topology
    Proxy_Props Proxy_Stages Proxy_Demo Proxy_Redaction Noninterference Proxy_Params Proxy_Types Proxy_Replies Admin_Props
    Admin_Demo Mock_Server Lifecycle Pipeline Storing Event_Round
begin

text \<open>
  A verification development for MCP Gate, the gateway of this repository: a proxy that lets agents call the tools of
  downstream MCP servers under per-role policies, with rate limits, redaction and an audit log, and the administration
  API and the worker beside it.

  \<^bold>\<open>The program.\<close> Three processes share PostgreSQL, Redis and RabbitMQ.

  \<^item> The proxy (\<^verbatim>\<open>cmd/proxy\<close>) takes one JSON-RPC request per HTTP request: it
    authenticates the bearer token, finds the user and the server, asks the policy engine, asks the rate limiter,
    forwards the call, redacts the answer, and publishes one audit event.
  \<^item> The worker (\<^verbatim>\<open>cmd/worker\<close>) consumes the events: the writer stores them, the
    alerting consumer logs the blocked ones.
  \<^item> The administration server (\<^verbatim>\<open>cmd/adminapi\<close>) manages roles, users, servers, policies
    and tokens and lists the audit log.

  \<^bold>\<open>How it is modelled.\<close> A struct is a record, an integer a word of its width, a string the list
  of its bytes, an error a value of a sum or option type. A function that changes state takes the state and gives the
  new one. Goroutines that share state (the publisher, the cache writes of the engine, the worker and the broker) are
  step relations, with what they promise as invariants of the reachable states. Time, random bytes, fresh ids and the
  failures of connections are arguments.

  \<^bold>\<open>The theories.\<close>

  \<^item> \<open>Prelude\<close>: text, hexadecimal and decimal numbers, the collections of hints.
  \<^item> \<open>Json_Text\<close>, \<open>Json_Value\<close>, \<open>Json_Struct\<close>, \<open>Json_Raw\<close>,
    \<open>Json_Round\<close>, \<open>Json_Compact\<close>: the part of \<^verbatim>\<open>encoding/json\<close> that
    the program uses: UTF-8, the scanner with its depth limit, values, decoding into structs, printing, compacting raw
    messages; which texts are JSON (\<open>raw_value\<close>), and the round trips between printing and decoding.
    Parsers run on fuel, which is the length of the input plus one and suffices (\<open>Json_Value\<close>).
  \<^item> \<open>Keys\<close> (\<^verbatim>\<open>internal/cache\<close>), \<open>Redis\<close>: key builders; the
    commands of Redis as a record with the locale \<open>redis_strings\<close> as their contract, met by a key space
    in memory.
  \<^item> \<open>Mcp\<close>, \<open>Mcp_Props\<close>, \<open>Message_Types\<close>, \<open>Tool_Results\<close>
    (\<^verbatim>\<open>internal/mcp/types.go\<close>, \<^verbatim>\<open>redact.go\<close>): messages and redaction;
    what decoding a message leaves in its raw fields, and reading back what was printed.
  \<^item> \<open>Sha256\<close>, \<open>Tokens\<close>, \<open>Auth_Props\<close>
    (\<^verbatim>\<open>internal/auth\<close>): tokens over Redis; the forwarder's requests.
  \<^item> \<open>Forwarder\<close>, \<open>Forward_Answers\<close> (\<^verbatim>\<open>internal/mcp/forwarder.go\<close>):
    the request to a server, over a resolver of secrets (locale \<open>secret_resolver\<close>); which answers are passed on.
  \<^item> \<open>Db\<close>, \<open>Schema\<close>, \<open>Store_Props\<close>
    (\<^verbatim>\<open>internal/db\<close>): rows, queries, the querier interface; the schema as an invariant.
  \<^item> \<open>Policy_Engine\<close>, \<open>Policy_Cache\<close>, \<open>Policy_Props\<close>
    (\<^verbatim>\<open>internal/policy\<close>): evaluation over a store (locale \<open>policy_store\<close>) and
    Redis; the system of requests, cache writes and time (locale \<open>policy_system\<close>).
  \<^item> \<open>Ratelimit\<close>, \<open>Rate_Bound\<close> (\<^verbatim>\<open>internal/ratelimit\<close>): the
    script over sorted sets (locale \<open>redis_zsets\<close>), its sliding window, and what it bounds in real time.
  \<^item> \<open>Audit_Event\<close>, \<open>Audit_Publisher\<close>, \<open>Audit_Consumers\<close>,
    \<open>Worker_Props\<close>, \<open>Audit_Topology\<close> (\<^verbatim>\<open>internal/audit\<close>,
    \<^verbatim>\<open>cmd/worker\<close>): events, the publisher (locale \<open>publisher\<close>), the writer and
    the alerting consumer (locales \<open>event_store\<close>, \<open>alerter\<close>), the broker (locales
    \<open>amqp_queue\<close>, \<open>amqp_broker\<close>).
  \<^item> \<open>Proxy\<close>, \<open>Proxy_Props\<close>, \<open>Proxy_Stages\<close>,
    \<open>Proxy_Redaction\<close>, \<open>Noninterference\<close>, \<open>Proxy_Params\<close>,
    \<open>Proxy_Types\<close>, \<open>Proxy_Replies\<close>, \<open>Proxy_Demo\<close>
    (\<^verbatim>\<open>cmd/proxy\<close>): the handler over all of these. The relation \<open>ends\<close> of
    \<open>Proxy_Stages\<close> specifies where a request ends, with one rule per way; the audit record and the code of the reply
    are stated over it.
  \<^item> \<open>Admin_Api\<close>, \<open>Handlers\<close>, \<open>Admin_Server\<close>, \<open>Admin_Props\<close>,
    \<open>Admin_Demo\<close> (\<^verbatim>\<open>internal/api\<close>, \<^verbatim>\<open>internal/handlers\<close>,
    \<^verbatim>\<open>internal/middleware\<close>, \<^verbatim>\<open>internal/config\<close>,
    \<^verbatim>\<open>cmd/adminapi\<close>): the administration.
  \<^item> \<open>Mock_Server\<close> (\<^verbatim>\<open>cmd/mockdownstream\<close>): the mock server, as the other
    end of the proxy's HTTP client.
  \<^item> \<open>Lifecycle\<close> (\<^verbatim>\<open>main\<close> of the three processes): starting, failing,
    stopping; the shutdown of the proxy as a step relation.
  \<^item> \<open>Pipeline\<close>, \<open>Storing\<close>, \<open>Event_Round\<close>: the proxy, the broker and
    the worker as one step relation, from the handler to the audit log; when the last step, storing an event, succeeds; what
    the worker reads of the events that the proxy publishes.

  \<^bold>\<open>What is shown.\<close> Each property is a theorem after a text that begins with its number.

  \<^item> The proxy: nothing reaches a server before every check has passed; in the deployed system such a call is
    authorised by a live token, active rows and a policy for this tool, and goes to this server; every request ends at the
    stage that its checks and its verdict say, and the stage decides what is audited, once, and the code of the reply;
    what is forwarded is clean;
    what is redacted for the client, and what is not; redacted values do not influence the reply, the state or the
    audit event; every reply and event is JSON that reads back (type soundness).
  \<^item> The engine fails closed and exactly, and its cache is stale for a bounded time. The limiter is a sliding
    window, fails closed, and bounds the allowed calls of an interval (the 60 seconds less the grain of the scores of Redis, for
    calls of different nanoseconds). Tokens live as long as they should. The forwarder sends what the server row says, and
    returns only what a successful answer says in its first 10 MiB.
  \<^item> The audit pipeline: the publisher keeps the order and loses nothing while its worker runs; an acknowledged
    event is stored; no valid event is lost between the queue and the log; what the writer does with a delivery,
    exactly; events are routed to the right queues. From end to end: an accepted event is in the buffer, was lost by a
    failed send, waits at the broker, or is in the log.
  \<^item> The processes: a start fails at the first failing call; \<open>Close\<close> terminates; an orderly end of
    the proxy loses no event.
  \<^item> The store: the schema is an invariant; the log is append-only; pages tile it.
  \<^item> The administration: the token guards it; a request is at most one statement; an error reply changes
    nothing; limits stay positive; a deactivated user is locked out of the proxy.
  \<^item> Where the code does less than it means to, a theorem states what it does: an event that cannot be stored,
    or is stored already, is requeued for ever, the arguments of calls are audited unredacted, an array passes the
    redaction of answers, the cache is not invalidated, two calls of the same nanosecond count once, an event can be lost when the publisher is closed while
    \<open>Publish\<close> runs, or when the shutdown of the proxy times out.

  \<^bold>\<open>Parameters.\<close> What is not in the repository is an argument with its documented behaviour as
  hypotheses: Redis, PostgreSQL's clock, ids, collation, \<^verbatim>\<open>jsonb\<close> and interval syntax,
  RabbitMQ, the HTTP client, \<^verbatim>\<open>pgtype\<close>'s reading and printing of UUIDs, the printing of
  floating-point numbers, and message texts of libraries.

  \<^bold>\<open>Not modelled.\<close> The inside of the library calls of the \<^verbatim>\<open>main\<close>
  functions (pools, listening, the timeouts of \<^verbatim>\<open>http.Server\<close>, signals), which are calls that
  succeed or fail; log output other than the lines of the request logger, the security records and the messages of the
  \<^verbatim>\<open>main\<close> functions; contexts and their deadlines; \<^verbatim>\<open>WithTx\<close>, which
  the program does not use; the SQL migrations, except as the schema invariant; the dashboard.
\<close>

end
